(* ===== verification/Chat_Prelude.thy ===== *)
theory Chat_Prelude
  imports Main "HOL-Library.Word" "HOL-Library.Monad_Syntax"
begin

text \<open>
  What every component of the chat system shares: the C memory and string primitives the sources
  use (\<open>memcpy\<close>, \<open>strlen\<close>, \<open>strcmp\<close>, \<open>snprintf\<close>, the signed \<open>char\<close> of gcc on x86-64),
  the outcomes of allocations, and the generic lemmas about them.

  Conventions.  A byte buffer is a \<^typ>\<open>string\<close> (a list of 8-bit \<^typ>\<open>char\<close>s).  A C string that
  was copied out of a buffer is the \<^typ>\<open>string\<close> of its characters without the terminating NUL.
  A pointer that may be \<open>NULL\<close> is an \<^typ>\<open>'a option\<close>.  Undefined behaviour (a read or write outside
  an object, a dereference of a dangling pointer) is the value \<^term>\<open>None\<close> of an outer option, so
  that "no undefined behaviour" is a statement about the result.  A \<open>size_t\<close> that counts live heap
  objects or the bytes of a buffer is a \<^typ>\<open>nat\<close>; integers whose width matters are words.
\<close>

named_theorems c_mem "facts about C buffers and strings"
named_theorems lib_ops "laws of the data-structures library"

section \<open>Bytes and C strings\<close>

definition NUL :: char where
  "NUL = CHR 0x00"

text \<open>The value of a plain (signed) \<open>char\<close> after integer promotion.\<close>

definition schar :: "char \<Rightarrow> int" where
  "schar c = (if (of_char c :: nat) < 128 then int (of_char c) else int (of_char c) - 256)"

text \<open>Reading \<open>n\<close> bytes at an offset; \<^term>\<open>None\<close> when the read leaves the buffer.\<close>

definition mem_read :: "string \<Rightarrow> nat \<Rightarrow> nat \<Rightarrow> string option" where
  "mem_read buf off n =
     (if off + n \<le> length buf then Some (take n (drop off buf)) else None)"

text \<open>Writing bytes at an offset; \<^term>\<open>None\<close> when the write leaves the buffer.\<close>

definition mem_write :: "string \<Rightarrow> nat \<Rightarrow> string \<Rightarrow> string option" where
  "mem_write buf off s =
     (if off + length s \<le> length buf
      then Some (take off buf @ s @ drop (off + length s) buf) else None)"

text \<open>
  The C string that starts at an offset of a buffer: the bytes up to the first NUL.
  \<open>strlen\<close>, \<open>%s\<close> and the like run past the buffer when it holds no NUL: \<^term>\<open>None\<close>.
\<close>

definition c_string_at :: "string \<Rightarrow> nat \<Rightarrow> string option" where
  "c_string_at buf off =
     (if NUL \<in> set (drop off buf)
      then Some (takeWhile (\<lambda>c. c \<noteq> NUL) (drop off buf)) else None)"

text \<open>\<open>strcmp\<close> compares the characters as unsigned bytes.\<close>

fun c_strcmp :: "string \<Rightarrow> string \<Rightarrow> int" where
  "c_strcmp [] [] = 0"
| "c_strcmp [] (d # ds) = - 1"
| "c_strcmp (c # cs) [] = 1"
| "c_strcmp (c # cs) (d # ds) =
     (if c = d then c_strcmp cs ds
      else if (of_char c :: int) < of_char d then - 1 else 1)"

text \<open>
  \<open>snprintf(buf + off, size, ...)\<close> whose expanded output is \<open>txt\<close>: at most \<open>size - 1\<close> characters
  and a NUL are written (nothing when \<open>size\<close> is 0) and the length of the whole output is returned,
  or a negative value when that length is not an \<open>int\<close>.
\<close>

definition snprintf_result :: "string \<Rightarrow> int" where
  "snprintf_result txt = (if length txt \<le> 2147483647 then int (length txt) else - 1)"

definition snprintf :: "string \<Rightarrow> nat \<Rightarrow> nat \<Rightarrow> string \<Rightarrow> (int \<times> string) option" where
  "snprintf buf off n txt =
     (if n = 0 then Some (snprintf_result txt, buf)
      else do {
        buf' \<leftarrow> mem_write buf off (take (n - 1) txt @ [NUL]);
        Some (snprintf_result txt, buf')
      })"

text \<open>The output of \<open>%u\<close>.\<close>

fun decimal :: "nat \<Rightarrow> string" where
  "decimal n =
     (if n < 10 then [char_of (48 + n)] else decimal (n div 10) @ [char_of (48 + n mod 10)])"

declare decimal.simps [simp del]

text \<open>Joining texts with a separator; the flag tells that nothing precedes.\<close>

fun join_from :: "string \<Rightarrow> bool \<Rightarrow> string list \<Rightarrow> string" where
  "join_from sep first [] = []"
| "join_from sep first (t # ts) = (if first then t else sep @ t) @ join_from sep False ts"

abbreviation join :: "string \<Rightarrow> string list \<Rightarrow> string" where
  "join sep ts \<equiv> join_from sep True ts"

text \<open>The first \<open>n\<close> bytes of a buffer hold the C string \<open>txt\<close> with its terminator.\<close>

definition holds_text :: "string \<Rightarrow> nat \<Rightarrow> string \<Rightarrow> bool" where
  "holds_text buf n txt \<longleftrightarrow>
     n \<le> length buf \<and> length txt < n \<and> NUL \<notin> set txt \<and> take (Suc (length txt)) buf = txt @ [NUL]"

text \<open>A C string that fits the value of a message with its terminator.\<close>

definition wire_name :: "string \<Rightarrow> bool" where
  "wire_name s \<longleftrightarrow> NUL \<notin> set s \<and> length s < 256"

section \<open>Allocation outcomes\<close>

text \<open>
  Every allocation of the server's management layer, by site.  Within the handling of one event
  each site is executed at most once, so a function from sites to Booleans describes every
  combination of successful and failing allocations of one event.
\<close>

datatype alloc_site =
    Alloc_ServerManager | Alloc_UserManager | Alloc_UsersByName | Alloc_UsersByFd
  | Alloc_GroupManager | Alloc_Groups
  | Alloc_User | Alloc_Username | Alloc_Password | Alloc_MapByName | Alloc_MapByFd
  | Alloc_List | Alloc_ListNode | Alloc_GroupNameCopy | Alloc_LogoutName
  | Alloc_Group | Alloc_GroupName | Alloc_MapGroups | Alloc_SendBuffer

type_synonym mem = "alloc_site \<Rightarrow> bool"

abbreviation mem_ok :: mem where
  "mem_ok \<equiv> (\<lambda>_. True)"

section \<open>Lemmas\<close>

lemma of_char_nat_less [simp]: "(of_char c :: nat) < 256"
  by (cases c) (simp add: of_char_def of_bool_def)

lemma schar_range: "- 128 \<le> schar c \<and> schar c < 128"
  using of_char_nat_less [of c] by (auto simp: schar_def simp del: of_char_nat_less)

lemma length_mem_read [c_mem]: "mem_read buf off n = Some s \<Longrightarrow> length s = n"
  by (auto simp: mem_read_def split: if_splits)

lemma length_mem_write [c_mem]: "mem_write buf off s = Some buf' \<Longrightarrow> length buf' = length buf"
  by (auto simp: mem_write_def split: if_splits)

lemma mem_write_append:
  "length s \<le> length b \<Longrightarrow> k = length a \<Longrightarrow>
     mem_write (a @ b) k s = Some (a @ s @ drop (length s) b)"
  by (simp add: mem_write_def)

lemma mem_write_start:
  "length s \<le> length b \<Longrightarrow> mem_write b 0 s = Some (s @ drop (length s) b)"
  by (simp add: mem_write_def)

lemma mem_read_append: "k = length a \<Longrightarrow> n = length s \<Longrightarrow> mem_read (a @ s @ b) k n = Some s"
  by (simp add: mem_read_def)

lemma c_strcmp_eq_0 [simp]: "c_strcmp a b = 0 \<longleftrightarrow> a = b"
  by (induction a b rule: c_strcmp.induct) auto

lemma c_string_at_no_NUL [c_mem]: "c_string_at buf off = Some s \<Longrightarrow> NUL \<notin> set s"
  by (auto simp: c_string_at_def dest: set_takeWhileD split: if_splits)

lemma c_string_at_append [c_mem]:
  "NUL \<notin> set s \<Longrightarrow> c_string_at (pre @ s @ NUL # rest) (length pre) = Some s"
  by (auto simp: c_string_at_def takeWhile_tail intro!: trans [OF takeWhile_append2])

lemma c_string_at_bound:
  assumes "c_string_at buf off = Some s" shows "off + length s < length buf"
proof -
  let ?d = "drop off buf"
  from assms have s: "s = takeWhile (\<lambda>c. c \<noteq> NUL) ?d" and N: "NUL \<in> set ?d"
    by (auto simp: c_string_at_def split: if_splits)
  have "dropWhile (\<lambda>c. c \<noteq> NUL) ?d \<noteq> []" using N by (auto simp: dropWhile_eq_Nil_conv)
  then have "1 \<le> length (dropWhile (\<lambda>c. c \<noteq> NUL) ?d)" by (cases "dropWhile (\<lambda>c. c \<noteq> NUL) ?d") auto
  moreover have "length s + length (dropWhile (\<lambda>c. c \<noteq> NUL) ?d) = length ?d"
    unfolding s by (metis length_append takeWhile_dropWhile_id)
  ultimately have "length s + 1 \<le> length buf - off" by (simp only: length_drop)
  then show ?thesis by linarith
qed

lemma snprintf_in_bounds:
  assumes "off + n \<le> length buf"
  obtains buf' where "snprintf buf off n txt = Some (snprintf_result txt, buf')"
    and "length buf' = length buf"
proof (cases "n = 0")
  case True
  then show ?thesis using that by (simp add: snprintf_def)
next
  case False
  then have "off + length (take (n - 1) txt @ [NUL]) \<le> length buf"
    using assms by auto
  then obtain buf' where w: "mem_write buf off (take (n - 1) txt @ [NUL]) = Some buf'"
    by (simp add: mem_write_def)
  with False have "snprintf buf off n txt = Some (snprintf_result txt, buf')"
    by (simp add: snprintf_def)
  with w show ?thesis using that by (simp add: length_mem_write)
qed

lemma snprintf_text:
  assumes "0 < n" and "n \<le> length buf" and "NUL \<notin> set t"
  obtains buf' where "snprintf buf 0 n t = Some (snprintf_result t, buf')" and "length buf' = length buf"
    and "c_string_at buf' 0 = Some (take (n - 1) t)"
proof -
  let ?s = "take (n - 1) t"
  have "length (?s @ [NUL]) \<le> length buf" using assms(1,2) by auto
  then have w: "mem_write buf 0 (?s @ [NUL]) = Some ((?s @ [NUL]) @ drop (length (?s @ [NUL])) buf)"
    by (rule mem_write_start)
  have "NUL \<notin> set ?s" using assms(3) by (auto dest: in_set_takeD)
  then have "c_string_at ((?s @ [NUL]) @ rest) 0 = Some ?s" for rest
    using c_string_at_append [of ?s "[]" rest] by simp
  then show ?thesis using assms(1) w length_mem_write [OF w]
    by (intro that [of "(?s @ [NUL]) @ drop (length (?s @ [NUL])) buf"]) (auto simp: snprintf_def)
qed

text \<open>Texts built by successive \<open>snprintf\<close> calls at a running offset.\<close>

lemma holds_text_split: "holds_text buf n txt \<Longrightarrow> buf = txt @ NUL # drop (Suc (length txt)) buf"
  by (metis append.assoc append_Cons append_Nil append_take_drop_id holds_text_def)

lemma holds_text_c_string: "holds_text buf n txt \<Longrightarrow> c_string_at buf 0 = Some txt"
  using c_string_at_append [where pre = "[]"]
  by (metis holds_text_split append_Nil holds_text_def list.size(3))

lemma holds_text_start: "0 < n \<Longrightarrow> n \<le> length buf \<Longrightarrow> \<exists>buf'. mem_write buf 0 [NUL] = Some buf' \<and> holds_text buf' n []"
  by (cases buf) (auto simp: mem_write_def holds_text_def)

lemma snprintf_holds:
  assumes "holds_text buf n pre" and "NUL \<notin> set t" and "length t \<le> 2147483647"
  obtains buf' where "snprintf buf (length pre) (n - length pre) t = Some (int (length t), buf')"
    and "holds_text buf' n (take (n - 1) (pre @ t))"
proof -
  let ?s = "take (n - length pre - 1) t" and ?rest = "drop (Suc (length pre)) buf"
  have n: "length pre < n" "n \<le> length buf" "NUL \<notin> set pre" using assms(1) by (auto simp: holds_text_def)
  have buf: "buf = pre @ NUL # ?rest" using holds_text_split [OF assms(1)] .
  have fits: "length (?s @ [NUL]) \<le> length (NUL # ?rest)" using n by (simp add: min_def) linarith
  have w: "mem_write buf (length pre) (?s @ [NUL]) = Some (pre @ (?s @ [NUL]) @ drop (length (?s @ [NUL])) (NUL # ?rest))"
    using mem_write_append [OF fits refl, of pre] buf by simp
  let ?buf = "pre @ (?s @ [NUL]) @ drop (length (?s @ [NUL])) (NUL # ?rest)"
  have tk: "take (n - 1) (pre @ t) = pre @ ?s" using n by simp
  have len: "length ?buf = length buf" using length_mem_write [OF w] .
  have "length (pre @ ?s) < n" using n by (simp add: min_def) linarith
  moreover have "NUL \<notin> set (pre @ ?s)" using n(3) assms(2) by (auto dest: in_set_takeD)
  moreover have "take (Suc (length (pre @ ?s))) ?buf = (pre @ ?s) @ [NUL]"
  proof -
    have "take (Suc (length a)) ((a @ [c]) @ r) = a @ [c]" for a r :: string and c by simp
    from this [of "pre @ ?s"] show ?thesis by (simp only: append_assoc)
  qed
  ultimately have "holds_text ?buf n (take (n - 1) (pre @ t))"
    using n(2) len unfolding tk holds_text_def by simp
  moreover have "snprintf buf (length pre) (n - length pre) t = Some (int (length t), ?buf)"
    using n w assms(3) by (simp add: snprintf_def snprintf_result_def)
  ultimately show ?thesis using that by blast
qed

lemma holds_text_take: "holds_text buf n pre \<Longrightarrow> take (n - Suc 0) pre = pre"
  by (auto simp: holds_text_def)

lemma take_full: "n - length pre \<le> length t \<Longrightarrow> take (n - 1) (pre @ t) = take (n - 1) (pre @ t @ rest)"
  by simp

lemma wire_nameD: "wire_name s \<Longrightarrow> NUL \<notin> set s" "wire_name s \<Longrightarrow> length s < 256"
  by (simp_all add: wire_name_def)

end
