(* ===== verification/Network_Protocol.thy ===== *)
theory Network_Protocol
  imports Chat_Prelude
begin

text \<open>
  The wire codec of \<open>src/NetworkProtocol.h\<close>: opcodes and status codes, the \<open>ChatMessage\<close> struct,
  \<open>SerializeChatMessage\<close>, \<open>DeserializeChatMessage\<close> and the header accessors, byte for byte.
  The enums are unsigned 32-bit values, as gcc represents them, because a byte of the wire that is no
  enumerator is kept as it is.  \<open>Chat_GetLength\<close> promotes the two length bytes as signed \<open>char\<close>s.
  The lemmas show when decoding inverts encoding, which frames are accepted, and that neither
  function leaves its buffers.
\<close>

unbundle bit_operations_syntax

section \<open>Constants and the message struct\<close>

definition CHAT_HEADER_SIZE :: nat where "CHAT_HEADER_SIZE = 4"
definition CHAT_MAX_VALUE :: nat where "CHAT_MAX_VALUE = 256"
definition CHAT_MAX_TOTAL :: nat where "CHAT_MAX_TOTAL = CHAT_HEADER_SIZE + CHAT_MAX_VALUE"

type_synonym MessageOpcode = "32 word"
type_synonym ChatStatus = "32 word"

definition OPCODE_REGISTER :: MessageOpcode where "OPCODE_REGISTER = 0x01"
definition OPCODE_LOGIN :: MessageOpcode where "OPCODE_LOGIN = 0x02"
definition OPCODE_LOGOUT :: MessageOpcode where "OPCODE_LOGOUT = 0x03"
definition OPCODE_EXIT :: MessageOpcode where "OPCODE_EXIT = 0x04"
definition OPCODE_CREATE_GROUP :: MessageOpcode where "OPCODE_CREATE_GROUP = 0x05"
definition OPCODE_JOIN_GROUP :: MessageOpcode where "OPCODE_JOIN_GROUP = 0x06"
definition OPCODE_LEAVE_GROUP :: MessageOpcode where "OPCODE_LEAVE_GROUP = 0x07"
definition OPCODE_LIST_USERS :: MessageOpcode where "OPCODE_LIST_USERS = 0x08"
definition OPCODE_LIST_GROUPS :: MessageOpcode where "OPCODE_LIST_GROUPS = 0x09"
definition OPCODE_RESPONSE :: MessageOpcode where "OPCODE_RESPONSE = 0x81"

definition CHAT_OK :: ChatStatus where "CHAT_OK = 0"
definition CHAT_ERR_GENERIC :: ChatStatus where "CHAT_ERR_GENERIC = 1"
definition CHAT_ERR_BAD_CREDS :: ChatStatus where "CHAT_ERR_BAD_CREDS = 2"
definition CHAT_ERR_NAME_TAKEN :: ChatStatus where "CHAT_ERR_NAME_TAKEN = 3"
definition CHAT_ERR_NOT_FOUND :: ChatStatus where "CHAT_ERR_NOT_FOUND = 4"
definition CHAT_ERR_ALREADY_IN :: ChatStatus where "CHAT_ERR_ALREADY_IN = 5"
definition CHAT_ERR_NOT_IN :: ChatStatus where "CHAT_ERR_NOT_IN = 6"
definition CHAT_ERR_NOT_LOGGED_IN :: ChatStatus where "CHAT_ERR_NOT_LOGGED_IN = 7"
definition CHAT_ERR_ALREADY_LOGGED_IN :: ChatStatus where "CHAT_ERR_ALREADY_LOGGED_IN = 8"
definition CHAT_ERR_NOT_IN_GROUP :: ChatStatus where "CHAT_ERR_NOT_IN_GROUP = 9"
definition CHAT_ERR_MALFORMED :: ChatStatus where "CHAT_ERR_MALFORMED = 9"
definition CHAT_ERR_NULL_PTR :: ChatStatus where "CHAT_ERR_NULL_PTR = 10"
definition CHAT_ERR_ALLOCATION_FAILED :: ChatStatus where "CHAT_ERR_ALLOCATION_FAILED = 11"

lemmas opcode_defs = OPCODE_REGISTER_def OPCODE_LOGIN_def OPCODE_LOGOUT_def OPCODE_EXIT_def
  OPCODE_CREATE_GROUP_def OPCODE_JOIN_GROUP_def OPCODE_LEAVE_GROUP_def OPCODE_LIST_USERS_def
  OPCODE_LIST_GROUPS_def OPCODE_RESPONSE_def

lemmas status_defs = CHAT_OK_def CHAT_ERR_GENERIC_def CHAT_ERR_BAD_CREDS_def
  CHAT_ERR_NAME_TAKEN_def CHAT_ERR_NOT_FOUND_def CHAT_ERR_ALREADY_IN_def CHAT_ERR_NOT_IN_def
  CHAT_ERR_NOT_LOGGED_IN_def CHAT_ERR_ALREADY_LOGGED_IN_def CHAT_ERR_NOT_IN_GROUP_def
  CHAT_ERR_MALFORMED_def CHAT_ERR_NULL_PTR_def CHAT_ERR_ALLOCATION_FAILED_def

lemmas size_defs = CHAT_HEADER_SIZE_def CHAT_MAX_VALUE_def CHAT_MAX_TOTAL_def

record ChatMessage =
  m_opcode :: MessageOpcode
  m_length :: "16 word"
  m_status :: ChatStatus
  m_value :: string

text \<open>The struct's value array holds exactly \<open>CHAT_MAX_VALUE\<close> bytes.\<close>

definition msg_ok :: "ChatMessage \<Rightarrow> bool" where
  "msg_ok msg \<longleftrightarrow> length (m_value msg) = CHAT_MAX_VALUE"

section \<open>Header accessors\<close>

text \<open>\<open>(char)x\<close> keeps the low eight bits.\<close>

definition char_of_word :: "'a::len word \<Rightarrow> char" where
  "char_of_word w = char_of (unat w)"

definition Chat_GetOpcode :: "string \<Rightarrow> MessageOpcode" where
  "Chat_GetOpcode buf = of_nat (of_char (buf ! 0))"

definition Chat_GetLength :: "string \<Rightarrow> 16 word" where
  "Chat_GetLength buf = word_of_int (schar (buf ! 1) OR (push_bit 8 (schar (buf ! 2))))"

text \<open>A pointer into the buffer: the bytes from there on.\<close>

definition Chat_GetValue :: "string \<Rightarrow> string" where
  "Chat_GetValue buf = drop CHAT_HEADER_SIZE buf"

definition Chat_GetStatus :: "string \<Rightarrow> ChatStatus" where
  "Chat_GetStatus buf = of_int (schar (buf ! 3))"

definition Chat_Validate :: "nat \<Rightarrow> nat \<Rightarrow> ChatStatus" where
  "Chat_Validate buf_size value_len =
     (if value_len > CHAT_MAX_VALUE then CHAT_ERR_MALFORMED
      else if buf_size < CHAT_HEADER_SIZE + value_len then CHAT_ERR_MALFORMED
      else CHAT_OK)"

section \<open>Decoding and encoding\<close>

text \<open>
  The buffer is \<^term>\<open>None\<close> for \<open>NULL\<close>; its size argument is separate, as in C, and reads are checked
  against the buffer itself.  The output struct is passed in and returned, so the bytes of its value
  array that the call does not write keep their old (possibly indeterminate) contents.
\<close>

definition DeserializeChatMessage ::
  "string option \<Rightarrow> nat \<Rightarrow> ChatMessage option \<Rightarrow> (ChatStatus \<times> ChatMessage option) option" where
  "DeserializeChatMessage buf_ptr buf_size out_ptr =
     (case (buf_ptr, out_ptr) of
        (Some buf, Some out) \<Rightarrow>
          if buf_size < CHAT_HEADER_SIZE then Some (CHAT_ERR_MALFORMED, Some out)
          else if length buf < CHAT_HEADER_SIZE then None
          else
            let opcode = Chat_GetOpcode buf;
                value_len = Chat_GetLength buf;
                status = Chat_GetStatus buf;
                validate_status = Chat_Validate buf_size (unat value_len)
            in if validate_status \<noteq> CHAT_OK then Some (validate_status, Some out)
               else do {
                 bytes \<leftarrow> mem_read buf CHAT_HEADER_SIZE (unat value_len);
                 value \<leftarrow> mem_write (m_value out) 0 bytes;
                 Some (CHAT_OK, Some \<lparr>m_opcode = opcode, m_length = value_len,
                                     m_status = status, m_value = value\<rparr>)
               }
      | _ \<Rightarrow> Some (CHAT_ERR_NULL_PTR, out_ptr))"

definition SerializeChatMessage ::
  "ChatMessage option \<Rightarrow> string option \<Rightarrow> nat \<Rightarrow> (int \<times> string option) option" where
  "SerializeChatMessage msg_ptr buf_ptr buf_size =
     (case (msg_ptr, buf_ptr) of
        (Some msg, Some buf) \<Rightarrow>
          let total = CHAT_HEADER_SIZE + unat (m_length msg)
          in if buf_size < total then Some (- 1, Some buf)
             else do {
               buf1 \<leftarrow> mem_write buf 0
                         [char_of_word (m_opcode msg),
                          char_of_word (m_length msg AND 0xFF),
                          char_of_word (drop_bit 8 (m_length msg)),
                          char_of_word (m_status msg)];
               bytes \<leftarrow> mem_read (m_value msg) 0 (unat (m_length msg));
               buf2 \<leftarrow> mem_write buf1 CHAT_HEADER_SIZE bytes;
               Some (int total, Some buf2)
             }
      | _ \<Rightarrow> Some (- 1, buf_ptr))"

text \<open>The frame of a message: the bytes \<open>SerializeChatMessage\<close> produces.\<close>

definition frame :: "MessageOpcode \<Rightarrow> ChatStatus \<Rightarrow> string \<Rightarrow> string" where
  "frame opcode status payload =
     [char_of_word opcode, char_of (length payload), char_of (length payload div 256),
      char_of_word status] @ payload"

section \<open>Lemmas\<close>

text \<open>A negative \<open>char\<close> absorbs whatever is shifted above it.\<close>

lemma div_pow2_negative:
  fixes x :: int
  assumes "- (2 ^ n) \<le> x" and "x < 0"
  shows "x div 2 ^ n = - 1"
  using assms by (intro int_div_pos_eq [where r = "x + 2 ^ n"]) auto

lemma or_push_bit_absorb:
  fixes x y :: int
  assumes "- 256 \<le> x" and "x < 0"
  shows "x OR push_bit 8 y = x"
proof (rule bit_eqI)
  fix n :: nat
  have "bit x n" if "8 \<le> n"
  proof -
    have "(2::int) ^ 8 \<le> 2 ^ n" using that by (intro power_increasing) auto
    then have "x div 2 ^ n = - 1" using assms by (intro div_pow2_negative) auto
    then show ?thesis by (simp add: bit_iff_odd)
  qed
  then show "bit (x OR push_bit 8 y) n = bit x n"
    by (auto simp: bit_or_iff bit_push_bit_iff)
qed

lemma or_push_bit_add:
  fixes x y :: int
  assumes "0 \<le> x" and "x < 256"
  shows "x OR push_bit 8 y = x + 256 * y"
proof -
  have "\<not> bit x n \<or> \<not> bit (push_bit 8 y) n" for n
  proof (cases "n < 8")
    case True
    then show ?thesis by (simp add: bit_push_bit_iff)
  next
    case False
    then have "(2::int) ^ 8 \<le> 2 ^ n" by (intro power_increasing) auto
    then have "x div 2 ^ n = 0" using assms by (intro div_pos_pos_trivial) auto
    then show ?thesis by (simp add: bit_iff_odd)
  qed
  then have "x OR push_bit 8 y = x + push_bit 8 y" by (simp add: disjunctive_add)
  then show ?thesis by (simp add: push_bit_eq_mult)
qed

text \<open>
  What \<open>Chat_GetLength\<close> computes: the little-endian length when the low byte is below 0x80, and
  0xFF00 plus the low byte otherwise, whatever the high byte is.
\<close>

lemma unat_word16: "n < 65536 \<Longrightarrow> unat (word_of_nat n :: 16 word) = n"
  by (simp add: unat_of_nat take_bit_eq_mod)

lemma signed_length_bytes:
  "unat (word_of_int (schar lo OR push_bit 8 (schar hi)) :: 16 word) =
     (if (of_char lo :: nat) < 128 then of_char lo + 256 * of_char hi else 65280 + of_char lo)"
proof (cases "(of_char lo :: nat) < 128")
  case True
  have "schar lo OR push_bit 8 (schar hi) = schar lo + 256 * schar hi"
    using True by (intro or_push_bit_add) (auto simp: schar_def)
  then have "(word_of_int (schar lo OR push_bit 8 (schar hi)) :: 16 word)
      = word_of_nat (of_char lo + 256 * of_char hi)"
    using True by (auto simp: schar_def [of lo] schar_def [of hi] right_diff_distrib)
  moreover have "of_char lo + 256 * of_char hi < (65536 :: nat)"
    using True of_char_nat_less [of hi] by linarith
  ultimately show ?thesis using True unat_word16 by presburger
next
  case False
  have "schar lo OR push_bit 8 (schar hi) = schar lo"
    using False of_char_nat_less [of lo]
    by (intro or_push_bit_absorb) (auto simp: schar_def simp del: of_char_nat_less)
  moreover have "(word_of_int (int (of_char lo) - 256) :: 16 word) = word_of_nat (65280 + of_char lo)"
    by simp
  moreover have "65280 + of_char lo < (65536 :: nat)"
    using of_char_nat_less [of lo] by linarith
  moreover have "schar lo = int (of_char lo) - 256" using False by (simp add: schar_def)
  ultimately have "unat (word_of_int (schar lo OR push_bit 8 (schar hi)) :: 16 word) = 65280 + of_char lo"
    using unat_word16 [of "65280 + of_char lo"] by (simp only:)
  then show ?thesis using False by (simp only: if_False)
qed

lemma Chat_GetLength_eq:
  "unat (Chat_GetLength buf) =
     (if (of_char (buf ! 1) :: nat) < 128 then of_char (buf ! 1) + 256 * of_char (buf ! 2)
      else 65280 + of_char (buf ! 1))"
  unfolding Chat_GetLength_def by (rule signed_length_bytes)

lemma char_of_word_low: "char_of_word (w AND 0xFF) = char_of (unat w)" for w :: "16 word"
proof -
  have "w AND 0xFF = take_bit 8 w" by (simp only: take_bit_eq_mask) (simp add: mask_eq_exp_minus_1)
  then have "unat (w AND 0xFF) = take_bit 8 (unat w)"
    by (simp only: unsigned_take_bit_eq)
  then show ?thesis by (simp add: char_of_word_def take_bit_eq_mod)
qed

lemma char_of_word_high: "char_of_word (drop_bit 8 w) = char_of (unat w div 256)" for w :: "16 word"
proof -
  have "unat w < 2 ^ 16" using unsigned_less [of w] by simp
  then have "unat (drop_bit 8 w) = drop_bit 8 (unat w)"
    using take_bit_nat_eq_self [of "unat w" 16] by (simp only: unsigned_drop_bit_eq) simp
  then show ?thesis by (simp only: char_of_word_def) (simp add: drop_bit_eq_div)
qed

lemma length_frame [simp]: "length (frame opcode status payload) = CHAT_HEADER_SIZE + length payload"
  by (simp add: frame_def size_defs)

text \<open>\<open>SerializeChatMessage\<close> writes the frame of the message and nothing else.\<close>

lemma SerializeChatMessage_frame:
  assumes "msg_ok msg" and "unat (m_length msg) \<le> CHAT_MAX_VALUE"
    and "CHAT_HEADER_SIZE + unat (m_length msg) \<le> n" and "n \<le> length buf"
  shows "SerializeChatMessage (Some msg) (Some buf) n =
    Some (int (CHAT_HEADER_SIZE + unat (m_length msg)),
          Some (frame (m_opcode msg) (m_status msg) (take (unat (m_length msg)) (m_value msg))
                @ drop (CHAT_HEADER_SIZE + unat (m_length msg)) buf))"
proof -
  let ?n = "unat (m_length msg)" and ?hdr = "[char_of_word (m_opcode msg),
      char_of_word (m_length msg AND 0xFF), char_of_word (drop_bit 8 (m_length msg)),
      char_of_word (m_status msg)]"
  have l: "length (take ?n (m_value msg)) = ?n" using assms by (simp add: msg_ok_def)
  have w1: "mem_write buf 0 ?hdr = Some (?hdr @ drop 4 buf)"
    using assms mem_write_start [of ?hdr buf] by (simp add: size_defs numeral_eq_Suc)
  have r: "mem_read (m_value msg) 0 ?n = Some (take ?n (m_value msg))"
    using assms by (simp add: mem_read_def msg_ok_def)
  have w2: "mem_write (?hdr @ drop 4 buf) 4 (take ?n (m_value msg))
      = Some (?hdr @ take ?n (m_value msg) @ drop (4 + ?n) buf)"
    using assms l mem_write_append [of "take ?n (m_value msg)" "drop 4 buf" 4 ?hdr]
    by (simp add: size_defs add.commute)
  have "frame (m_opcode msg) (m_status msg) (take ?n (m_value msg)) = ?hdr @ take ?n (m_value msg)"
    using l by (simp only: frame_def char_of_word_low char_of_word_high append.simps)
  then show ?thesis
    using assms(3) w1 r w2
    by (simp add: SerializeChatMessage_def CHAT_HEADER_SIZE_def Let_def del: append_Cons)
qed

lemma frame_bytes:
  "frame opcode status payload ! 0 = char_of_word opcode"
  "frame opcode status payload ! 1 = char_of (length payload)"
  "frame opcode status payload ! 2 = char_of (length payload div 256)"
  "frame opcode status payload ! 3 = char_of_word status"
  by (simp_all add: frame_def)

lemma nth_frame_append: "i < 4 \<Longrightarrow> (frame opcode status payload @ rest) ! i = frame opcode status payload ! i"
  by (simp add: nth_append size_defs)

lemma Chat_GetOpcode_frame: "opcode < 256 \<Longrightarrow> Chat_GetOpcode (frame opcode status payload @ rest) = opcode"
proof -
  assume "opcode < 256"
  then have "unat opcode mod 256 = unat opcode" by (simp add: word_less_nat_alt)
  then show ?thesis
    by (simp add: Chat_GetOpcode_def nth_frame_append frame_bytes char_of_word_def of_char_of)
qed

lemma Chat_GetStatus_frame: "status < 128 \<Longrightarrow> Chat_GetStatus (frame opcode status payload @ rest) = status"
proof -
  assume "status < 128"
  then have "unat status < 128" by (simp add: word_less_nat_alt)
  then show ?thesis
    by (simp add: Chat_GetStatus_def nth_frame_append frame_bytes char_of_word_def schar_def of_char_of)
qed

lemma Chat_GetLength_frame:
  assumes "length payload \<le> CHAT_MAX_VALUE"
  shows "unat (Chat_GetLength (frame opcode status payload @ rest)) =
    (if length payload mod 256 < 128 then length payload else 65280 + length payload mod 256)"
proof -
  have "length payload mod 256 + 256 * (length payload div 256 mod 256) = length payload"
    using assms by (simp add: size_defs)
  then show ?thesis
    by (simp add: Chat_GetLength_eq nth_frame_append frame_bytes [simplified] of_char_of)
qed

text \<open>
  Decoding a frame: it is accepted exactly when the low byte of its length is below 0x80, and then
  all header fields and all payload bytes come back.
\<close>

lemma DeserializeChatMessage_frame:
  assumes "length payload \<le> CHAT_MAX_VALUE" and "opcode < 256" and "status < 128"
    and "CHAT_HEADER_SIZE + length payload \<le> n"
    and "n \<le> length (frame opcode status payload @ rest)" and "msg_ok out"
  shows "DeserializeChatMessage (Some (frame opcode status payload @ rest)) n (Some out) =
    (if length payload mod 256 < 128
     then Some (CHAT_OK, Some \<lparr>m_opcode = opcode, m_length = of_nat (length payload),
             m_status = status, m_value = payload @ drop (length payload) (m_value out)\<rparr>)
     else Some (CHAT_ERR_MALFORMED, Some out))"
proof -
  let ?buf = "frame opcode status payload @ rest"
  note len = Chat_GetLength_frame [OF assms(1), of opcode status rest]
  have h: "\<not> n < CHAT_HEADER_SIZE" "\<not> length ?buf < CHAT_HEADER_SIZE" using assms(4) by simp_all
  show ?thesis
  proof (cases "length payload mod 256 < 128")
    case True
    with len have u: "unat (Chat_GetLength ?buf) = length payload" by simp
    then have g: "Chat_GetLength ?buf = of_nat (length payload)" by (metis of_nat_unat ucast_id)
    have v: "Chat_Validate n (length payload) = CHAT_OK"
      using assms(1,4) by (simp add: Chat_Validate_def)
    have r: "mem_read ?buf CHAT_HEADER_SIZE (length payload) = Some payload"
      unfolding frame_def append_assoc by (rule mem_read_append) (simp_all add: size_defs)
    have w: "mem_write (m_value out) 0 payload = Some (payload @ drop (length payload) (m_value out))"
      using assms(1,6) by (intro mem_write_start) (simp add: msg_ok_def)
    show ?thesis using True h u v r w
      by (simp add: DeserializeChatMessage_def Let_def Chat_GetOpcode_frame Chat_GetStatus_frame assms g)
  next
    case False
    with len have "unat (Chat_GetLength ?buf) > CHAT_MAX_VALUE" by (simp add: size_defs)
    then have "Chat_Validate n (unat (Chat_GetLength ?buf)) = CHAT_ERR_MALFORMED"
      by (simp add: Chat_Validate_def)
    with False h show ?thesis
      by (simp add: DeserializeChatMessage_def Let_def status_defs)
  qed
qed

text \<open>
  Decoding is total on any bytes that were received: it never leaves the buffer or the value array,
  and an accepted length fits the array.
\<close>

lemma DeserializeChatMessage_total:
  assumes "n \<le> length buf" and "msg_ok out"
  obtains st msg where "DeserializeChatMessage (Some buf) n (Some out) = Some (st, Some msg)"
    and "msg_ok msg" and "st = CHAT_OK \<Longrightarrow> unat (m_length msg) \<le> CHAT_MAX_VALUE"
    and "st \<noteq> CHAT_OK \<Longrightarrow> msg = out"
proof (cases "n < CHAT_HEADER_SIZE \<or> Chat_Validate n (unat (Chat_GetLength buf)) \<noteq> CHAT_OK")
  case True
  then show ?thesis using assms that [of CHAT_ERR_MALFORMED out]
      that [of "Chat_Validate n (unat (Chat_GetLength buf))" out]
    by (cases "n < CHAT_HEADER_SIZE") (auto simp: DeserializeChatMessage_def Let_def status_defs)
next
  case False
  let ?k = "unat (Chat_GetLength buf)"
  from False have k: "CHAT_HEADER_SIZE + ?k \<le> n" "?k \<le> CHAT_MAX_VALUE"
    by (auto simp: Chat_Validate_def status_defs split: if_splits)
  have r: "mem_read buf CHAT_HEADER_SIZE ?k = Some (take ?k (drop CHAT_HEADER_SIZE buf))"
    using k assms(1) by (simp add: mem_read_def)
  let ?bytes = "take ?k (drop CHAT_HEADER_SIZE buf)"
  have len: "length ?bytes = ?k" using k assms(1) by simp
  then have w: "mem_write (m_value out) 0 ?bytes = Some (?bytes @ drop ?k (m_value out))"
    using k assms(2) mem_write_start [of ?bytes "m_value out"] by (simp add: msg_ok_def)
  let ?msg = "\<lparr>m_opcode = Chat_GetOpcode buf, m_length = Chat_GetLength buf, m_status = Chat_GetStatus buf,
      m_value = ?bytes @ drop ?k (m_value out)\<rparr>"
  show ?thesis
  proof (rule that [of CHAT_OK ?msg])
    show "DeserializeChatMessage (Some buf) n (Some out) = Some (CHAT_OK, Some ?msg)"
      using False assms(1) r w by (simp add: DeserializeChatMessage_def Let_def)
    show "msg_ok ?msg" using k assms(2) length_mem_write [OF w] by (simp add: msg_ok_def)
  qed (use k in auto)
qed

end
