(* ===== verification/Data_Structures_Api.thy ===== *)
theory Data_Structures_Api
  imports Chat_Prelude
begin

text \<open>
  The interface of the data-structures library (\<open>src/db/HashMap.h\<close>, \<open>src/db/gen_dlist.h\<close>).  The
  repository ships the library as the archive \<open>libDataStructures.a\<close> with its headers only, so it
  is a parameter of the model: a record with one field per function the sources call.  What the
  headers promise are the assumptions of the locales \<open>hash_map\<close> and \<open>dlist\<close>.

  \<^item> A function that allocates takes the outcome of its allocation as a Boolean.
  \<^item> \<open>HashMap_Ok\<close> and \<open>ListOk\<close> mark the initialised objects, the ones the library has produced.
  \<^item> \<open>HashMap_Items\<close> is the order in which \<open>HashMap_ForEach\<close> visits the pairs, \<open>ListItems\<close> the
    order in which \<open>ListItrBegin\<close>, \<open>ListItrNext\<close> and \<open>ListItrEnd\<close> walk a list.
  \<^item> \<open>HashMap_Find\<close> takes the value of \<open>*_pValue\<close> before the call and returns the one after it.
    The header says what is written when the key is found; that \<open>NULL\<close> is written when it is not
    found is what the callers in \<open>UserManager.c\<close> rely on (they test an otherwise uninitialised
    variable), and it is what the shipped archive does.
\<close>

section \<open>Hash maps\<close>

datatype MapResult =
    MAP_SUCCESS | MAP_UNINITIALIZED_ERROR | MAP_KEY_NULL_ERROR | MAP_NULL_PTR_ERROR
  | MAP_KEY_DUPLICATE_ERROR | MAP_KEY_NOT_FOUND_ERROR | MAP_ALLOCATION_ERROR

record ('m, 'k, 'v) HashMap_ops =
  HashMap_Create :: "bool \<Rightarrow> nat \<Rightarrow> ('k \<Rightarrow> 64 word) \<Rightarrow> ('k \<Rightarrow> 'k \<Rightarrow> bool) \<Rightarrow> 'm option"
  HashMap_Insert :: "bool \<Rightarrow> 'm \<Rightarrow> 'k \<Rightarrow> 'v \<Rightarrow> MapResult \<times> 'm"
  HashMap_Remove :: "'m \<Rightarrow> 'k \<Rightarrow> MapResult \<times> ('k \<times> 'v) option \<times> 'm"
  HashMap_Find :: "'m \<Rightarrow> 'k \<Rightarrow> 'v option \<Rightarrow> MapResult \<times> 'v option"
  HashMap_Size :: "'m \<Rightarrow> nat"
  HashMap_Items :: "'m \<Rightarrow> ('k \<times> 'v) list"
  HashMap_Ok :: "'m \<Rightarrow> bool"

text \<open>The finite map a hash map stands for.\<close>

definition hm_lookup :: "('m, 'k, 'v) HashMap_ops \<Rightarrow> 'm \<Rightarrow> 'k \<rightharpoonup> 'v" where
  "hm_lookup M m = map_of (HashMap_Items M m)"

text \<open>\<open>HashMap_ForEach\<close>: the action sees every pair in turn until it returns zero.\<close>

fun for_each :: "('k \<Rightarrow> 'v \<Rightarrow> 'c \<Rightarrow> (bool \<times> 'c) option) \<Rightarrow> ('k \<times> 'v) list \<Rightarrow> 'c \<Rightarrow> 'c option" where
  "for_each act [] ctx = Some ctx"
| "for_each act ((k, v) # kvs) ctx =
     (case act k v ctx of
        None \<Rightarrow> None
      | Some (go, ctx') \<Rightarrow> if go then for_each act kvs ctx' else Some ctx')"

definition HashMap_ForEach ::
  "('m, 'k, 'v) HashMap_ops \<Rightarrow> 'm \<Rightarrow> ('k \<Rightarrow> 'v \<Rightarrow> 'c \<Rightarrow> (bool \<times> 'c) option) \<Rightarrow> 'c \<Rightarrow> 'c option" where
  "HashMap_ForEach M m act ctx = for_each act (HashMap_Items M m) ctx"

text \<open>
  \<open>HashMap_Destroy\<close> calls the optional destructors on the key and the value of every pair.  What they
  do is described on a list of live memory blocks; a destructor gets the pair, since the key pointer of a pair
  may point into the object that is its value.
\<close>

definition free_block :: "'b \<Rightarrow> 'b list \<Rightarrow> 'b list option" where
  "free_block b live = (if b \<in> set live then Some (remove1 b live) else None)"

definition no_destructor :: "'k \<Rightarrow> 'v \<Rightarrow> 'b list \<Rightarrow> 'b list option" where
  "no_destructor k v live = Some live"

definition HashMap_Destroy ::
  "('m, 'k, 'v) HashMap_ops \<Rightarrow> 'm \<Rightarrow> ('k \<Rightarrow> 'v \<Rightarrow> 'b list \<Rightarrow> 'b list option)
     \<Rightarrow> ('k \<Rightarrow> 'v \<Rightarrow> 'b list \<Rightarrow> 'b list option) \<Rightarrow> 'b list \<Rightarrow> 'b list option" where
  "HashMap_Destroy M m keyDestroy valDestroy live =
     HashMap_ForEach M m
       (\<lambda>k v blocks. do { b1 \<leftarrow> keyDestroy k v blocks; b2 \<leftarrow> valDestroy k v b1; Some (True, b2) }) live"

locale hash_map =
  fixes M :: "('m, 'k, 'v) HashMap_ops"
  assumes create:
      "\<lbrakk>\<And>a b. eq a b \<longleftrightarrow> a = b\<rbrakk> \<Longrightarrow>
         \<exists>m. HashMap_Create M True n h eq = Some m \<and> HashMap_Ok M m \<and> HashMap_Items M m = []"
    and create_fail: "HashMap_Create M False n h eq = None"
    and items_distinct: "HashMap_Ok M m \<Longrightarrow> distinct (map fst (HashMap_Items M m))"
    and insert_dup:
      "HashMap_Ok M m \<Longrightarrow> hm_lookup M m k \<noteq> None \<Longrightarrow>
         HashMap_Insert M b m k v = (MAP_KEY_DUPLICATE_ERROR, m)"
    and insert_fail:
      "HashMap_Ok M m \<Longrightarrow> hm_lookup M m k = None \<Longrightarrow>
         HashMap_Insert M False m k v = (MAP_ALLOCATION_ERROR, m)"
    and insert_new:
      "HashMap_Ok M m \<Longrightarrow> hm_lookup M m k = None \<Longrightarrow>
         \<exists>m'. HashMap_Insert M True m k v = (MAP_SUCCESS, m') \<and> HashMap_Ok M m'
            \<and> hm_lookup M m' = (hm_lookup M m)(k \<mapsto> v)"
    and remove_miss:
      "HashMap_Ok M m \<Longrightarrow> hm_lookup M m k = None \<Longrightarrow>
         HashMap_Remove M m k = (MAP_KEY_NOT_FOUND_ERROR, None, m)"
    and remove_hit:
      "HashMap_Ok M m \<Longrightarrow> hm_lookup M m k = Some v \<Longrightarrow>
         \<exists>m'. HashMap_Remove M m k = (MAP_SUCCESS, Some (k, v), m') \<and> HashMap_Ok M m'
            \<and> hm_lookup M m' = (hm_lookup M m)(k := None)"
    and find_hit:
      "HashMap_Ok M m \<Longrightarrow> hm_lookup M m k = Some v \<Longrightarrow>
         HashMap_Find M m k old = (MAP_SUCCESS, Some v)"
    and find_miss:
      "HashMap_Ok M m \<Longrightarrow> hm_lookup M m k = None \<Longrightarrow>
         HashMap_Find M m k old = (MAP_KEY_NOT_FOUND_ERROR, None)"
    and size_items: "HashMap_Ok M m \<Longrightarrow> HashMap_Size M m = length (HashMap_Items M m)"
begin

lemma find_eq:
  "HashMap_Ok M m \<Longrightarrow> HashMap_Find M m k old =
     (case hm_lookup M m k of None \<Rightarrow> (MAP_KEY_NOT_FOUND_ERROR, None) | Some v \<Rightarrow> (MAP_SUCCESS, Some v))"
  by (simp add: find_hit find_miss split: option.split)

lemma size_card: "HashMap_Ok M m \<Longrightarrow> HashMap_Size M m = card (dom (hm_lookup M m))"
  by (simp add: size_items hm_lookup_def dom_map_of_conv_image_fst items_distinct
      distinct_card flip: set_map)

lemma finite_dom: "finite (dom (hm_lookup M m))"
  by (simp add: hm_lookup_def finite_dom_map_of)

lemma insert_cases:
  assumes "HashMap_Ok M m" and "HashMap_Insert M b m k v = (r, m')"
  obtains (dup) "hm_lookup M m k \<noteq> None" and "r = MAP_KEY_DUPLICATE_ERROR" and "m' = m"
    | (fail) "hm_lookup M m k = None" and "\<not> b" and "r = MAP_ALLOCATION_ERROR" and "m' = m"
    | (new) "hm_lookup M m k = None" and "b" and "r = MAP_SUCCESS" and "HashMap_Ok M m'"
        and "hm_lookup M m' = (hm_lookup M m)(k \<mapsto> v)"
  using assms insert_dup [of m k b v] insert_fail [of m k v] insert_new [of m k v]
  by (cases "hm_lookup M m k"; cases b) auto

lemma remove_cases:
  assumes "HashMap_Ok M m" and "HashMap_Remove M m k = (r, out, m')"
  obtains (miss) "hm_lookup M m k = None" and "r = MAP_KEY_NOT_FOUND_ERROR" and "out = None"
        and "m' = m"
    | (hit) v where "hm_lookup M m k = Some v" and "r = MAP_SUCCESS" and "out = Some (k, v)"
        and "HashMap_Ok M m'" and "hm_lookup M m' = (hm_lookup M m)(k := None)"
  using assms remove_miss [of m k] remove_hit [of m k] by (cases "hm_lookup M m k") auto

end

section \<open>Lists\<close>

text \<open>Only the functions \<open>User.c\<close> and \<open>TcpConnectionHandler.c\<close> call.\<close>

record ('l, 'i, 'a) List_ops =
  ListCreate :: "bool \<Rightarrow> 'l option"
  ListPushTail :: "bool \<Rightarrow> 'l \<Rightarrow> 'a \<Rightarrow> 'i option \<times> 'l"
  ListFind :: "'l \<Rightarrow> 'a \<Rightarrow> ('a \<Rightarrow> 'a \<Rightarrow> int) \<Rightarrow> 'i option"
  ListItrRemove :: "'l \<Rightarrow> 'i \<Rightarrow> 'a option \<times> 'l"
  ListSize :: "'l \<Rightarrow> nat"
  ListItems :: "'l \<Rightarrow> 'a list"
  ListOk :: "'l \<Rightarrow> bool"

locale dlist =
  fixes L :: "('l, 'i, 'a) List_ops"
  assumes list_create: "\<exists>l. ListCreate L True = Some l \<and> ListOk L l \<and> ListItems L l = []"
    and list_create_fail: "ListCreate L False = None"
    and push_ok:
      "ListOk L l \<Longrightarrow> \<exists>i l'. ListPushTail L True l x = (Some i, l') \<and> ListOk L l'
         \<and> ListItems L l' = ListItems L l @ [x]"
    and push_fail: "ListOk L l \<Longrightarrow> ListPushTail L False l x = (None, l)"
    and list_find_none:
      "ListOk L l \<Longrightarrow> ListFind L l x cmp = None \<longleftrightarrow> (\<forall>y \<in> set (ListItems L l). cmp x y \<noteq> 0)"
    and find_remove:
      "ListOk L l \<Longrightarrow> ListFind L l x cmp = Some i \<Longrightarrow>
         \<exists>ys y zs l'. ListItems L l = ys @ y # zs \<and> (\<forall>z \<in> set ys. cmp x z \<noteq> 0) \<and> cmp x y = 0
           \<and> ListItrRemove L l i = (Some y, l') \<and> ListOk L l' \<and> ListItems L l' = ys @ zs"
    and list_size: "ListOk L l \<Longrightarrow> ListSize L l = length (ListItems L l)"
begin

lemma push_items:
  assumes "ListOk L l"
  shows "ListOk L (snd (ListPushTail L b l x))"
    and "ListItems L (snd (ListPushTail L b l x)) = ListItems L l @ (if b then [x] else [])"
  using push_ok [OF assms, of x] push_fail [OF assms, of x] assms by (cases b; force)+

end

text \<open>
  The iterators \<open>TcpConnectionHandler.c\<close> walks with.  \<open>ListItrs\<close> is the sequence of iterators that
  \<open>ListItrBegin\<close> and \<open>ListItrNext\<close> pass through before \<open>ListItrEnd\<close>; removing the element under an
  iterator keeps the others valid.
\<close>

record ('l, 'i, 'a) List_walk =
  ListItrBegin :: "'l \<Rightarrow> 'i"
  ListItrEnd :: "'l \<Rightarrow> 'i"
  ListItrNext :: "'l \<Rightarrow> 'i \<Rightarrow> 'i"
  ListItrGet :: "'l \<Rightarrow> 'i \<Rightarrow> 'a option"
  ListItrs :: "'l \<Rightarrow> 'i list"

locale dlist_walk = dlist L
  for L :: "('l, 'i, 'a) List_ops" +
  fixes W :: "('l, 'i, 'a) List_walk"
  assumes itr_begin: "ListOk L l \<Longrightarrow> ListItrBegin W l = hd (ListItrs W l @ [ListItrEnd W l])"
    and itr_next: "ListOk L l \<Longrightarrow> ListItrs W l = is @ i # js \<Longrightarrow> ListItrNext W l i = hd (js @ [ListItrEnd W l])"
    and itr_distinct: "ListOk L l \<Longrightarrow> distinct (ListItrs W l) \<and> ListItrEnd W l \<notin> set (ListItrs W l)"
    and itr_get: "ListOk L l \<Longrightarrow> map (ListItrGet W l) (ListItrs W l) = map Some (ListItems L l)"
    and itr_remove:
      "ListOk L l \<Longrightarrow> ListItrs W l = is @ i # js \<Longrightarrow>
         \<exists>l'. ListItrRemove L l i = (ListItrGet W l i, l') \<and> ListOk L l' \<and> ListItrs W l' = is @ js
           \<and> ListItrEnd W l' = ListItrEnd W l \<and> (\<forall>j \<in> set (is @ js). ListItrGet W l' j = ListItrGet W l j)"
begin

lemma itr_get_item:
  assumes "ListOk L l" and "ListItrs W l = is @ i # js"
  obtains x where "ListItrGet W l i = Some x" and "ListItems L l = take (length is) (ListItems L l) @ x # drop (Suc (length is)) (ListItems L l)"
    and "length is < length (ListItems L l)"
proof -
  have m: "map (ListItrGet W l) is @ ListItrGet W l i # map (ListItrGet W l) js = map Some (ListItems L l)"
    using itr_get [OF assms(1)] assms(2) by simp
  then have len: "length is < length (ListItems L l)" by (metis add_Suc_right length_append length_Cons length_map less_add_Suc1)
  then have "ListItrGet W l i = Some (ListItems L l ! length is)"
    using m by (metis length_map nth_append_length nth_map)
  then show ?thesis using that len id_take_nth_drop [OF len] by blast
qed

lemma itr_remove_items:
  assumes "ListOk L l" and "ListItrs W l = is @ i # js"
  obtains x l' where "ListItrGet W l i = Some x" and "ListItrRemove L l i = (Some x, l')" and "ListOk L l'"
    and "ListItrs W l' = is @ js" and "ListItrEnd W l' = ListItrEnd W l"
    and "\<forall>j \<in> set js. ListItrGet W l' j = ListItrGet W l j"
    and "ListItems L l' = take (length is) (ListItems L l) @ drop (Suc (length is)) (ListItems L l)"
    and "ListItems L l = take (length is) (ListItems L l) @ x # drop (Suc (length is)) (ListItems L l)"
proof -
  obtain x where x: "ListItrGet W l i = Some x"
      "ListItems L l = take (length is) (ListItems L l) @ x # drop (Suc (length is)) (ListItems L l)"
      "length is < length (ListItems L l)"
    using itr_get_item [OF assms] .
  obtain l' where l': "ListItrRemove L l i = (ListItrGet W l i, l')" "ListOk L l'" "ListItrs W l' = is @ js"
      "ListItrEnd W l' = ListItrEnd W l" "\<forall>j \<in> set (is @ js). ListItrGet W l' j = ListItrGet W l j"
    using itr_remove [OF assms] by blast
  have m: "map (ListItrGet W l) is @ ListItrGet W l i # map (ListItrGet W l) js = map Some (ListItems L l)"
    using itr_get [OF assms(1)] assms(2) by simp
  have "map (ListItrGet W l') (is @ js) = map (ListItrGet W l) (is @ js)"
    using l'(5) by (intro map_cong) auto
  then have "map Some (ListItems L l') = map (ListItrGet W l) is @ map (ListItrGet W l) js"
    using itr_get [OF l'(2)] unfolding l'(3) by (metis map_append)
  also have "\<dots> = take (length is) (map Some (ListItems L l)) @ drop (Suc (length is)) (map Some (ListItems L l))"
    unfolding m [symmetric] by simp
  finally have "map Some (ListItems L l') = map Some (take (length is) (ListItems L l) @ drop (Suc (length is)) (ListItems L l))"
    by (simp add: take_map drop_map)
  then have "ListItems L l' = take (length is) (ListItems L l) @ drop (Suc (length is)) (ListItems L l)"
    by (metis inj_Some inj_map_eq_map)
  then show ?thesis using that x l' by auto
qed

end

end
