(* ===== verification/Network_Utils.thy ===== *)
theory Network_Utils
  imports Chat_Prelude
begin

text \<open>
  \<open>src/utils/network_utils.c\<close>: address conversion and string duplication, with the two libc
  functions it wraps, \<open>inet_pton\<close> and \<open>inet_ntop\<close>.  An address is a \<open>uint32_t\<close> in
  network byte order: the little-endian host's reading of the four address bytes.
  The lemmas show that printing an address and parsing it again is the identity.
\<close>

section \<open>Addresses\<close>

definition is_digit :: "char \<Rightarrow> bool" where
  "is_digit c \<longleftrightarrow> 48 \<le> (of_char c :: nat) \<and> (of_char c :: nat) \<le> 57"

definition digit_value :: "char \<Rightarrow> nat" where
  "digit_value c = of_char c - 48"

text \<open>
  The loop of \<open>inet_pton\<close> for IPv4: the finished octets and the current one (\<^term>\<open>None\<close> before its
  first digit).  A leading zero, a value above 255 and a fifth octet are rejected.
\<close>

fun inet_pton4_loop :: "string \<Rightarrow> nat list \<Rightarrow> nat option \<Rightarrow> nat list option" where
  "inet_pton4_loop [] octets cur =
     (case cur of
        None \<Rightarrow> None
      | Some v \<Rightarrow> if length octets = 3 then Some (octets @ [v]) else None)"
| "inet_pton4_loop (c # cs) octets cur =
     (if is_digit c then
        (case cur of
           None \<Rightarrow> if length octets = 4 then None
                   else inet_pton4_loop cs octets (Some (digit_value c))
         | Some v \<Rightarrow>
             if v = 0 then None
             else if v * 10 + digit_value c > 255 then None
             else inet_pton4_loop cs octets (Some (v * 10 + digit_value c)))
      else if c = CHR ''.'' then
        (case cur of
           None \<Rightarrow> None
         | Some v \<Rightarrow> if length octets = 3 then None else inet_pton4_loop cs (octets @ [v]) None)
      else None)"

definition inet_pton4 :: "string \<Rightarrow> nat list option" where
  "inet_pton4 s = inet_pton4_loop s [] None"

text \<open>The bytes of an address as they lie in memory, and the host's view of them.\<close>

definition addr_of_bytes :: "nat list \<Rightarrow> 32 word" where
  "addr_of_bytes bs = of_nat (bs ! 0 + 256 * bs ! 1 + 65536 * bs ! 2 + 16777216 * bs ! 3)"

definition addr_bytes :: "32 word \<Rightarrow> nat list" where
  "addr_bytes a =
     [unat a mod 256, unat a div 256 mod 256, unat a div 65536 mod 256, unat a div 16777216]"

text \<open>The byte order of a port in a socket address.\<close>

definition htons :: "16 word \<Rightarrow> 16 word" where
  "htons w = push_bit 8 w + drop_bit 8 w"

text \<open>The text \<open>inet_ntop\<close> prints; it fails when the text and its terminator exceed the given size.\<close>

definition ip_text :: "32 word \<Rightarrow> string" where
  "ip_text addr =
     (let b = addr_bytes addr
      in decimal (b ! 0) @ ''.'' @ decimal (b ! 1) @ ''.'' @ decimal (b ! 2) @ ''.'' @ decimal (b ! 3))"

definition inet_ntop4 :: "32 word \<Rightarrow> nat \<Rightarrow> string option" where
  "inet_ntop4 addr n = (if length (ip_text addr) < n then Some (ip_text addr) else None)"

text \<open>
  Whether the result is the buffer and not \<open>NULL\<close>, and the buffer afterwards.  The failing assertion on a \<open>NULL\<close>
  buffer ends the process: \<^term>\<open>None\<close>.
\<close>

definition INET_ADDRSTRLEN :: nat where "INET_ADDRSTRLEN = 16"

definition network_convert_ip_n_to_p :: "32 word \<Rightarrow> string option \<Rightarrow> (bool \<times> string) option" where
  "network_convert_ip_n_to_p a_ip_addr a_output_buffer = do {
     buf \<leftarrow> a_output_buffer;
     (case inet_ntop4 a_ip_addr INET_ADDRSTRLEN of
        None \<Rightarrow> do { buf' \<leftarrow> mem_write buf 0 [NUL]; Some (False, buf') }
      | Some txt \<Rightarrow> do { buf' \<leftarrow> mem_write buf 0 (txt @ [NUL]); Some (True, buf') })
   }"

definition network_convert_ip_p_to_n :: "string option \<Rightarrow> 32 word" where
  "network_convert_ip_p_to_n a_ip_addr =
     (case a_ip_addr of
        None \<Rightarrow> 0
      | Some s \<Rightarrow> (case inet_pton4 s of None \<Rightarrow> 0 | Some bs \<Rightarrow> addr_of_bytes bs))"

text \<open>
  \<open>inet_pton\<close> for IPv6, as a test: the text from the current token on, the number of hexadecimal digits
  seen in it, the number of bytes written, and whether \<open>::\<close> was met.  An IPv4 tail stands for four bytes.
\<close>

definition is_xdigit :: "char \<Rightarrow> bool" where
  "is_xdigit c \<longleftrightarrow> is_digit c \<or> 65 \<le> (of_char c :: nat) \<and> (of_char c :: nat) \<le> 70
     \<or> 97 \<le> (of_char c :: nat) \<and> (of_char c :: nat) \<le> 102"

definition inet_pton6_end :: "nat \<Rightarrow> nat \<Rightarrow> bool \<Rightarrow> bool" where
  "inet_pton6_end xdigits tp colon =
     (let tp' = (if xdigits > 0 then tp + 2 else tp)
      in tp' \<le> 16 \<and> (if colon then tp' < 16 else tp' = 16))"

fun inet_pton6_loop :: "string \<Rightarrow> string \<Rightarrow> nat \<Rightarrow> nat \<Rightarrow> bool \<Rightarrow> bool" where
  "inet_pton6_loop [] curtok xdigits tp colon = inet_pton6_end xdigits tp colon"
| "inet_pton6_loop (c # cs) curtok xdigits tp colon =
     (if is_xdigit c then xdigits < 4 \<and> inet_pton6_loop cs curtok (xdigits + 1) tp colon
      else if c = CHR '':'' then
        (if xdigits = 0 then \<not> colon \<and> inet_pton6_loop cs cs 0 tp True
         else cs \<noteq> [] \<and> tp + 2 \<le> 16 \<and> inet_pton6_loop cs cs 0 (tp + 2) colon)
      else c = CHR ''.'' \<and> tp + 4 \<le> 16 \<and> inet_pton4 curtok \<noteq> None \<and> inet_pton6_end 0 (tp + 4) colon)"

definition inet_pton6 :: "string \<Rightarrow> bool" where
  "inet_pton6 s =
     (case s of
        [] \<Rightarrow> False
      | c # cs \<Rightarrow>
          if c = CHR '':'' then cs \<noteq> [] \<and> hd cs = CHR '':'' \<and> inet_pton6_loop cs cs 0 0 False
          else inet_pton6_loop s s 0 0 False)"

definition is_valid_ip_address :: "string option \<Rightarrow> bool" where
  "is_valid_ip_address ip_str =
     (case ip_str of None \<Rightarrow> False | Some s \<Rightarrow> inet_pton4 s \<noteq> None \<or> inet_pton6 s)"

section \<open>String duplication\<close>

text \<open>\<open>networkCopyString\<close> and \<open>strdup\<close>, given the outcome of their \<open>malloc\<close>.\<close>

definition networkCopyString :: "bool \<Rightarrow> string \<Rightarrow> string option" where
  "networkCopyString ok a_string = (if ok then Some a_string else None)"

section \<open>Lemmas\<close>

lemma digit_char [simp]:
  assumes "d < 10"
  shows "is_digit (char_of (48 + d))" and "digit_value (char_of (48 + d)) = d"
  using assms by (simp_all add: is_digit_def digit_value_def of_char_of)

lemma decimal_digits: "\<forall>c \<in> set (decimal n). is_digit c"
proof (induction n rule: decimal.induct)
  case (1 n)
  then show ?case by (subst decimal.simps) auto
qed

lemma decimal_nonempty [simp]: "decimal n \<noteq> []"
  by (subst decimal.simps) simp

lemma decimal_hd_zero:
  "0 < n \<Longrightarrow> digit_value (hd (decimal n)) \<noteq> 0"
proof (induction n rule: decimal.induct)
  case (1 n)
  show ?case
  proof (cases "n < 10")
    case True
    with 1 show ?thesis by (simp add: decimal.simps [of n])
  next
    case False
    with 1 show ?thesis by (simp add: decimal.simps [of n])
  qed
qed

text \<open>Reading the digits of a number from left to right gives the number back.\<close>

definition digits_value :: "string \<Rightarrow> nat \<Rightarrow> nat" where
  "digits_value s v = foldl (\<lambda>acc c. acc * 10 + digit_value c) v s"

lemma digits_value_decimal: "digits_value (decimal n) 0 = n"
proof (induction n rule: decimal.induct)
  case (1 n)
  show ?case
  proof (cases "n < 10")
    case True
    then show ?thesis by (simp add: decimal.simps [of n] digits_value_def)
  next
    case False
    with 1 show ?thesis by (simp add: decimal.simps [of n] digits_value_def)
  qed
qed

lemma digits_value_mono: "v \<le> digits_value s v"
proof (induction s arbitrary: v)
  case Nil
  then show ?case by (simp add: digits_value_def)
next
  case (Cons c s)
  have "v \<le> v * 10 + digit_value c" by simp
  also have "\<dots> \<le> digits_value s (v * 10 + digit_value c)" by (rule Cons.IH)
  finally show ?case by (simp add: digits_value_def)
qed

lemma inet_pton4_loop_digits:
  assumes "\<forall>c \<in> set s. is_digit c" and "0 < v" and "digits_value s v \<le> 255"
  shows "inet_pton4_loop (s @ rest) octets (Some v) = inet_pton4_loop rest octets (Some (digits_value s v))"
  using assms
proof (induction s arbitrary: v)
  case Nil
  then show ?case by (simp add: digits_value_def)
next
  case (Cons c s)
  have "v * 10 + digit_value c \<le> digits_value s (v * 10 + digit_value c)"
    by (rule digits_value_mono)
  with Cons show ?case by (simp add: digits_value_def)
qed

lemma inet_pton4_loop_decimal:
  assumes "n < 256" and "length octets < 4"
  shows "inet_pton4_loop (decimal n @ rest) octets None = inet_pton4_loop rest octets (Some n)"
proof -
  obtain c s where cs: "decimal n = c # s" by (cases "decimal n") auto
  have dig: "is_digit c" "\<forall>d \<in> set s. is_digit d" using decimal_digits [of n] by (simp_all add: cs)
  have val: "digits_value s (digit_value c) = n"
    using digits_value_decimal [of n] by (simp add: cs digits_value_def)
  show ?thesis
  proof (cases "n = 0")
    case True
    then have "decimal n = [char_of (48 + 0 :: nat)]" by (simp add: decimal.simps)
    with True assms dig cs show ?thesis using digit_char(2) [of 0] by auto
  next
    case False
    then have "0 < digit_value c" using decimal_hd_zero [of n] by (simp add: cs)
    then have "inet_pton4_loop (s @ rest) octets (Some (digit_value c)) = inet_pton4_loop rest octets (Some n)"
      using inet_pton4_loop_digits [OF dig(2), of "digit_value c"] val assms by simp
    then show ?thesis using cs dig assms by simp
  qed
qed

lemma inet_pton4_dotted:
  assumes "a < 256" and "b < 256" and "c < 256" and "d < 256"
  shows "inet_pton4 (decimal a @ ''.'' @ decimal b @ ''.'' @ decimal c @ ''.'' @ decimal d) = Some [a, b, c, d]"
proof -
  have nd: "\<not> is_digit CHR ''.''" by (simp add: is_digit_def of_char_def)
  show ?thesis
    using assms inet_pton4_loop_decimal [of d "[a, b, c]" "[]"]
    by (simp add: inet_pton4_def inet_pton4_loop_decimal nd)
qed

lemma horner256: "a + 256 * b + 65536 * c + 16777216 * d = a + 256 * (b + 256 * (c + 256 * d))" for a :: nat
  by simp

lemma bytes_of_nat:
  "x mod 256 + 256 * (x div 256 mod 256) + 65536 * (x div 65536 mod 256)
     + 16777216 * (x div 16777216) = x" for x :: nat
proof -
  have d: "x div 65536 = x div 256 div 256" "x div 16777216 = x div 256 div 256 div 256"
    by (simp_all add: div_mult2_eq [symmetric])
  have "x mod 256 + 256 * (x div 256 mod 256) + 65536 * (x div 256 div 256 mod 256)
       + 16777216 * (x div 256 div 256 div 256)
     = x mod 256 + 256 * (x div 256 mod 256 + 256 * (x div 256 div 256 mod 256
       + 256 * (x div 256 div 256 div 256)))"
    by (rule horner256)
  also have "\<dots> = x" by (simp only: mod_mult_div_eq)
  finally show ?thesis unfolding d .
qed

lemma addr_of_addr_bytes: "addr_of_bytes (addr_bytes a) = a"
proof -
  have "addr_of_bytes (addr_bytes a) = of_nat (unat a)"
    using bytes_of_nat [of "unat a"] by (simp add: addr_of_bytes_def addr_bytes_def del: of_nat_add of_nat_mult)
  then show ?thesis by simp
qed

lemma addr_top_byte: "unat a div 16777216 < 256" for a :: "32 word"
proof -
  have "unat a < 4294967296" using unsigned_less [of a] by simp
  then show ?thesis by (simp add: less_mult_imp_div_less)
qed

lemma inet_pton4_ntop: "inet_pton4 (ip_text a) = Some (addr_bytes a)"
  using inet_pton4_dotted [OF _ _ _ addr_top_byte [of a], of "unat a mod 256" "unat a div 256 mod 256"
      "unat a div 65536 mod 256"]
  by (simp add: ip_text_def Let_def addr_bytes_def)

lemma decimal_length: "n < 10 ^ Suc k \<Longrightarrow> length (decimal n) \<le> Suc k"
proof (induction k arbitrary: n)
  case (Suc k)
  then have "n div 10 < 10 ^ Suc k" by (simp add: less_mult_imp_div_less)
  from Suc.IH [OF this] show ?case by (subst decimal.simps) simp
qed (subst decimal.simps, simp)

lemma decimal_no_NUL: "NUL \<notin> set (decimal n)"
  using decimal_digits [of n] by (auto simp: is_digit_def NUL_def)

lemma addr_text_bounds:
  "length (ip_text a) \<le> 15" "NUL \<notin> set (ip_text a)"
proof -
  have "unat a < 4294967296" using unsigned_less [of a] by simp
  then have top: "unat a div 16777216 < 256" by (simp add: less_mult_imp_div_less)
  have three: "length (decimal b) \<le> 3" if "b < 256" for b using decimal_length [of b 2] that by simp
  show "length (ip_text a) \<le> 15"
    using three [of "unat a mod 256"] three [of "unat a div 256 mod 256"] three [of "unat a div 65536 mod 256"]
      three [OF top]
    by (simp add: ip_text_def Let_def addr_bytes_def)
  show "NUL \<notin> set (ip_text a)"
    using decimal_no_NUL by (auto simp: ip_text_def Let_def NUL_def)
qed

text \<open>
  \<open>network_convert_ip_p_to_n\<close> inverts the text that \<open>network_convert_ip_n_to_p\<close> writes on every 32-bit address, so an
  address survives the dotted-quad form in which the server sends it.
\<close>

lemma network_convert_roundtrip:
  "network_convert_ip_p_to_n (Some (ip_text a)) = a"
  by (simp add: network_convert_ip_p_to_n_def inet_pton4_ntop addr_of_addr_bytes)

text \<open>A buffer of \<open>INET_ADDRSTRLEN\<close> bytes holds the text of every address, and the text is read back from it.\<close>

lemma convert_ip:
  assumes "length buf = INET_ADDRSTRLEN"
  shows "network_convert_ip_n_to_p a (Some buf) = Some (True, ip_text a @ NUL # drop (Suc (length (ip_text a))) buf)"
  using addr_text_bounds(1) [of a] assms mem_write_start [of "ip_text a @ [NUL]" buf]
  by (simp add: network_convert_ip_n_to_p_def inet_ntop4_def INET_ADDRSTRLEN_def)

lemma converted_ip: "c_string_at (ip_text a @ NUL # rest) 0 = Some (ip_text a)"
  using c_string_at_append [where pre = "[]"] addr_text_bounds(2) [of a] by simp

end
