(* ===== verification/Chat_Config.thy ===== *)
theory Chat_Config
  imports Chat_Prelude
begin

text \<open>The compile-time constants of \<open>src/config.h\<close> that the modelled code uses.\<close>

definition CONF_RECV_BUF_SIZE :: nat where "CONF_RECV_BUF_SIZE = 4096"
definition CONF_SERVER_IP :: string where "CONF_SERVER_IP = ''127.0.0.1''"
definition CONF_SERVER_PORT :: "16 word" where "CONF_SERVER_PORT = 8080"
definition CONF_SERVER_NAME :: string where "CONF_SERVER_NAME = ''Chat rooms server''"
definition CONF_GROUP_MANAGER_HASH_MAP_SIZE :: nat where "CONF_GROUP_MANAGER_HASH_MAP_SIZE = 10"
definition CONF_GROUP_MANAGER_MAX_NAME_LENGTH :: nat where "CONF_GROUP_MANAGER_MAX_NAME_LENGTH = 32"
definition CONF_USER_GROUPS_LINE_BUF_SIZE :: nat where "CONF_USER_GROUPS_LINE_BUF_SIZE = 256"
definition CONF_MULTICAST_BASE_IP :: string where "CONF_MULTICAST_BASE_IP = ''239.0.0.1''"
definition CONF_MULTICAST_PORT_BASE :: nat where "CONF_MULTICAST_PORT_BASE = 5000"
definition CONF_MULTICAST_MAX_GROUPS :: nat where "CONF_MULTICAST_MAX_GROUPS = 1000"
definition CONF_MULTICAST_ENDPOINT_STR_MAX :: nat where "CONF_MULTICAST_ENDPOINT_STR_MAX = 22"
definition CONF_CHAT_WINDOWS_MAP_SIZE :: nat where "CONF_CHAT_WINDOWS_MAP_SIZE = 16"
definition CONF_CHAT_SPAWN_CMD_MAX :: nat where "CONF_CHAT_SPAWN_CMD_MAX = 256"
definition CONF_CHAT_MSG_MAX :: nat where "CONF_CHAT_MSG_MAX = 512"
definition CONF_MENU_LINE_MAX :: nat where "CONF_MENU_LINE_MAX = 64"

lemmas config_defs = CONF_RECV_BUF_SIZE_def CONF_SERVER_IP_def CONF_SERVER_PORT_def
  CONF_GROUP_MANAGER_HASH_MAP_SIZE_def
  CONF_GROUP_MANAGER_MAX_NAME_LENGTH_def CONF_USER_GROUPS_LINE_BUF_SIZE_def
  CONF_MULTICAST_BASE_IP_def CONF_MULTICAST_PORT_BASE_def CONF_MULTICAST_MAX_GROUPS_def
  CONF_MULTICAST_ENDPOINT_STR_MAX_def CONF_CHAT_WINDOWS_MAP_SIZE_def CONF_CHAT_SPAWN_CMD_MAX_def
  CONF_CHAT_MSG_MAX_def CONF_MENU_LINE_MAX_def

end
