(* ===== verification/Group_Manager.thy ===== *)
theory Group_Manager
  imports Data_Structures_Api Network_Utils Chat_Config
begin

text \<open>
  \<open>src/ServerMng/Group.c\<close> and \<open>src/ServerMng/GroupManager.c\<close>: groups with their multicast endpoint
  and reference count, and the registry of live groups.  The manager keeps \<open>Group*\<close> pointers in a
  hash map of the library; the model keeps the objects they point to in a heap (a map from addresses)
  beside it, since the operations mutate a group through the pointer they found.

  Field names: \<open>m_x\<close> of \<open>struct Group\<close> is \<open>group_x\<close>, \<open>m_x\<close> of \<open>struct GroupManager\<close> is \<open>gm_x\<close>.
  An out-parameter is passed as an option (\<^term>\<open>None\<close> for \<open>NULL\<close>) that holds the variable's value
  before the call and is returned with its value after it.
\<close>

section \<open>Group\<close>

record GroupEndpoint =
  m_multicastAddr :: "32 word"
  m_port :: "16 word"

record Group =
  group_name :: string
  group_endpoint :: GroupEndpoint
  group_refCount :: nat
  group_udpFd :: int

definition empty_endpoint :: GroupEndpoint where
  "empty_endpoint = \<lparr>m_multicastAddr = 0, m_port = 0\<rparr>"

definition Group_Create :: "mem \<Rightarrow> string option \<Rightarrow> GroupEndpoint option \<Rightarrow> Group option" where
  "Group_Create mem a_name a_endpoint =
     (case a_name of
        None \<Rightarrow> None
      | Some name \<Rightarrow>
          if \<not> mem Alloc_Group then None
          else (case networkCopyString (mem Alloc_GroupName) name of
                  None \<Rightarrow> None
                | Some copy \<Rightarrow>
                    Some \<lparr>group_name = copy,
                          group_endpoint = (case a_endpoint of Some ep \<Rightarrow> ep | None \<Rightarrow> empty_endpoint),
                          group_refCount = 0,
                          group_udpFd = - 1\<rparr>))"

text \<open>
  \<open>Group_Destroy\<close> on the heap: it frees the object and clears the caller's pointer.  Freeing an
  object that is not allocated is undefined.
\<close>

definition Group_Destroy ::
  "(nat \<rightharpoonup> Group) \<Rightarrow> nat option \<Rightarrow> ((nat \<rightharpoonup> Group) \<times> nat option) option" where
  "Group_Destroy heap a_group =
     (case a_group of
        None \<Rightarrow> Some (heap, None)
      | Some p \<Rightarrow> (case heap p of None \<Rightarrow> None | Some _ \<Rightarrow> Some (heap(p := None), None)))"

definition Group_GetName :: "Group option \<Rightarrow> string option" where
  "Group_GetName a_group = map_option group_name a_group"

definition Group_GetEndpoint :: "Group option \<Rightarrow> GroupEndpoint" where
  "Group_GetEndpoint a_group =
     (case a_group of None \<Rightarrow> empty_endpoint | Some g \<Rightarrow> group_endpoint g)"

definition Group_GetRefCount :: "Group option \<Rightarrow> nat" where
  "Group_GetRefCount a_group = (case a_group of None \<Rightarrow> 0 | Some g \<Rightarrow> group_refCount g)"

definition Group_IncRef :: "Group option \<Rightarrow> nat \<times> Group option" where
  "Group_IncRef a_group =
     (case a_group of
        None \<Rightarrow> (0, None)
      | Some g \<Rightarrow> (group_refCount g + 1, Some (g\<lparr>group_refCount := group_refCount g + 1\<rparr>)))"

definition Group_DecRef :: "Group option \<Rightarrow> nat \<times> Group option" where
  "Group_DecRef a_group =
     (case a_group of
        None \<Rightarrow> (0, None)
      | Some g \<Rightarrow>
          if group_refCount g = 0 then (0, Some g)
          else (group_refCount g - 1, Some (g\<lparr>group_refCount := group_refCount g - 1\<rparr>)))"

section \<open>GroupManager\<close>

datatype GroupManagerResult =
    GROUP_MANAGER_RESULT_SUCCESS | GROUP_MANAGER_RESULT_NULL_PTR
  | GROUP_MANAGER_RESULT_NAME_TAKEN | GROUP_MANAGER_RESULT_NAME_TOO_LONG
  | GROUP_MANAGER_RESULT_ALLOCATION_FAILED | GROUP_MANAGER_RESULT_NOT_FOUND
  | GROUP_MANAGER_RESULT_EMPTY_GROUP | GROUP_MANAGER_RESULT_NOT_EMPTY
  | GROUP_MANAGER_RESULT_INTERNAL_ERROR

fun GroupManagerResult_toString :: "GroupManagerResult \<Rightarrow> string" where
  "GroupManagerResult_toString GROUP_MANAGER_RESULT_SUCCESS = ''GROUP_MANAGER_RESULT_SUCCESS''"
| "GroupManagerResult_toString GROUP_MANAGER_RESULT_NULL_PTR = ''GROUP_MANAGER_RESULT_NULL_PTR''"
| "GroupManagerResult_toString GROUP_MANAGER_RESULT_NAME_TAKEN = ''GROUP_MANAGER_RESULT_NAME_TAKEN''"
| "GroupManagerResult_toString GROUP_MANAGER_RESULT_NAME_TOO_LONG = ''GROUP_MANAGER_RESULT_NAME_TOO_LONG''"
| "GroupManagerResult_toString GROUP_MANAGER_RESULT_ALLOCATION_FAILED = ''GROUP_MANAGER_RESULT_ALLOCATION_FAILED''"
| "GroupManagerResult_toString GROUP_MANAGER_RESULT_NOT_FOUND = ''GROUP_MANAGER_RESULT_NOT_FOUND''"
| "GroupManagerResult_toString GROUP_MANAGER_RESULT_EMPTY_GROUP = ''GROUP_MANAGER_RESULT_EMPTY_GROUP''"
| "GroupManagerResult_toString GROUP_MANAGER_RESULT_NOT_EMPTY = ''GROUP_MANAGER_RESULT_NOT_EMPTY''"
| "GroupManagerResult_toString GROUP_MANAGER_RESULT_INTERNAL_ERROR = ''GROUP_MANAGER_RESULT_INTERNAL_ERROR''"

record 'g GroupManager =
  gm_groups :: 'g
  gm_heap :: "nat \<rightharpoonup> Group"
  gm_next :: nat

type_synonym 'g group_map = "('g, string, nat) HashMap_ops"

definition GroupManager_Create ::
  "'g group_map \<Rightarrow> mem \<Rightarrow> (string \<Rightarrow> 64 word) \<Rightarrow> (string \<Rightarrow> string \<Rightarrow> bool) \<Rightarrow> 'g GroupManager option" where
  "GroupManager_Create G mem a_hashFunction a_equalFunction =
     (if \<not> mem Alloc_GroupManager then None
      else (case HashMap_Create G (mem Alloc_Groups) CONF_GROUP_MANAGER_HASH_MAP_SIZE
                   a_hashFunction a_equalFunction of
              None \<Rightarrow> None
            | Some m \<Rightarrow> Some \<lparr>gm_groups = m, gm_heap = Map.empty, gm_next = 0\<rparr>))"

definition GroupManager_IsNameTaken ::
  "'g group_map \<Rightarrow> 'g GroupManager option \<Rightarrow> string option \<Rightarrow> bool" where
  "GroupManager_IsNameTaken G a_groupManager a_name =
     (case (a_groupManager, a_name) of
        (Some gm, Some name) \<Rightarrow> fst (HashMap_Find G (gm_groups gm) name None) = MAP_SUCCESS
      | _ \<Rightarrow> False)"

definition AllocateGroupEndpoint :: "'g group_map \<Rightarrow> 'g \<Rightarrow> GroupManagerResult \<times> GroupEndpoint option" where
  "AllocateGroupEndpoint G a_groups =
     (let index = HashMap_Size G a_groups
      in if index \<ge> CONF_MULTICAST_MAX_GROUPS then (GROUP_MANAGER_RESULT_INTERNAL_ERROR, None)
         else (GROUP_MANAGER_RESULT_SUCCESS,
               Some \<lparr>m_multicastAddr = network_convert_ip_p_to_n (Some CONF_MULTICAST_BASE_IP),
                     m_port = of_nat (CONF_MULTICAST_PORT_BASE + index)\<rparr>))"

definition GroupManager_AddGroup ::
  "'g group_map \<Rightarrow> mem \<Rightarrow> 'g GroupManager option \<Rightarrow> string option
     \<Rightarrow> (GroupManagerResult \<times> 'g GroupManager option) option" where
  "GroupManager_AddGroup G mem a_manager a_name =
     (case (a_manager, a_name) of
        (Some gm, Some name) \<Rightarrow>
          if length name > CONF_GROUP_MANAGER_MAX_NAME_LENGTH
          then Some (GROUP_MANAGER_RESULT_NAME_TOO_LONG, Some gm)
          else if GroupManager_IsNameTaken G (Some gm) (Some name)
          then Some (GROUP_MANAGER_RESULT_NAME_TAKEN, Some gm)
          else
            let (allocResult, endpoint) = AllocateGroupEndpoint G (gm_groups gm)
            in if allocResult \<noteq> GROUP_MANAGER_RESULT_SUCCESS then Some (allocResult, Some gm)
               else (case Group_Create mem (Some name) endpoint of
                       None \<Rightarrow> Some (GROUP_MANAGER_RESULT_ALLOCATION_FAILED, Some gm)
                     | Some grp \<Rightarrow>
                         let p = gm_next gm;
                             heap = (gm_heap gm)(p \<mapsto> grp);
                             (insertResult, m') =
                               HashMap_Insert G (mem Alloc_MapGroups) (gm_groups gm) (group_name grp) p
                         in if insertResult \<noteq> MAP_SUCCESS
                            then do {
                              (heap', _) \<leftarrow> Group_Destroy heap (Some p);
                              Some (if insertResult = MAP_ALLOCATION_ERROR
                                    then GROUP_MANAGER_RESULT_ALLOCATION_FAILED
                                    else GROUP_MANAGER_RESULT_INTERNAL_ERROR,
                                    Some (gm\<lparr>gm_groups := m', gm_heap := heap', gm_next := Suc p\<rparr>))
                            }
                            else Some (GROUP_MANAGER_RESULT_SUCCESS,
                                       Some (gm\<lparr>gm_groups := m', gm_heap := heap, gm_next := Suc p\<rparr>)))
      | _ \<Rightarrow> Some (GROUP_MANAGER_RESULT_NULL_PTR, a_manager))"

definition GroupManager_GetGroup ::
  "'g group_map \<Rightarrow> 'g GroupManager option \<Rightarrow> string option \<Rightarrow> nat option option
     \<Rightarrow> GroupManagerResult \<times> nat option option" where
  "GroupManager_GetGroup G a_manager a_name a_outGroup =
     (case (a_manager, a_name, a_outGroup) of
        (Some gm, Some name, Some _) \<Rightarrow>
          (case HashMap_Find G (gm_groups gm) name None of
             (r, value) \<Rightarrow>
               if r \<noteq> MAP_SUCCESS then (GROUP_MANAGER_RESULT_NOT_FOUND, a_outGroup)
               else (GROUP_MANAGER_RESULT_SUCCESS, Some value))
      | _ \<Rightarrow> (GROUP_MANAGER_RESULT_NULL_PTR, a_outGroup))"

text \<open>The object behind a \<open>Group*\<close>: \<open>NULL\<close> is a proper value, a dangling pointer is undefined.\<close>

definition deref :: "(nat \<rightharpoonup> 'a) \<Rightarrow> nat option \<Rightarrow> 'a option option" where
  "deref heap ptr =
     (case ptr of
        None \<Rightarrow> Some None
      | Some p \<Rightarrow> (case heap p of None \<Rightarrow> None | Some x \<Rightarrow> Some (Some x)))"

definition GroupManager_GetGroupEndpoint ::
  "'g group_map \<Rightarrow> 'g GroupManager option \<Rightarrow> string option \<Rightarrow> GroupEndpoint option
     \<Rightarrow> (GroupManagerResult \<times> GroupEndpoint option) option" where
  "GroupManager_GetGroupEndpoint G a_manager a_name a_outEndpoint =
     (case (a_manager, a_name, a_outEndpoint) of
        (Some gm, Some name, Some _) \<Rightarrow>
          (case GroupManager_GetGroup G a_manager a_name (Some None) of
             (result, out) \<Rightarrow>
               if result \<noteq> GROUP_MANAGER_RESULT_SUCCESS then Some (result, a_outEndpoint)
               else do {
                 g \<leftarrow> deref (gm_heap gm) (Option.bind out id);
                 Some (GROUP_MANAGER_RESULT_SUCCESS, Some (Group_GetEndpoint g))
               })
      | _ \<Rightarrow> Some (GROUP_MANAGER_RESULT_NULL_PTR, a_outEndpoint))"

definition GroupManager_RemoveGroupIfEmpty ::
  "'g group_map \<Rightarrow> 'g GroupManager option \<Rightarrow> string option
     \<Rightarrow> (GroupManagerResult \<times> 'g GroupManager option) option" where
  "GroupManager_RemoveGroupIfEmpty G a_manager a_name =
     (case GroupManager_GetGroup G a_manager a_name (Some None) of
        (lookup, out) \<Rightarrow>
          if lookup \<noteq> GROUP_MANAGER_RESULT_SUCCESS then Some (lookup, a_manager)
          else (case (a_manager, a_name) of
                  (Some gm, Some name) \<Rightarrow> do {
                    grp \<leftarrow> deref (gm_heap gm) (Option.bind out id);
                    if Group_GetRefCount grp > 0 then Some (GROUP_MANAGER_RESULT_NOT_EMPTY, a_manager)
                    else (case HashMap_Remove G (gm_groups gm) name of
                            (removeResult, removed, m') \<Rightarrow>
                              if removeResult \<noteq> MAP_SUCCESS
                              then Some (GROUP_MANAGER_RESULT_INTERNAL_ERROR,
                                         Some (gm\<lparr>gm_groups := m'\<rparr>))
                              else do {
                                (heap', _) \<leftarrow> Group_Destroy (gm_heap gm) (map_option snd removed);
                                Some (GROUP_MANAGER_RESULT_SUCCESS,
                                      Some (gm\<lparr>gm_groups := m', gm_heap := heap'\<rparr>))
                              })
                  }
                | _ \<Rightarrow> None))"

definition GroupManager_GetGroupsCount :: "'g group_map \<Rightarrow> 'g GroupManager option \<Rightarrow> nat" where
  "GroupManager_GetGroupsCount G a_manager =
     (case a_manager of None \<Rightarrow> 0 | Some gm \<Rightarrow> HashMap_Size G (gm_groups gm))"

definition GroupManager_IncreaseGroupRefCount ::
  "'g group_map \<Rightarrow> 'g GroupManager option \<Rightarrow> string option \<Rightarrow> nat option
     \<Rightarrow> (GroupManagerResult \<times> nat option \<times> 'g GroupManager option) option" where
  "GroupManager_IncreaseGroupRefCount G a_manager a_name a_outRefCount =
     (case (a_manager, a_name) of
        (Some gm, Some name) \<Rightarrow>
          (case Option.bind (snd (GroupManager_GetGroup G a_manager a_name (Some None))) id of
             None \<Rightarrow> Some (GROUP_MANAGER_RESULT_NOT_FOUND, a_outRefCount, a_manager)
           | Some p \<Rightarrow> do {
               grp \<leftarrow> deref (gm_heap gm) (Some p);
               let (newRefCount, grp') = Group_IncRef grp;
               Some (GROUP_MANAGER_RESULT_SUCCESS,
                     map_option (\<lambda>_. newRefCount) a_outRefCount,
                     Some (gm\<lparr>gm_heap := (gm_heap gm)(p := grp')\<rparr>))
             })
      | _ \<Rightarrow> Some (GROUP_MANAGER_RESULT_NULL_PTR, a_outRefCount, a_manager))"

definition GroupManager_DecreaseGroupRefCount ::
  "'g group_map \<Rightarrow> 'g GroupManager option \<Rightarrow> string option \<Rightarrow> nat option
     \<Rightarrow> (GroupManagerResult \<times> nat option \<times> 'g GroupManager option) option" where
  "GroupManager_DecreaseGroupRefCount G a_manager a_name a_outRefCount =
     (case (a_manager, a_name) of
        (Some gm, Some name) \<Rightarrow>
          (let out0 = map_option (\<lambda>_. 0) a_outRefCount
           in case Option.bind (snd (GroupManager_GetGroup G a_manager a_name (Some None))) id of
                None \<Rightarrow> Some (GROUP_MANAGER_RESULT_NOT_FOUND, out0, a_manager)
              | Some p \<Rightarrow> do {
                  grp \<leftarrow> deref (gm_heap gm) (Some p);
                  if Group_GetRefCount grp = 0
                  then Some (GROUP_MANAGER_RESULT_EMPTY_GROUP, out0, a_manager)
                  else do {
                    let (newRefCount, grp') = Group_DecRef grp;
                    Some (GROUP_MANAGER_RESULT_SUCCESS,
                          map_option (\<lambda>_. newRefCount) a_outRefCount,
                          Some (gm\<lparr>gm_heap := (gm_heap gm)(p := grp')\<rparr>))
                  }
                })
      | _ \<Rightarrow> Some (GROUP_MANAGER_RESULT_NULL_PTR, a_outRefCount, a_manager))"

section \<open>Formatting\<close>

record FormatGroupListContext =
  fg_buf :: string
  fg_bufSize :: nat
  fg_offset :: nat
  fg_first :: bool

definition appendGroupName ::
  "string \<Rightarrow> nat \<Rightarrow> FormatGroupListContext \<Rightarrow> (bool \<times> FormatGroupListContext) option" where
  "appendGroupName a_key a_value ctx = do {
     (written, buf') \<leftarrow> snprintf (fg_buf ctx) (fg_offset ctx) (fg_bufSize ctx - fg_offset ctx)
                          (if \<not> fg_first ctx then '', '' @ a_key else a_key);
     let ctx' = ctx\<lparr>fg_buf := buf', fg_first := False\<rparr>;
     if written < 0 then Some (False, ctx')
     else if nat written \<ge> fg_bufSize ctx - fg_offset ctx then Some (False, ctx')
     else Some (True, ctx'\<lparr>fg_offset := fg_offset ctx + nat written\<rparr>)
   }"

definition GroupManager_FormatGroupList ::
  "'g group_map \<Rightarrow> 'g GroupManager option \<Rightarrow> string option \<Rightarrow> nat
     \<Rightarrow> (GroupManagerResult \<times> string option) option" where
  "GroupManager_FormatGroupList G a_manager a_buf a_bufSize =
     (case (a_manager, a_buf) of
        (Some gm, Some buf) \<Rightarrow>
          if a_bufSize = 0 then Some (GROUP_MANAGER_RESULT_NULL_PTR, a_buf)
          else do {
            buf0 \<leftarrow> mem_write buf 0 [NUL];
            ctx \<leftarrow> HashMap_ForEach G (gm_groups gm) appendGroupName
                     \<lparr>fg_buf = buf0, fg_bufSize = a_bufSize, fg_offset = 0, fg_first = True\<rparr>;
            Some (GROUP_MANAGER_RESULT_SUCCESS, Some (fg_buf ctx))
          }
      | _ \<Rightarrow> Some (GROUP_MANAGER_RESULT_NULL_PTR, a_buf))"

section \<open>Destruction\<close>

datatype group_block = Blk_Group nat | Blk_GroupName nat

definition DestroyGroupHashMapValue ::
  "'g GroupManager \<Rightarrow> string \<Rightarrow> nat \<Rightarrow> group_block list \<Rightarrow> group_block list option" where
  "DestroyGroupHashMapValue gm key p live = do {
     _ \<leftarrow> gm_heap gm p;
     live1 \<leftarrow> free_block (Blk_GroupName p) live;
     free_block (Blk_Group p) live1
   }"

definition GroupManager_Destroy :: "'g group_map \<Rightarrow> 'g GroupManager option \<Rightarrow> group_block list option" where
  "GroupManager_Destroy G a_manager =
     (case a_manager of
        None \<Rightarrow> Some []
      | Some gm \<Rightarrow>
          HashMap_Destroy G (gm_groups gm) no_destructor (DestroyGroupHashMapValue gm)
            (concat (map (\<lambda>(k, p). [Blk_Group p, Blk_GroupName p]) (HashMap_Items G (gm_groups gm)))))"

section \<open>Abstract specification: a finite map of groups\<close>

text \<open>
  What the manager promises to its client is stated over the map from names to groups
  (\<open>gm_view\<close>); hash map, pointers and heap are implementation.  Each \<open>spec_\<close> function gives the
  result code and the new map of one operation.
\<close>

type_synonym groups_view = "string \<rightharpoonup> Group"

definition gm_view :: "'g group_map \<Rightarrow> 'g GroupManager \<Rightarrow> groups_view" where
  "gm_view G gm n = (case hm_lookup G (gm_groups gm) n of None \<Rightarrow> None | Some p \<Rightarrow> gm_heap gm p)"

definition gm_inv :: "'g group_map \<Rightarrow> 'g GroupManager \<Rightarrow> bool" where
  "gm_inv G gm \<longleftrightarrow>
     HashMap_Ok G (gm_groups gm)
     \<and> (\<forall>n p. hm_lookup G (gm_groups gm) n = Some p \<longrightarrow> (\<exists>g. gm_heap gm p = Some g \<and> group_name g = n))
     \<and> (\<forall>p g. gm_heap gm p = Some g \<longrightarrow> hm_lookup G (gm_groups gm) (group_name g) = Some p)
     \<and> (\<forall>p. gm_heap gm p \<noteq> None \<longrightarrow> p < gm_next gm)"

definition new_group :: "string \<Rightarrow> nat \<Rightarrow> Group" where
  "new_group n index =
     \<lparr>group_name = n,
      group_endpoint = \<lparr>m_multicastAddr = network_convert_ip_p_to_n (Some CONF_MULTICAST_BASE_IP),
                        m_port = of_nat (CONF_MULTICAST_PORT_BASE + index)\<rparr>,
      group_refCount = 0, group_udpFd = - 1\<rparr>"

definition spec_add :: "mem \<Rightarrow> groups_view \<Rightarrow> string \<Rightarrow> GroupManagerResult \<times> groups_view" where
  "spec_add mem V n =
     (if length n > CONF_GROUP_MANAGER_MAX_NAME_LENGTH then (GROUP_MANAGER_RESULT_NAME_TOO_LONG, V)
      else if V n \<noteq> None then (GROUP_MANAGER_RESULT_NAME_TAKEN, V)
      else if card (dom V) \<ge> CONF_MULTICAST_MAX_GROUPS then (GROUP_MANAGER_RESULT_INTERNAL_ERROR, V)
      else if \<not> (mem Alloc_Group \<and> mem Alloc_GroupName \<and> mem Alloc_MapGroups)
      then (GROUP_MANAGER_RESULT_ALLOCATION_FAILED, V)
      else (GROUP_MANAGER_RESULT_SUCCESS, V(n \<mapsto> new_group n (card (dom V)))))"

definition spec_increase :: "groups_view \<Rightarrow> string \<Rightarrow> GroupManagerResult \<times> groups_view" where
  "spec_increase V n =
     (case V n of
        None \<Rightarrow> (GROUP_MANAGER_RESULT_NOT_FOUND, V)
      | Some g \<Rightarrow> (GROUP_MANAGER_RESULT_SUCCESS, V(n \<mapsto> g\<lparr>group_refCount := group_refCount g + 1\<rparr>)))"

definition spec_decrease :: "groups_view \<Rightarrow> string \<Rightarrow> GroupManagerResult \<times> groups_view" where
  "spec_decrease V n =
     (case V n of
        None \<Rightarrow> (GROUP_MANAGER_RESULT_NOT_FOUND, V)
      | Some g \<Rightarrow>
          if group_refCount g = 0 then (GROUP_MANAGER_RESULT_EMPTY_GROUP, V)
          else (GROUP_MANAGER_RESULT_SUCCESS, V(n \<mapsto> g\<lparr>group_refCount := group_refCount g - 1\<rparr>)))"

definition spec_remove_if_empty :: "groups_view \<Rightarrow> string \<Rightarrow> GroupManagerResult \<times> groups_view" where
  "spec_remove_if_empty V n =
     (case V n of
        None \<Rightarrow> (GROUP_MANAGER_RESULT_NOT_FOUND, V)
      | Some g \<Rightarrow>
          if group_refCount g > 0 then (GROUP_MANAGER_RESULT_NOT_EMPTY, V)
          else (GROUP_MANAGER_RESULT_SUCCESS, V(n := None)))"

section \<open>The group listing\<close>

lemma append_group_names:
  assumes "holds_text (fg_buf ctx) (fg_bufSize ctx) pre" and "fg_offset ctx = length pre"
    and "\<forall>k \<in> fst ` set kvs. NUL \<notin> set k \<and> length k < 1000000"
  shows "\<exists>ctx'. for_each appendGroupName kvs ctx = Some ctx'
    \<and> holds_text (fg_buf ctx') (fg_bufSize ctx)
        (take (fg_bufSize ctx - 1) (pre @ join_from '', '' (fg_first ctx) (map fst kvs)))"
  using assms
proof (induction kvs arbitrary: ctx pre)
  case Nil
  then show ?case by (simp add: holds_text_take)
next
  case (Cons kv kvs)
  obtain k v where kv: "kv = (k, v)" by fastforce
  let ?t = "if \<not> fg_first ctx then '', '' @ k else k" and ?n = "fg_bufSize ctx"
  have "NUL \<notin> set ?t" "length ?t \<le> 2147483647" using Cons.prems(3) kv by (auto simp: NUL_def)
  then obtain buf where buf: "snprintf (fg_buf ctx) (length pre) (?n - length pre) ?t = Some (int (length ?t), buf)"
      "holds_text buf ?n (take (?n - 1) (pre @ ?t))"
    using snprintf_holds [OF Cons.prems(1)] by blast
  let ?ctx = "ctx\<lparr>fg_buf := buf, fg_first := False\<rparr>"
  show ?case
  proof (cases "length ?t \<ge> ?n - length pre")
    case True
    have "take (?n - 1) (pre @ ?t) = take (?n - 1) (pre @ join_from '', '' (fg_first ctx) (map fst (kv # kvs)))"
    proof -
      have "join_from '', '' (fg_first ctx) (map fst (kv # kvs)) = ?t @ join_from '', '' False (map fst kvs)"
        by (simp add: kv)
      then show ?thesis using take_full [OF True] by (simp only:)
    qed
    moreover have "appendGroupName k v ctx = Some (False, ?ctx)"
      using True buf(1) Cons.prems(2) by (simp add: appendGroupName_def Let_def)
    ultimately show ?thesis using buf(2) kv by simp
  next
    case False
    let ?ctx2 = "?ctx\<lparr>fg_offset := length pre + length ?t\<rparr>"
    have "take (?n - 1) (pre @ ?t) = pre @ ?t" using False by simp
    then have "holds_text (fg_buf ?ctx2) (fg_bufSize ?ctx2) (pre @ ?t)" using buf(2) by simp
    from Cons.IH [OF this] Cons.prems(3) obtain ctx' where "for_each appendGroupName kvs ?ctx2 = Some ctx'"
        "holds_text (fg_buf ctx') ?n (take (?n - 1) ((pre @ ?t) @ join_from '', '' False (map fst kvs)))"
      by auto
    moreover have "appendGroupName k v ctx = Some (True, ?ctx2)"
      using False buf(1) Cons.prems(2) by (simp add: appendGroupName_def Let_def)
    moreover have "(pre @ ?t) @ join_from '', '' False (map fst kvs)
        = pre @ join_from '', '' (fg_first ctx) (map fst (kv # kvs))" by (simp add: kv)
    ultimately show ?thesis using kv by (simp only: for_each.simps option.case prod.case if_True) blast
  qed
qed

lemma format_group_list:
  assumes "0 < n" and "n \<le> length buf"
    and "\<forall>k \<in> fst ` set (HashMap_Items G (gm_groups gm)). NUL \<notin> set k \<and> length k < 1000000"
  obtains buf' where "GroupManager_FormatGroupList G (Some gm) (Some buf) n =
      Some (GROUP_MANAGER_RESULT_SUCCESS, Some buf')"
    and "holds_text buf' n (take (n - 1) (join '', '' (map fst (HashMap_Items G (gm_groups gm)))))"
proof -
  obtain buf0 where b: "mem_write buf 0 [NUL] = Some buf0" "holds_text buf0 n []"
    using holds_text_start [OF assms(1,2)] by blast
  let ?ctx = "\<lparr>fg_buf = buf0, fg_bufSize = n, fg_offset = 0, fg_first = True\<rparr>"
  have "holds_text (fg_buf ?ctx) (fg_bufSize ?ctx) []" "fg_offset ?ctx = length []" using b(2) by simp_all
  from append_group_names [OF this assms(3)] show ?thesis
    using that b(1) assms(1) by (auto simp: GroupManager_FormatGroupList_def HashMap_ForEach_def)
qed

section \<open>The manager implements the specification\<close>

locale group_store = hash_map G for G :: "'g group_map"
begin

lemma gm_inv_ok: "gm_inv G gm \<Longrightarrow> HashMap_Ok G (gm_groups gm)"
  by (simp add: gm_inv_def)

lemma lookupD: "gm_inv G gm \<Longrightarrow> hm_lookup G (gm_groups gm) n = Some p \<Longrightarrow>
    \<exists>g. gm_heap gm p = Some g \<and> group_name g = n"
  by (simp add: gm_inv_def)

lemma heapD: "gm_inv G gm \<Longrightarrow> gm_heap gm p = Some g \<Longrightarrow>
    hm_lookup G (gm_groups gm) (group_name g) = Some p \<and> p < gm_next gm"
  by (simp add: gm_inv_def)

lemma lookup_inj: "gm_inv G gm \<Longrightarrow> hm_lookup G (gm_groups gm) m = Some p \<Longrightarrow>
    hm_lookup G (gm_groups gm) n = Some p \<Longrightarrow> m = n"
  by (metis lookupD option.inject)

lemma gm_invI:
  assumes "HashMap_Ok G (gm_groups gm)"
    and "\<And>n p. hm_lookup G (gm_groups gm) n = Some p \<Longrightarrow> \<exists>g. gm_heap gm p = Some g \<and> group_name g = n"
    and "\<And>p g. gm_heap gm p = Some g \<Longrightarrow>
           hm_lookup G (gm_groups gm) (group_name g) = Some p \<and> p < gm_next gm"
  shows "gm_inv G gm"
  using assms by (auto simp: gm_inv_def)

lemma view_lookup:
  assumes "gm_inv G gm"
  shows "gm_view G gm n = None \<longleftrightarrow> hm_lookup G (gm_groups gm) n = None"
    and "hm_lookup G (gm_groups gm) n = Some p \<Longrightarrow> gm_view G gm n = gm_heap gm p"
    and "gm_view G gm n = Some g \<Longrightarrow> \<exists>p. hm_lookup G (gm_groups gm) n = Some p \<and> gm_heap gm p = Some g"
  using assms by (force simp: gm_inv_def gm_view_def split: option.splits)+

lemma view_name: "gm_inv G gm \<Longrightarrow> gm_view G gm n = Some g \<Longrightarrow> group_name g = n"
  by (force simp: gm_inv_def gm_view_def split: option.splits)

lemma dom_view: "gm_inv G gm \<Longrightarrow> dom (gm_view G gm) = dom (hm_lookup G (gm_groups gm))"
  by (auto simp: dom_def view_lookup(1))

lemma size_view: "gm_inv G gm \<Longrightarrow> HashMap_Size G (gm_groups gm) = card (dom (gm_view G gm))"
  by (simp add: dom_view size_card gm_inv_ok)

lemma get_group:
  assumes "gm_inv G gm"
  shows "GroupManager_GetGroup G (Some gm) (Some n) (Some old) =
    (case hm_lookup G (gm_groups gm) n of
       None \<Rightarrow> (GROUP_MANAGER_RESULT_NOT_FOUND, Some old)
     | Some p \<Rightarrow> (GROUP_MANAGER_RESULT_SUCCESS, Some (Some p)))"
  using assms by (simp add: GroupManager_GetGroup_def gm_inv_ok find_eq split: option.split)

lemma is_name_taken: "gm_inv G gm \<Longrightarrow> GroupManager_IsNameTaken G (Some gm) (Some n) \<longleftrightarrow> gm_view G gm n \<noteq> None"
  by (simp add: GroupManager_IsNameTaken_def find_eq gm_inv_ok view_lookup(1) split: option.split)

lemma get_group_endpoint:
  assumes "gm_inv G gm"
  shows "GroupManager_GetGroupEndpoint G (Some gm) (Some n) (Some old) =
    (case gm_view G gm n of
       None \<Rightarrow> Some (GROUP_MANAGER_RESULT_NOT_FOUND, Some old)
     | Some g \<Rightarrow> Some (GROUP_MANAGER_RESULT_SUCCESS, Some (group_endpoint g)))"
  using assms view_lookup [OF assms]
  by (auto simp: GroupManager_GetGroupEndpoint_def get_group deref_def Group_GetEndpoint_def
      split: option.split)

text \<open>Replacing the object behind a pointer, as the reference counting does.\<close>

lemma gm_inv_heap_update:
  assumes "gm_inv G gm" and "hm_lookup G (gm_groups gm) n = Some p" and "group_name g' = n"
  shows "gm_inv G (gm\<lparr>gm_heap := (gm_heap gm)(p \<mapsto> g')\<rparr>)"
    and "gm_view G (gm\<lparr>gm_heap := (gm_heap gm)(p \<mapsto> g')\<rparr>) = (gm_view G gm)(n \<mapsto> g')"
proof -
  have inj: "hm_lookup G (gm_groups gm) m = Some p \<Longrightarrow> m = n" for m
    using lookup_inj [OF assms(1) _ assms(2)] .
  have p: "p < gm_next gm" using lookupD [OF assms(1,2)] heapD [OF assms(1)] by blast
  show "gm_inv G (gm\<lparr>gm_heap := (gm_heap gm)(p \<mapsto> g')\<rparr>)" (is "gm_inv G ?gm")
  proof (rule gm_invI)
    show "HashMap_Ok G (gm_groups ?gm)" using gm_inv_ok [OF assms(1)] by simp
  next
    fix k q assume "hm_lookup G (gm_groups ?gm) k = Some q"
    then show "\<exists>g. gm_heap ?gm q = Some g \<and> group_name g = k"
      using inj [of k] assms(3) lookupD [OF assms(1), of k q] by (cases "q = p") auto
  next
    fix q g assume "gm_heap ?gm q = Some g"
    then show "hm_lookup G (gm_groups ?gm) (group_name g) = Some q \<and> q < gm_next ?gm"
      using assms(2,3) heapD [OF assms(1), of q g] p by (cases "q = p") auto
  qed
  show "gm_view G (gm\<lparr>gm_heap := (gm_heap gm)(p \<mapsto> g')\<rparr>) = (gm_view G gm)(n \<mapsto> g')"
  proof
    fix k
    show "gm_view G (gm\<lparr>gm_heap := (gm_heap gm)(p \<mapsto> g')\<rparr>) k = ((gm_view G gm)(n \<mapsto> g')) k"
      using assms(2) inj [of k] by (cases "k = n") (auto simp: gm_view_def split: option.splits)
  qed
qed

lemma increase_refines:
  assumes "gm_inv G gm"
  shows "\<exists>gm'. GroupManager_IncreaseGroupRefCount G (Some gm) (Some n) None =
            Some (fst (spec_increase (gm_view G gm) n), None, Some gm')
          \<and> gm_inv G gm' \<and> gm_view G gm' = snd (spec_increase (gm_view G gm) n)"
proof (cases "hm_lookup G (gm_groups gm) n")
  case None
  then show ?thesis using assms view_lookup(1) [OF assms, of n]
    by (simp add: GroupManager_IncreaseGroupRefCount_def get_group spec_increase_def)
next
  case (Some p)
  then obtain g where g: "gm_heap gm p = Some g" "group_name g = n"
    using assms by (auto simp: gm_inv_def)
  then show ?thesis
    using assms Some view_lookup(2) [OF assms Some]
      gm_inv_heap_update [OF assms Some, of "g\<lparr>group_refCount := group_refCount g + 1\<rparr>"]
    by (simp add: GroupManager_IncreaseGroupRefCount_def get_group spec_increase_def deref_def
        Group_IncRef_def)
qed

lemma decrease_refines:
  assumes "gm_inv G gm"
  shows "\<exists>gm'. GroupManager_DecreaseGroupRefCount G (Some gm) (Some n) None =
            Some (fst (spec_decrease (gm_view G gm) n), None, Some gm')
          \<and> gm_inv G gm' \<and> gm_view G gm' = snd (spec_decrease (gm_view G gm) n)"
proof (cases "hm_lookup G (gm_groups gm) n")
  case None
  then show ?thesis using assms view_lookup(1) [OF assms, of n]
    by (simp add: GroupManager_DecreaseGroupRefCount_def get_group spec_decrease_def)
next
  case (Some p)
  then obtain g where g: "gm_heap gm p = Some g" "group_name g = n"
    using assms by (auto simp: gm_inv_def)
  then show ?thesis
    using assms Some view_lookup(2) [OF assms Some]
      gm_inv_heap_update [OF assms Some, of "g\<lparr>group_refCount := group_refCount g - 1\<rparr>"]
    by (simp add: GroupManager_DecreaseGroupRefCount_def get_group spec_decrease_def deref_def
        Group_DecRef_def Group_GetRefCount_def)
qed

lemma remove_refines:
  assumes "gm_inv G gm"
  shows "\<exists>gm'. GroupManager_RemoveGroupIfEmpty G (Some gm) (Some n) =
            Some (fst (spec_remove_if_empty (gm_view G gm) n), Some gm')
          \<and> gm_inv G gm' \<and> gm_view G gm' = snd (spec_remove_if_empty (gm_view G gm) n)"
proof (cases "hm_lookup G (gm_groups gm) n")
  case None
  then show ?thesis using assms view_lookup(1) [OF assms, of n]
    by (simp add: GroupManager_RemoveGroupIfEmpty_def get_group spec_remove_if_empty_def)
next
  case (Some p)
  then obtain g where g: "gm_heap gm p = Some g" "group_name g = n"
    using assms by (auto simp: gm_inv_def)
  obtain m' where m': "HashMap_Remove G (gm_groups gm) n = (MAP_SUCCESS, Some (n, p), m')"
      "HashMap_Ok G m'" "hm_lookup G m' = (hm_lookup G (gm_groups gm))(n := None)"
    using remove_hit [OF gm_inv_ok [OF assms] Some] by blast
  let ?gm = "gm\<lparr>gm_groups := m', gm_heap := (gm_heap gm)(p := None)\<rparr>"
  have inj: "hm_lookup G (gm_groups gm) k = Some p \<Longrightarrow> k = n" for k
    using lookup_inj [OF assms _ Some] .
  have inv: "gm_inv G ?gm"
    using m' g Some
    by (intro gm_invI) (auto dest: inj lookupD [OF assms] heapD [OF assms] split: if_splits)
  have view: "gm_view G ?gm = (gm_view G gm)(n := None)"
    using m' inj by (auto simp: gm_view_def fun_eq_iff split: option.splits)
  show ?thesis using assms Some g m' inv view view_lookup(2) [OF assms Some]
    by (simp add: GroupManager_RemoveGroupIfEmpty_def get_group spec_remove_if_empty_def deref_def
        Group_GetRefCount_def Group_Destroy_def)
qed

lemma add_refines:
  assumes "gm_inv G gm"
  shows "\<exists>gm'. GroupManager_AddGroup G mem (Some gm) (Some n) =
            Some (fst (spec_add mem (gm_view G gm) n), Some gm')
          \<and> gm_inv G gm' \<and> gm_view G gm' = snd (spec_add mem (gm_view G gm) n)"
proof -
  let ?p = "gm_next gm" and ?g = "new_group n (card (dom (gm_view G gm)))"
  let ?ok = "length n \<le> CONF_GROUP_MANAGER_MAX_NAME_LENGTH \<and> gm_view G gm n = None
    \<and> card (dom (gm_view G gm)) < CONF_MULTICAST_MAX_GROUPS \<and> mem Alloc_Group \<and> mem Alloc_GroupName"
  have fresh: "gm_heap gm ?p = None" using assms by (force simp: gm_inv_def)
  note defs = GroupManager_AddGroup_def spec_add_def is_name_taken [OF assms] AllocateGroupEndpoint_def
    size_view [OF assms] Group_Create_def networkCopyString_def
  show ?thesis
  proof (cases ?ok)
    case False
    then show ?thesis using assms by (auto simp: defs)
  next
    case True
    then have miss: "hm_lookup G (gm_groups gm) n = None" using view_lookup(1) [OF assms] by simp
    show ?thesis
    proof (cases "mem Alloc_MapGroups")
      case False
      then have "HashMap_Insert G (mem Alloc_MapGroups) (gm_groups gm) n ?p = (MAP_ALLOCATION_ERROR, gm_groups gm)"
        using insert_fail [OF gm_inv_ok [OF assms] miss] by simp
      moreover have "gm_inv G (gm\<lparr>gm_heap := (gm_heap gm)(?p := None), gm_next := Suc ?p\<rparr>)"
        using fresh gm_inv_ok [OF assms]
        by (intro gm_invI) (auto dest: lookupD [OF assms] heapD [OF assms] split: if_splits
            intro: less_SucI)
      moreover have "gm_view G (gm\<lparr>gm_heap := (gm_heap gm)(?p := None), gm_next := Suc ?p\<rparr>) = gm_view G gm"
        using fresh by (auto simp: gm_view_def fun_eq_iff split: option.splits)
      ultimately show ?thesis using True False by (auto simp: defs Group_Destroy_def Let_def)
    next
      case ok: True
      then obtain m' where m': "HashMap_Insert G True (gm_groups gm) n ?p = (MAP_SUCCESS, m')"
          "HashMap_Ok G m'" "hm_lookup G m' = (hm_lookup G (gm_groups gm))(n \<mapsto> ?p)"
        using insert_new [OF gm_inv_ok [OF assms] miss] by blast
      let ?gm = "gm\<lparr>gm_groups := m', gm_heap := (gm_heap gm)(?p \<mapsto> ?g), gm_next := Suc ?p\<rparr>"
      have not_p: "hm_lookup G (gm_groups gm) k \<noteq> Some ?p" for k
        using lookupD [OF assms] fresh by fastforce
      have inv: "gm_inv G ?gm"
        using m' miss not_p
        by (intro gm_invI) (auto simp: new_group_def dest: lookupD [OF assms] heapD [OF assms]
            split: if_splits intro: less_SucI)
      have view: "gm_view G ?gm = (gm_view G gm)(n \<mapsto> ?g)"
        using m' not_p by (auto simp: gm_view_def fun_eq_iff split: option.splits)
      show ?thesis using True ok m' inv view
        by (simp add: defs new_group_def Let_def)
    qed
  qed
qed

end

end
