(* ===== verification/User_Manager.thy ===== *)
theory User_Manager
  imports Data_Structures_Api Network_Utils Chat_Config
begin

text \<open>
  \<open>src/ServerMng/User.c\<close> and \<open>src/ServerMng/UserManager.c\<close>: registered users with their session and
  group names, and the registry that finds them by name and by connection.  Both hash maps of the
  manager hold the same \<open>User*\<close> pointers, so the model keeps the users in a heap beside the maps and
  an operation that changes a user through one map is seen through the other.

  Field names: \<open>m_x\<close> of \<open>struct User\<close> is \<open>user_x\<close>, \<open>m_x\<close> of \<open>struct UserManager\<close> is \<open>um_x\<close>.
  The record \<open>user_lib\<close> holds the library's operations for the two maps and the group lists, and
  \<open>uninit_ptr\<close>, the indeterminate value of the local \<open>User* user;\<close> before \<open>HashMap_Find\<close> writes it,
  and \<open>uninit_line\<close>, the indeterminate contents of the local array \<open>line\<close> of the formatters.
\<close>

section \<open>User\<close>

datatype UserResult =
    USER_RESULT_SUCCESS | USER_RESULT_NULL_PTR | USER_RESULT_INVALID_ARGUMENT
  | USER_RESULT_ALLOCATION_FAILED | USER_RESULT_INTERNAL_ERROR | USER_RESULT_BAD_CREDS
  | USER_RESULT_NAME_TAKEN | USER_RESULT_NOT_FOUND | USER_RESULT_NOT_IN_GROUP
  | USER_RESULT_ALREADY_IN_GROUP | USER_RESULT_NOT_LOGGED | USER_RESULT_ALREADY_LOG
  | USER_RESULT_MALFORMED

datatype UserState = USER_STATE_OFFLINE | USER_STATE_ONLINE

record 'l User =
  user_fdConnection :: int
  user_username :: string
  user_password :: string
  user_state :: UserState
  user_groups :: "'l option"

type_synonym ('l, 'i) name_list = "('l, 'i, string) List_ops"

definition User_Create :: "mem \<Rightarrow> int \<Rightarrow> string \<Rightarrow> string \<Rightarrow> 'l User option" where
  "User_Create mem a_fdConnection a_username a_password =
     (if \<not> mem Alloc_User then None
      else (case (networkCopyString (mem Alloc_Username) a_username,
                  networkCopyString (mem Alloc_Password) a_password) of
              (Some username, Some password) \<Rightarrow>
                Some \<lparr>user_fdConnection = a_fdConnection, user_username = username,
                      user_password = password, user_state = USER_STATE_OFFLINE,
                      user_groups = None\<rparr>
            | _ \<Rightarrow> None))"

text \<open>\<open>User_Destroy\<close> on the heap; freeing an object that is not allocated is undefined.\<close>

definition User_Destroy ::
  "(nat \<rightharpoonup> 'l User) \<Rightarrow> nat option \<Rightarrow> ((nat \<rightharpoonup> 'l User) \<times> nat option) option" where
  "User_Destroy heap a_user =
     (case a_user of
        None \<Rightarrow> Some (heap, None)
      | Some p \<Rightarrow> (case heap p of None \<Rightarrow> None | Some _ \<Rightarrow> Some (heap(p := None), None)))"

definition User_DestroyGroups :: "'l User option \<Rightarrow> UserResult \<times> 'l User option" where
  "User_DestroyGroups a_user =
     (case a_user of
        None \<Rightarrow> (USER_RESULT_NULL_PTR, None)
      | Some u \<Rightarrow> (USER_RESULT_SUCCESS, Some (u\<lparr>user_groups := None\<rparr>)))"

definition User_SetState :: "'l User option \<Rightarrow> UserState \<Rightarrow> UserResult \<times> 'l User option" where
  "User_SetState a_user a_state =
     (case a_user of
        None \<Rightarrow> (USER_RESULT_NULL_PTR, None)
      | Some u \<Rightarrow>
          if a_state = user_state u then (USER_RESULT_SUCCESS, Some u)
          else (USER_RESULT_SUCCESS, Some (u\<lparr>user_state := a_state\<rparr>)))"

definition User_GetState :: "'l User option \<Rightarrow> UserState" where
  "User_GetState a_user = (case a_user of None \<Rightarrow> USER_STATE_OFFLINE | Some u \<Rightarrow> user_state u)"

definition User_IsInGroup :: "('l, 'i) name_list \<Rightarrow> 'l User option \<Rightarrow> string option \<Rightarrow> 'i option" where
  "User_IsInGroup L a_user a_groupName =
     (case (a_user, a_groupName) of
        (Some u, Some g) \<Rightarrow>
          (case user_groups u of None \<Rightarrow> None | Some l \<Rightarrow> ListFind L l g c_strcmp)
      | _ \<Rightarrow> None)"

definition User_AddGroup ::
  "('l, 'i) name_list \<Rightarrow> mem \<Rightarrow> 'l User option \<Rightarrow> string option \<Rightarrow> UserResult \<times> 'l User option" where
  "User_AddGroup L mem a_user a_groupName =
     (case (a_user, a_groupName) of
        (Some u, Some g) \<Rightarrow>
          (case user_groups u of
             None \<Rightarrow>
               (case ListCreate L (mem Alloc_List) of
                  None \<Rightarrow> (USER_RESULT_ALLOCATION_FAILED, Some u)
                | Some l \<Rightarrow>
                    (case networkCopyString (mem Alloc_GroupNameCopy) g of
                       None \<Rightarrow> (USER_RESULT_ALLOCATION_FAILED, Some (u\<lparr>user_groups := Some l\<rparr>))
                     | Some name \<Rightarrow>
                         (USER_RESULT_SUCCESS,
                          Some (u\<lparr>user_groups :=
                                   Some (snd (ListPushTail L (mem Alloc_ListNode) l name))\<rparr>))))
           | Some l \<Rightarrow>
               if User_IsInGroup L a_user a_groupName \<noteq> None
               then (USER_RESULT_ALREADY_IN_GROUP, Some u)
               else (case networkCopyString (mem Alloc_GroupNameCopy) g of
                       None \<Rightarrow> (USER_RESULT_ALLOCATION_FAILED, Some u)
                     | Some name \<Rightarrow>
                         (USER_RESULT_SUCCESS,
                          Some (u\<lparr>user_groups :=
                                   Some (snd (ListPushTail L (mem Alloc_ListNode) l name))\<rparr>))))
      | _ \<Rightarrow> (USER_RESULT_NULL_PTR, a_user))"

definition User_RemoveGroup ::
  "('l, 'i) name_list \<Rightarrow> 'l User option \<Rightarrow> string option \<Rightarrow> UserResult \<times> 'l User option" where
  "User_RemoveGroup L a_user a_groupName =
     (case (a_user, a_groupName) of
        (Some u, Some g) \<Rightarrow>
          (case (User_IsInGroup L a_user a_groupName, user_groups u) of
             (Some itr, Some l) \<Rightarrow>
               (case ListItrRemove L l itr of
                  (None, l') \<Rightarrow> (USER_RESULT_INTERNAL_ERROR, Some (u\<lparr>user_groups := Some l'\<rparr>))
                | (Some _, l') \<Rightarrow> (USER_RESULT_SUCCESS, Some (u\<lparr>user_groups := Some l'\<rparr>)))
           | _ \<Rightarrow> (USER_RESULT_NOT_IN_GROUP, Some u))
      | _ \<Rightarrow> (USER_RESULT_NULL_PTR, a_user))"

definition User_GetFdConnection :: "'l User option \<Rightarrow> int option" where
  "User_GetFdConnection a_user = map_option user_fdConnection a_user"

definition User_GetUsername :: "'l User option \<Rightarrow> string option" where
  "User_GetUsername a_user = map_option user_username a_user"

definition User_GetPassword :: "'l User option \<Rightarrow> string option" where
  "User_GetPassword a_user = map_option user_password a_user"

definition User_GetGroups :: "'l User option \<Rightarrow> UserResult \<times> 'l option" where
  "User_GetGroups a_user =
     (case a_user of
        None \<Rightarrow> (USER_RESULT_NULL_PTR, None)
      | Some u \<Rightarrow> (USER_RESULT_SUCCESS, user_groups u))"

definition User_SetFdConnection :: "'l User option \<Rightarrow> int \<Rightarrow> UserResult \<times> 'l User option" where
  "User_SetFdConnection a_user a_fdConnection =
     (case a_user of
        None \<Rightarrow> (USER_RESULT_NULL_PTR, None)
      | Some u \<Rightarrow> (USER_RESULT_SUCCESS, Some (u\<lparr>user_fdConnection := a_fdConnection\<rparr>)))"

section \<open>UserManager\<close>

datatype UserManagerResult =
    USER_MANAGER_RESULT_SUCCESS | USER_MANAGER_RESULT_NULL_PTR
  | USER_MANAGER_RESULT_INVALID_ARGUMENT | USER_MANAGER_RESULT_ALLOCATION_FAILED
  | USER_MANAGER_RESULT_INTERNAL_ERROR | USER_MANAGER_RESULT_BAD_CREDS
  | USER_MANAGER_RESULT_NAME_TAKEN | USER_MANAGER_RESULT_NOT_FOUND
  | USER_MANAGER_RESULT_NOT_IN_GROUP | USER_MANAGER_RESULT_ALREADY_IN_GROUP
  | USER_MANAGER_RESULT_NOT_LOGGED | USER_MANAGER_RESULT_ALREADY_LOG
  | USER_MANAGER_RESULT_MALFORMED

fun UserManagerResult_toString :: "UserManagerResult \<Rightarrow> string" where
  "UserManagerResult_toString USER_MANAGER_RESULT_SUCCESS = ''USER_MANAGER_RESULT_SUCCESS''"
| "UserManagerResult_toString USER_MANAGER_RESULT_NULL_PTR = ''USER_MANAGER_RESULT_NULL_PTR''"
| "UserManagerResult_toString USER_MANAGER_RESULT_INVALID_ARGUMENT = ''USER_MANAGER_RESULT_INVALID_ARGUMENT''"
| "UserManagerResult_toString USER_MANAGER_RESULT_ALLOCATION_FAILED = ''USER_MANAGER_RESULT_ALLOCATION_FAILED''"
| "UserManagerResult_toString USER_MANAGER_RESULT_INTERNAL_ERROR = ''USER_MANAGER_RESULT_INTERNAL_ERROR''"
| "UserManagerResult_toString USER_MANAGER_RESULT_BAD_CREDS = ''USER_MANAGER_RESULT_BAD_CREDS''"
| "UserManagerResult_toString USER_MANAGER_RESULT_NAME_TAKEN = ''USER_MANAGER_RESULT_NAME_TAKEN''"
| "UserManagerResult_toString USER_MANAGER_RESULT_NOT_FOUND = ''USER_MANAGER_RESULT_NOT_FOUND''"
| "UserManagerResult_toString USER_MANAGER_RESULT_NOT_IN_GROUP = ''USER_MANAGER_RESULT_NOT_IN_GROUP''"
| "UserManagerResult_toString USER_MANAGER_RESULT_ALREADY_IN_GROUP = ''USER_MANAGER_RESULT_ALREADY_IN_GROUP''"
| "UserManagerResult_toString USER_MANAGER_RESULT_NOT_LOGGED = ''USER_MANAGER_RESULT_NOT_LOGGED''"
| "UserManagerResult_toString USER_MANAGER_RESULT_ALREADY_LOG = ''USER_MANAGER_RESULT_ALREADY_LOG''"
| "UserManagerResult_toString USER_MANAGER_RESULT_MALFORMED = ''USER_MANAGER_RESULT_MALFORMED''"

record ('n, 'f, 'l, 'i) user_lib =
  lib_byName :: "('n, string, nat) HashMap_ops"
  lib_byFd :: "('f, int, nat) HashMap_ops"
  lib_list :: "('l, 'i, string) List_ops"
  uninit_ptr :: "nat option"
  uninit_line :: string

record ('n, 'f, 'l) UserManager =
  um_usersByName :: 'n
  um_usersByFd :: 'f
  um_hashFunction :: "string \<Rightarrow> 64 word"
  um_equalFunction :: "string \<Rightarrow> string \<Rightarrow> bool"
  um_heap :: "nat \<rightharpoonup> 'l User"
  um_next :: nat

definition UserManagerHashFunctionFd :: "int \<Rightarrow> 64 word" where
  "UserManagerHashFunctionFd a_key = of_int a_key"

definition UserManagerEqualFunctionFd :: "int \<Rightarrow> int \<Rightarrow> bool" where
  "UserManagerEqualFunctionFd a_firstKey a_secondKey \<longleftrightarrow> a_firstKey = a_secondKey"

definition UserManager_Create ::
  "('n, 'f, 'l, 'i) user_lib \<Rightarrow> mem \<Rightarrow> (string \<Rightarrow> 64 word) \<Rightarrow> (string \<Rightarrow> string \<Rightarrow> bool)
     \<Rightarrow> ('n, 'f, 'l) UserManager option" where
  "UserManager_Create U mem a_hashFunction a_equalFunction =
     (if \<not> mem Alloc_UserManager then None
      else (case HashMap_Create (lib_byName U) (mem Alloc_UsersByName) 10 a_hashFunction a_equalFunction of
              None \<Rightarrow> None
            | Some byName \<Rightarrow>
                (case HashMap_Create (lib_byFd U) (mem Alloc_UsersByFd) 10
                        UserManagerHashFunctionFd UserManagerEqualFunctionFd of
                   None \<Rightarrow> None
                 | Some byFd \<Rightarrow>
                     Some \<lparr>um_usersByName = byName, um_usersByFd = byFd,
                           um_hashFunction = a_hashFunction, um_equalFunction = a_equalFunction,
                           um_heap = Map.empty, um_next = 0\<rparr>)))"

text \<open>\<open>HashMap_Find(a_manager->m_usersByFd, &fd, (void**)&user)\<close> on an uninitialised \<open>user\<close>.\<close>

definition find_by_fd ::
  "('n, 'f, 'l, 'i) user_lib \<Rightarrow> ('n, 'f, 'l) UserManager \<Rightarrow> int \<Rightarrow> nat option" where
  "find_by_fd U um fd = snd (HashMap_Find (lib_byFd U) (um_usersByFd um) fd (uninit_ptr U))"

definition find_by_name ::
  "('n, 'f, 'l, 'i) user_lib \<Rightarrow> ('n, 'f, 'l) UserManager \<Rightarrow> string \<Rightarrow> nat option" where
  "find_by_name U um name = snd (HashMap_Find (lib_byName U) (um_usersByName um) name (uninit_ptr U))"

text \<open>The \<open>User\<close> behind a pointer: undefined when it dangles.\<close>

definition user_at :: "('n, 'f, 'l) UserManager \<Rightarrow> nat \<Rightarrow> 'l User option" where
  "user_at um p = um_heap um p"

definition put_user :: "nat \<Rightarrow> 'l User option \<Rightarrow> ('n, 'f, 'l) UserManager \<Rightarrow> ('n, 'f, 'l) UserManager" where
  "put_user p u um = um\<lparr>um_heap := (um_heap um)(p := u)\<rparr>"

definition UserManager_AddUserToGroup ::
  "('n, 'f, 'l, 'i) user_lib \<Rightarrow> mem \<Rightarrow> ('n, 'f, 'l) UserManager option \<Rightarrow> int \<Rightarrow> string option
     \<Rightarrow> (UserManagerResult \<times> ('n, 'f, 'l) UserManager option) option" where
  "UserManager_AddUserToGroup U mem a_manager a_fdConnection a_groupName =
     (case (a_manager, a_groupName) of
        (Some um, Some g) \<Rightarrow>
          (case find_by_fd U um a_fdConnection of
             None \<Rightarrow> Some (USER_MANAGER_RESULT_NOT_FOUND, a_manager)
           | Some p \<Rightarrow> do {
               user \<leftarrow> user_at um p;
               if User_GetState (Some user) = USER_STATE_OFFLINE
               then Some (USER_MANAGER_RESULT_NOT_LOGGED, a_manager)
               else do {
                 let (addGroupResult, user') = User_AddGroup (lib_list U) mem (Some user) a_groupName;
                 let manager' = Some (put_user p user' um);
                 if addGroupResult = USER_RESULT_ALREADY_IN_GROUP
                 then Some (USER_MANAGER_RESULT_ALREADY_IN_GROUP, manager')
                 else if addGroupResult \<noteq> USER_RESULT_SUCCESS
                 then Some (USER_MANAGER_RESULT_INTERNAL_ERROR, manager')
                 else Some (USER_MANAGER_RESULT_SUCCESS, manager')
               }
             })
      | _ \<Rightarrow> Some (USER_MANAGER_RESULT_NULL_PTR, a_manager))"

definition UserManager_RemoveUserFromGroup ::
  "('n, 'f, 'l, 'i) user_lib \<Rightarrow> ('n, 'f, 'l) UserManager option \<Rightarrow> int \<Rightarrow> string option
     \<Rightarrow> (UserManagerResult \<times> ('n, 'f, 'l) UserManager option) option" where
  "UserManager_RemoveUserFromGroup U a_manager a_fdConnection a_groupName =
     (case (a_manager, a_groupName) of
        (Some um, Some g) \<Rightarrow>
          (case find_by_fd U um a_fdConnection of
             None \<Rightarrow> Some (USER_MANAGER_RESULT_NOT_FOUND, a_manager)
           | Some p \<Rightarrow> do {
               user \<leftarrow> user_at um p;
               let (removeGroupResult, user') = User_RemoveGroup (lib_list U) (Some user) a_groupName;
               let manager' = Some (put_user p user' um);
               if removeGroupResult = USER_RESULT_NOT_IN_GROUP
               then Some (USER_MANAGER_RESULT_NOT_IN_GROUP, manager')
               else if removeGroupResult \<noteq> USER_RESULT_SUCCESS
               then Some (USER_MANAGER_RESULT_INTERNAL_ERROR, manager')
               else Some (USER_MANAGER_RESULT_SUCCESS, manager')
             })
      | _ \<Rightarrow> Some (USER_MANAGER_RESULT_NULL_PTR, a_manager))"


definition UserManager_AddUser ::
  "('n, 'f, 'l, 'i) user_lib \<Rightarrow> mem \<Rightarrow> ('n, 'f, 'l) UserManager option \<Rightarrow> int \<Rightarrow> string option \<Rightarrow> string option
     \<Rightarrow> (UserManagerResult \<times> ('n, 'f, 'l) UserManager option) option" where
  "UserManager_AddUser U mem a_manager a_fdConnection a_username a_password =
     (case (a_manager, a_username, a_password) of
        (Some um, Some name, Some password) \<Rightarrow>
          (case User_Create mem a_fdConnection name password of
             None \<Rightarrow> Some (USER_MANAGER_RESULT_ALLOCATION_FAILED, a_manager)
           | Some user \<Rightarrow>
               let p = um_next um;
                   heap = (um_heap um)(p \<mapsto> user);
                   (insertResult, byName) =
                     HashMap_Insert (lib_byName U) (mem Alloc_MapByName) (um_usersByName um) (user_username user) p;
                   um1 = um\<lparr>um_usersByName := byName, um_heap := heap, um_next := Suc p\<rparr>
               in if insertResult = MAP_KEY_DUPLICATE_ERROR
                  then do {
                    (heap', _) \<leftarrow> User_Destroy heap (Some p);
                    Some (USER_MANAGER_RESULT_NAME_TAKEN, Some (um1\<lparr>um_heap := heap'\<rparr>))
                  }
                  else if insertResult \<noteq> MAP_SUCCESS
                  then do {
                    (heap', _) \<leftarrow> User_Destroy heap (Some p);
                    Some (USER_MANAGER_RESULT_INTERNAL_ERROR, Some (um1\<lparr>um_heap := heap'\<rparr>))
                  }
                  else
                    let (insertResult2, byFd) =
                          HashMap_Insert (lib_byFd U) (mem Alloc_MapByFd) (um_usersByFd um) (user_fdConnection user) p
                    in if insertResult2 \<noteq> MAP_SUCCESS
                       then do {
                         let (_, _, byName') = HashMap_Remove (lib_byName U) byName name;
                         (heap', _) \<leftarrow> User_Destroy heap (Some p);
                         Some (USER_MANAGER_RESULT_INTERNAL_ERROR,
                               Some (um1\<lparr>um_usersByName := byName', um_usersByFd := byFd, um_heap := heap'\<rparr>))
                       }
                       else
                         let (_, user') = User_SetState (Some user) USER_STATE_ONLINE
                         in Some (USER_MANAGER_RESULT_SUCCESS,
                                  Some (put_user p user' (um1\<lparr>um_usersByFd := byFd\<rparr>))))
      | _ \<Rightarrow> Some (USER_MANAGER_RESULT_NULL_PTR, a_manager))"

definition UserManager_RemoveUser ::
  "('n, 'f, 'l, 'i) user_lib \<Rightarrow> ('n, 'f, 'l) UserManager option \<Rightarrow> int
     \<Rightarrow> (UserManagerResult \<times> ('n, 'f, 'l) UserManager option) option" where
  "UserManager_RemoveUser U a_manager a_fdConnection =
     (case a_manager of
        None \<Rightarrow> Some (USER_MANAGER_RESULT_NULL_PTR, None)
      | Some um \<Rightarrow>
          (case find_by_fd U um a_fdConnection of
             None \<Rightarrow> Some (USER_MANAGER_RESULT_NOT_FOUND, a_manager)
           | Some p \<Rightarrow> do {
               user \<leftarrow> user_at um p;
               let (_, _, byName) = HashMap_Remove (lib_byName U) (um_usersByName um) (user_username user);
               let (_, _, byFd) = HashMap_Remove (lib_byFd U) (um_usersByFd um) a_fdConnection;
               (heap', _) \<leftarrow> User_Destroy (um_heap um) (Some p);
               Some (USER_MANAGER_RESULT_SUCCESS,
                     Some (um\<lparr>um_usersByName := byName, um_usersByFd := byFd, um_heap := heap'\<rparr>))
             }))"

definition UserManager_Login ::
  "('n, 'f, 'l, 'i) user_lib \<Rightarrow> mem \<Rightarrow> ('n, 'f, 'l) UserManager option \<Rightarrow> int \<Rightarrow> string option \<Rightarrow> string option
     \<Rightarrow> (UserManagerResult \<times> ('n, 'f, 'l) UserManager option) option" where
  "UserManager_Login U mem a_manager a_fdConnection a_username a_password =
     (case (a_manager, a_username, a_password) of
        (Some um, Some name, Some password) \<Rightarrow>
          (case find_by_name U um name of
             None \<Rightarrow> Some (USER_MANAGER_RESULT_NOT_FOUND, a_manager)
           | Some p \<Rightarrow> do {
               user \<leftarrow> user_at um p;
               if User_GetState (Some user) = USER_STATE_ONLINE
               then Some (USER_MANAGER_RESULT_ALREADY_LOG, a_manager)
               else if c_strcmp (user_password user) password \<noteq> 0
               then Some (USER_MANAGER_RESULT_BAD_CREDS, a_manager)
               else do {
                 let (setResult, user1) = User_SetFdConnection (Some user) a_fdConnection;
                 let um1 = put_user p user1 um;
                 if setResult \<noteq> USER_RESULT_SUCCESS
                 then Some (USER_MANAGER_RESULT_INTERNAL_ERROR, Some um1)
                 else (case User_GetFdConnection user1 of
                         None \<Rightarrow> Some (USER_MANAGER_RESULT_INTERNAL_ERROR, Some um1)
                       | Some fdConnection \<Rightarrow>
                           let (insertResult, byFd) =
                                 HashMap_Insert (lib_byFd U) (mem Alloc_MapByFd) (um_usersByFd um) fdConnection p;
                               um2 = um1\<lparr>um_usersByFd := byFd\<rparr>
                           in if insertResult \<noteq> MAP_SUCCESS
                              then Some (USER_MANAGER_RESULT_INTERNAL_ERROR, Some um2)
                              else
                                let (stateResult, user2) = User_SetState user1 USER_STATE_ONLINE
                                in if stateResult \<noteq> USER_RESULT_SUCCESS
                                   then Some (USER_MANAGER_RESULT_INTERNAL_ERROR, Some (put_user p user2 um2))
                                   else Some (USER_MANAGER_RESULT_SUCCESS, Some (put_user p user2 um2)))
               }
             })
      | _ \<Rightarrow> Some (USER_MANAGER_RESULT_NULL_PTR, a_manager))"

text \<open>
  \<open>a_loggedOutUsername\<close> is a \<open>char**\<close>: \<^term>\<open>None\<close> for a \<open>NULL\<close> argument, otherwise the string pointer
  it refers to.
\<close>

definition UserManager_Logout ::
  "('n, 'f, 'l, 'i) user_lib \<Rightarrow> mem \<Rightarrow> ('n, 'f, 'l) UserManager option \<Rightarrow> int \<Rightarrow> string option option
     \<Rightarrow> (UserManagerResult \<times> string option option \<times> ('n, 'f, 'l) UserManager option) option" where
  "UserManager_Logout U mem a_manager a_fdConnection a_loggedOutUsername =
     (case a_manager of
        None \<Rightarrow> Some (USER_MANAGER_RESULT_NULL_PTR, a_loggedOutUsername, None)
      | Some um \<Rightarrow>
          (case find_by_fd U um a_fdConnection of
             None \<Rightarrow> Some (USER_MANAGER_RESULT_NOT_FOUND, a_loggedOutUsername, a_manager)
           | Some p \<Rightarrow> do {
               user \<leftarrow> user_at um p;
               if User_GetState (Some user) = USER_STATE_OFFLINE
               then Some (USER_MANAGER_RESULT_NOT_LOGGED, a_loggedOutUsername, a_manager)
               else do {
                 let (_, user1) = User_DestroyGroups (Some user);
                 let (stateResult, user2) = User_SetState user1 USER_STATE_OFFLINE;
                 if stateResult \<noteq> USER_RESULT_SUCCESS
                 then Some (USER_MANAGER_RESULT_INTERNAL_ERROR, a_loggedOutUsername, Some (put_user p user2 um))
                 else do {
                   let (_, _, byFd) = HashMap_Remove (lib_byFd U) (um_usersByFd um) a_fdConnection;
                   let out = map_option (\<lambda>_. networkCopyString (mem Alloc_LogoutName) (user_username user))
                               a_loggedOutUsername;
                   let (_, user3) = User_SetFdConnection user2 (- 1);
                   Some (USER_MANAGER_RESULT_SUCCESS, out, Some (put_user p user3 (um\<lparr>um_usersByFd := byFd\<rparr>)))
                 }
               }
             }))"

definition UserManager_IsUserLoggedIn ::
  "('n, 'f, 'l, 'i) user_lib \<Rightarrow> ('n, 'f, 'l) UserManager option \<Rightarrow> string option \<Rightarrow> int \<Rightarrow> bool option
     \<Rightarrow> (UserManagerResult \<times> bool option) option" where
  "UserManager_IsUserLoggedIn U a_manager a_username a_fdConnection a_isLoggedIn =
     (case (a_manager, a_isLoggedIn) of
        (Some um, Some _) \<Rightarrow>
          (case a_username of
             Some name \<Rightarrow>
               (case find_by_name U um name of
                  None \<Rightarrow> Some (USER_MANAGER_RESULT_SUCCESS, Some False)
                | Some p \<Rightarrow> do {
                    user \<leftarrow> user_at um p;
                    Some (USER_MANAGER_RESULT_SUCCESS, Some (user_fdConnection user = a_fdConnection))
                  })
           | None \<Rightarrow>
               (case snd (HashMap_Find (lib_byFd U) (um_usersByFd um) a_fdConnection None) of
                  None \<Rightarrow> Some (USER_MANAGER_RESULT_SUCCESS, Some False)
                | Some _ \<Rightarrow> Some (USER_MANAGER_RESULT_SUCCESS, Some True)))
      | _ \<Rightarrow> Some (USER_MANAGER_RESULT_NULL_PTR, a_isLoggedIn))"

definition UserManager_IsUserInGroup ::
  "('n, 'f, 'l, 'i) user_lib \<Rightarrow> ('n, 'f, 'l) UserManager option \<Rightarrow> int \<Rightarrow> string option \<Rightarrow> bool option
     \<Rightarrow> (UserManagerResult \<times> bool option) option" where
  "UserManager_IsUserInGroup U a_manager a_fdConnection a_groupName a_isInGroup =
     (case (a_manager, a_groupName, a_isInGroup) of
        (Some um, Some g, Some _) \<Rightarrow>
          (case find_by_fd U um a_fdConnection of
             None \<Rightarrow> Some (USER_MANAGER_RESULT_NOT_FOUND, a_isInGroup)
           | Some p \<Rightarrow> do {
               user \<leftarrow> user_at um p;
               Some (USER_MANAGER_RESULT_SUCCESS,
                     Some (\<not> Option.is_none (User_IsInGroup (lib_list U) (Some user) a_groupName)))
             })
      | _ \<Rightarrow> Some (USER_MANAGER_RESULT_NULL_PTR, a_isInGroup))"

definition UserManager_GetUserGroupCount ::
  "('n, 'f, 'l, 'i) user_lib \<Rightarrow> ('n, 'f, 'l) UserManager option \<Rightarrow> int \<Rightarrow> nat option
     \<Rightarrow> (UserManagerResult \<times> nat option) option" where
  "UserManager_GetUserGroupCount U a_manager a_fdConnection a_outCount =
     (case (a_manager, a_outCount) of
        (Some um, Some _) \<Rightarrow>
          (case find_by_fd U um a_fdConnection of
             None \<Rightarrow> Some (USER_MANAGER_RESULT_NOT_FOUND, Some 0)
           | Some p \<Rightarrow> do {
               user \<leftarrow> user_at um p;
               (case snd (User_GetGroups (Some user)) of
                  None \<Rightarrow> Some (USER_MANAGER_RESULT_SUCCESS, Some 0)
                | Some groups \<Rightarrow> Some (USER_MANAGER_RESULT_SUCCESS, Some (ListSize (lib_list U) groups)))
             })
      | _ \<Rightarrow> Some (USER_MANAGER_RESULT_NULL_PTR, a_outCount))"

text \<open>
  The loop that fills the caller's array of borrowed names: it writes until the capacity or the
  list is exhausted and yields the array, the count and what is left of the list.  Writing past the
  array is undefined.
\<close>

fun copy_names :: "string option list \<Rightarrow> nat \<Rightarrow> nat \<Rightarrow> string list \<Rightarrow> (string option list \<times> nat \<times> string list) option" where
  "copy_names out count capacity [] = Some (out, count, [])"
| "copy_names out count capacity (g # gs) =
     (if count < capacity
      then (if count < length out
            then copy_names (out[count := Some g]) (Suc count) capacity gs
            else None)
      else Some (out, count, g # gs))"

definition UserManager_GetUserGroups ::
  "('n, 'f, 'l, 'i) user_lib \<Rightarrow> ('n, 'f, 'l) UserManager option \<Rightarrow> int \<Rightarrow> string option list option
     \<Rightarrow> nat \<Rightarrow> nat option
     \<Rightarrow> (UserManagerResult \<times> string option list option \<times> nat option) option" where
  "UserManager_GetUserGroups U a_manager a_fdConnection a_outNames a_capacity a_outCount =
     (case (a_manager, a_outNames, a_outCount) of
        (Some um, Some names, Some _) \<Rightarrow>
          (case find_by_fd U um a_fdConnection of
             None \<Rightarrow> Some (USER_MANAGER_RESULT_NOT_FOUND, a_outNames, Some 0)
           | Some p \<Rightarrow> do {
               user \<leftarrow> user_at um p;
               (case snd (User_GetGroups (Some user)) of
                  None \<Rightarrow> Some (USER_MANAGER_RESULT_INTERNAL_ERROR, a_outNames, Some 0)
                | Some groups \<Rightarrow> do {
                    (names', count, rest) \<leftarrow> copy_names names 0 a_capacity (ListItems (lib_list U) groups);
                    Some (if rest \<noteq> [] then USER_MANAGER_RESULT_INVALID_ARGUMENT
                          else USER_MANAGER_RESULT_SUCCESS, Some names', Some count)
                  })
             })
      | _ \<Rightarrow> Some (USER_MANAGER_RESULT_NULL_PTR, a_outNames, a_outCount))"

section \<open>Formatting\<close>

text \<open>The loop over the groups of a user: \<open>snprintf\<close> of each name at the running offset.\<close>

fun format_groups ::
  "string \<Rightarrow> nat \<Rightarrow> nat \<Rightarrow> nat \<Rightarrow> string list \<Rightarrow> (UserManagerResult \<times> string) option" where
  "format_groups buf bufSize offset i [] = Some (USER_MANAGER_RESULT_SUCCESS, buf)"
| "format_groups buf bufSize offset i (groupName # gs) = do {
     (written, buf') \<leftarrow> snprintf buf offset (bufSize - offset)
                          (if i = 0 then groupName else '', '' @ groupName);
     if written < 0 then Some (USER_MANAGER_RESULT_INTERNAL_ERROR, buf')
     else if nat written \<ge> bufSize - offset then Some (USER_MANAGER_RESULT_SUCCESS, buf')
     else format_groups buf' bufSize (offset + nat written) (Suc i) gs
   }"

definition FormatUserGroupsLine ::
  "('l, 'i) name_list \<Rightarrow> 'l User option \<Rightarrow> string option \<Rightarrow> nat \<Rightarrow> (UserManagerResult \<times> string option) option" where
  "FormatUserGroupsLine L a_user a_buf a_bufSize =
     (case (a_user, a_buf) of
        (Some user, Some buf) \<Rightarrow>
          if a_bufSize = 0 then Some (USER_MANAGER_RESULT_INVALID_ARGUMENT, a_buf)
          else do {
            buf0 \<leftarrow> mem_write buf 0 [NUL];
            (written, buf1) \<leftarrow> snprintf buf0 0 a_bufSize (user_username user @ '' -> '');
            if written < 0 \<or> nat written \<ge> a_bufSize
            then Some (USER_MANAGER_RESULT_INTERNAL_ERROR, Some buf1)
            else do {
              let offset = nat written;
              let (getResult, groups) = User_GetGroups (Some user);
              if getResult \<noteq> USER_RESULT_SUCCESS
              then Some (USER_MANAGER_RESULT_INTERNAL_ERROR, Some buf1)
              else (case groups of
                      None \<Rightarrow> do {
                        (_, buf2) \<leftarrow> snprintf buf1 offset (a_bufSize - offset) ''(none)'';
                        Some (USER_MANAGER_RESULT_SUCCESS, Some buf2)
                      }
                    | Some l \<Rightarrow>
                        if ListSize L l = 0 then do {
                          (_, buf2) \<leftarrow> snprintf buf1 offset (a_bufSize - offset) ''(none)'';
                          Some (USER_MANAGER_RESULT_SUCCESS, Some buf2)
                        }
                        else do {
                          (result, buf2) \<leftarrow> format_groups buf1 a_bufSize offset 0 (ListItems L l);
                          Some (result, Some buf2)
                        })
            }
          }
      | _ \<Rightarrow> Some (USER_MANAGER_RESULT_NULL_PTR, a_buf))"

record FormatAllUsersContext =
  fu_buf :: string
  fu_bufSize :: nat
  fu_offset :: nat
  fu_first :: bool

text \<open>The two actions of \<open>HashMap_ForEach\<close>; the value is the \<open>User*\<close> of the pair.\<close>

definition PrintUserGroupsLine ::
  "('n, 'f, 'l, 'i) user_lib \<Rightarrow> ('n, 'f, 'l) UserManager \<Rightarrow> string \<Rightarrow> nat \<Rightarrow> unit \<Rightarrow> (bool \<times> unit) option" where
  "PrintUserGroupsLine U um a_key a_value a_context = do {
     user \<leftarrow> user_at um a_value;
     _ \<leftarrow> FormatUserGroupsLine (lib_list U) (Some user) (Some (uninit_line U)) CONF_USER_GROUPS_LINE_BUF_SIZE;
     Some (True, ())
   }"

definition AppendUserGroupsLine ::
  "('n, 'f, 'l, 'i) user_lib \<Rightarrow> ('n, 'f, 'l) UserManager \<Rightarrow> string \<Rightarrow> nat \<Rightarrow> FormatAllUsersContext
     \<Rightarrow> (bool \<times> FormatAllUsersContext) option" where
  "AppendUserGroupsLine U um a_key a_value ctx = do {
     user \<leftarrow> user_at um a_value;
     (formatResult, line) \<leftarrow> FormatUserGroupsLine (lib_list U) (Some user) (Some (uninit_line U))
                               CONF_USER_GROUPS_LINE_BUF_SIZE;
     if formatResult \<noteq> USER_MANAGER_RESULT_SUCCESS then Some (True, ctx)
     else do {
       buf \<leftarrow> line;
       text \<leftarrow> c_string_at buf 0;
       (written, buf') \<leftarrow> snprintf (fu_buf ctx) (fu_offset ctx) (fu_bufSize ctx - fu_offset ctx)
                            (if fu_first ctx then text else CHR 0x0A # text);
       let ctx' = ctx\<lparr>fu_buf := buf'\<rparr>;
       if written < 0 then Some (False, ctx')
       else if nat written \<ge> fu_bufSize ctx - fu_offset ctx then Some (False, ctx')
       else Some (True, ctx'\<lparr>fu_offset := fu_offset ctx + nat written, fu_first := False\<rparr>)
     }
   }"

definition UserManager_GetAllUsersAndTheirGroups ::
  "('n, 'f, 'l, 'i) user_lib \<Rightarrow> ('n, 'f, 'l) UserManager option \<Rightarrow> UserManagerResult option" where
  "UserManager_GetAllUsersAndTheirGroups U a_manager =
     (case a_manager of
        None \<Rightarrow> Some USER_MANAGER_RESULT_NULL_PTR
      | Some um \<Rightarrow> do {
          _ \<leftarrow> HashMap_ForEach (lib_byName U) (um_usersByName um) (PrintUserGroupsLine U um) ();
          Some USER_MANAGER_RESULT_SUCCESS
        })"

definition UserManager_FormatAllUsersAndGroups ::
  "('n, 'f, 'l, 'i) user_lib \<Rightarrow> ('n, 'f, 'l) UserManager option \<Rightarrow> string option \<Rightarrow> nat
     \<Rightarrow> (UserManagerResult \<times> string option) option" where
  "UserManager_FormatAllUsersAndGroups U a_manager a_buf a_bufSize =
     (case (a_manager, a_buf) of
        (Some um, Some buf) \<Rightarrow>
          if a_bufSize = 0 then Some (USER_MANAGER_RESULT_NULL_PTR, a_buf)
          else do {
            buf0 \<leftarrow> mem_write buf 0 [NUL];
            ctx \<leftarrow> HashMap_ForEach (lib_byName U) (um_usersByName um) (AppendUserGroupsLine U um)
                     \<lparr>fu_buf = buf0, fu_bufSize = a_bufSize, fu_offset = 0, fu_first = True\<rparr>;
            Some (USER_MANAGER_RESULT_SUCCESS, Some (fu_buf ctx))
          }
      | _ \<Rightarrow> Some (USER_MANAGER_RESULT_NULL_PTR, a_buf))"

section \<open>Destruction\<close>

text \<open>
  The memory blocks of a user: the object, its two strings and its group list.  \<open>Blk_FdField\<close> is the
  address of the member \<open>m_fdConnection\<close>, which no allocation ever returned.
\<close>

datatype user_block = Blk_User nat | Blk_Username nat | Blk_Password nat | Blk_Groups nat | Blk_FdField nat

definition blocks_of_user :: "('n, 'f, 'l) UserManager \<Rightarrow> nat \<Rightarrow> user_block list" where
  "blocks_of_user um p =
     [Blk_User p, Blk_Username p, Blk_Password p]
     @ (case um_heap um p of Some u \<Rightarrow> (if user_groups u = None then [] else [Blk_Groups p]) | None \<Rightarrow> [])"

definition UserManager_DestroyUserAdapter ::
  "('n, 'f, 'l) UserManager \<Rightarrow> string \<Rightarrow> nat \<Rightarrow> user_block list \<Rightarrow> user_block list option" where
  "UserManager_DestroyUserAdapter um key p live = do {
     user \<leftarrow> user_at um p;
     live1 \<leftarrow> (if user_groups user \<noteq> None then free_block (Blk_Groups p) live else Some live);
     live2 \<leftarrow> free_block (Blk_Username p) live1;
     live3 \<leftarrow> free_block (Blk_Password p) live2;
     free_block (Blk_User p) live3
   }"

text \<open>The keys of the first map are the users' name strings, those of the second point into the users.\<close>

definition UserManager_Destroy ::
  "('n, 'f, 'l, 'i) user_lib \<Rightarrow> ('n, 'f, 'l) UserManager option \<Rightarrow> user_block list option" where
  "UserManager_Destroy U a_manager =
     (case a_manager of
        None \<Rightarrow> Some []
      | Some um \<Rightarrow> do {
          live1 \<leftarrow> HashMap_Destroy (lib_byName U) (um_usersByName um)
                     (\<lambda>k p. free_block (Blk_Username p)) (UserManager_DestroyUserAdapter um)
                     (concat (map (blocks_of_user um \<circ> snd) (HashMap_Items (lib_byName U) (um_usersByName um))));
          HashMap_Destroy (lib_byFd U) (um_usersByFd um)
            (\<lambda>k p. free_block (Blk_FdField p)) no_destructor live1
        })"

end
