(* ===== verification/User_Store.thy ===== *)
theory User_Store
  imports User_Manager
begin

text \<open>
  What the user registry promises, stated over an abstract database (\<open>user_db\<close>: passwords by name,
  names by connection, group names by user), and the proof that \<open>UserManager.c\<close> implements it: every
  operation keeps the representation invariant \<open>um_inv\<close>, returns the specified code and changes the
  database as specified, for every outcome of the allocations.

  The invariant also says that the key each map holds a pointer to (\<open>m_username\<close>, \<open>m_fdConnection\<close> of
  the user) still has the value it was inserted under, which is what allows the model to keep the
  keys by value.
\<close>

section \<open>The abstract database\<close>

record user_db =
  db_password :: "string \<rightharpoonup> string"
  db_session :: "int \<rightharpoonup> string"
  db_groups :: "string \<Rightarrow> string list"

definition db_empty :: user_db where
  "db_empty = \<lparr>db_password = Map.empty, db_session = Map.empty, db_groups = (\<lambda>_. [])\<rparr>"

definition db_ok :: "user_db \<Rightarrow> bool" where
  "db_ok db \<longleftrightarrow>
     ran (db_session db) \<subseteq> dom (db_password db)
     \<and> inj_on (db_session db) (dom (db_session db))
     \<and> (\<forall>n. db_groups db n \<noteq> [] \<longrightarrow> n \<in> ran (db_session db))
     \<and> (\<forall>n. distinct (db_groups db n))"

definition spec_register ::
  "mem \<Rightarrow> user_db \<Rightarrow> int \<Rightarrow> string \<Rightarrow> string \<Rightarrow> UserManagerResult \<times> user_db" where
  "spec_register mem db fd n pw =
     (if \<not> (mem Alloc_User \<and> mem Alloc_Username \<and> mem Alloc_Password)
      then (USER_MANAGER_RESULT_ALLOCATION_FAILED, db)
      else if db_password db n \<noteq> None then (USER_MANAGER_RESULT_NAME_TAKEN, db)
      else if \<not> mem Alloc_MapByName \<or> db_session db fd \<noteq> None \<or> \<not> mem Alloc_MapByFd
      then (USER_MANAGER_RESULT_INTERNAL_ERROR, db)
      else (USER_MANAGER_RESULT_SUCCESS,
            db\<lparr>db_password := (db_password db)(n \<mapsto> pw), db_session := (db_session db)(fd \<mapsto> n)\<rparr>))"

definition spec_login ::
  "mem \<Rightarrow> user_db \<Rightarrow> int \<Rightarrow> string \<Rightarrow> string \<Rightarrow> UserManagerResult \<times> user_db" where
  "spec_login mem db fd n pw =
     (case db_password db n of
        None \<Rightarrow> (USER_MANAGER_RESULT_NOT_FOUND, db)
      | Some pw' \<Rightarrow>
          if n \<in> ran (db_session db) then (USER_MANAGER_RESULT_ALREADY_LOG, db)
          else if pw' \<noteq> pw then (USER_MANAGER_RESULT_BAD_CREDS, db)
          else if db_session db fd \<noteq> None \<or> \<not> mem Alloc_MapByFd then (USER_MANAGER_RESULT_INTERNAL_ERROR, db)
          else (USER_MANAGER_RESULT_SUCCESS, db\<lparr>db_session := (db_session db)(fd \<mapsto> n)\<rparr>))"

definition spec_logout :: "user_db \<Rightarrow> int \<Rightarrow> UserManagerResult \<times> user_db" where
  "spec_logout db fd =
     (case db_session db fd of
        None \<Rightarrow> (USER_MANAGER_RESULT_NOT_FOUND, db)
      | Some n \<Rightarrow>
          (USER_MANAGER_RESULT_SUCCESS,
           db\<lparr>db_session := (db_session db)(fd := None), db_groups := (db_groups db)(n := [])\<rparr>))"

definition spec_unregister :: "user_db \<Rightarrow> int \<Rightarrow> UserManagerResult \<times> user_db" where
  "spec_unregister db fd =
     (case db_session db fd of
        None \<Rightarrow> (USER_MANAGER_RESULT_NOT_FOUND, db)
      | Some n \<Rightarrow>
          (USER_MANAGER_RESULT_SUCCESS,
           db\<lparr>db_password := (db_password db)(n := None), db_session := (db_session db)(fd := None),
              db_groups := (db_groups db)(n := [])\<rparr>))"

text \<open>
  \<open>copied\<close> tells whether the group list and the copy of the name could be allocated, \<open>linked\<close>
  whether the list node could be; a failure of the latter goes unnoticed by \<open>User_AddGroup\<close>.
\<close>

definition spec_join :: "bool \<Rightarrow> bool \<Rightarrow> user_db \<Rightarrow> int \<Rightarrow> string \<Rightarrow> UserManagerResult \<times> user_db" where
  "spec_join copied linked db fd g =
     (case db_session db fd of
        None \<Rightarrow> (USER_MANAGER_RESULT_NOT_FOUND, db)
      | Some n \<Rightarrow>
          if g \<in> set (db_groups db n) then (USER_MANAGER_RESULT_ALREADY_IN_GROUP, db)
          else if \<not> copied then (USER_MANAGER_RESULT_INTERNAL_ERROR, db)
          else (USER_MANAGER_RESULT_SUCCESS,
                if linked then db\<lparr>db_groups := (db_groups db)(n := db_groups db n @ [g])\<rparr> else db))"

definition spec_leave :: "user_db \<Rightarrow> int \<Rightarrow> string \<Rightarrow> UserManagerResult \<times> user_db" where
  "spec_leave db fd g =
     (case db_session db fd of
        None \<Rightarrow> (USER_MANAGER_RESULT_NOT_FOUND, db)
      | Some n \<Rightarrow>
          if g \<notin> set (db_groups db n) then (USER_MANAGER_RESULT_NOT_IN_GROUP, db)
          else (USER_MANAGER_RESULT_SUCCESS,
                db\<lparr>db_groups := (db_groups db)(n := remove1 g (db_groups db n))\<rparr>))"

text \<open>What the listing says of one user.\<close>

definition db_line :: "user_db \<Rightarrow> string \<Rightarrow> string" where
  "db_line db n =
     n @ '' -> '' @ (if db_groups db n = [] then ''(none)'' else join '', '' (db_groups db n))"

section \<open>Representation\<close>

definition user_group_names :: "('l, 'i) name_list \<Rightarrow> 'l User \<Rightarrow> string list" where
  "user_group_names L u = (case user_groups u of None \<Rightarrow> [] | Some l \<Rightarrow> ListItems L l)"

definition user_ok :: "('l, 'i) name_list \<Rightarrow> 'l User \<Rightarrow> bool" where
  "user_ok L u \<longleftrightarrow>
     (user_state u = USER_STATE_OFFLINE \<longrightarrow> user_groups u = None)
     \<and> (\<forall>l. user_groups u = Some l \<longrightarrow> ListOk L l)
     \<and> distinct (user_group_names L u)"

definition um_inv :: "('n, 'f, 'l, 'i) user_lib \<Rightarrow> ('n, 'f, 'l) UserManager \<Rightarrow> bool" where
  "um_inv U um \<longleftrightarrow>
     HashMap_Ok (lib_byName U) (um_usersByName um) \<and> HashMap_Ok (lib_byFd U) (um_usersByFd um)
     \<and> (\<forall>n p. hm_lookup (lib_byName U) (um_usersByName um) n = Some p \<longrightarrow>
          (\<exists>u. um_heap um p = Some u \<and> user_username u = n))
     \<and> (\<forall>fd p. hm_lookup (lib_byFd U) (um_usersByFd um) fd = Some p \<longrightarrow>
          (\<exists>u. um_heap um p = Some u \<and> user_fdConnection u = fd \<and> user_state u = USER_STATE_ONLINE))
     \<and> (\<forall>p u. um_heap um p = Some u \<longrightarrow>
          p < um_next um \<and> user_ok (lib_list U) u
          \<and> hm_lookup (lib_byName U) (um_usersByName um) (user_username u) = Some p
          \<and> (user_state u = USER_STATE_ONLINE \<longrightarrow>
               hm_lookup (lib_byFd U) (um_usersByFd um) (user_fdConnection u) = Some p))"

definition user_named :: "('n, 'f, 'l, 'i) user_lib \<Rightarrow> ('n, 'f, 'l) UserManager \<Rightarrow> string \<Rightarrow> 'l User option" where
  "user_named U um n = Option.bind (hm_lookup (lib_byName U) (um_usersByName um) n) (um_heap um)"

definition user_connected :: "('n, 'f, 'l, 'i) user_lib \<Rightarrow> ('n, 'f, 'l) UserManager \<Rightarrow> int \<Rightarrow> 'l User option" where
  "user_connected U um fd = Option.bind (hm_lookup (lib_byFd U) (um_usersByFd um) fd) (um_heap um)"

definition um_db :: "('n, 'f, 'l, 'i) user_lib \<Rightarrow> ('n, 'f, 'l) UserManager \<Rightarrow> user_db" where
  "um_db U um =
     \<lparr>db_password = (\<lambda>n. map_option user_password (user_named U um n)),
      db_session = (\<lambda>fd. map_option user_username (user_connected U um fd)),
      db_groups = (\<lambda>n. case user_named U um n of None \<Rightarrow> [] | Some u \<Rightarrow> user_group_names (lib_list U) u)\<rparr>"

section \<open>Formatting one line\<close>

lemma format_groups_text:
  assumes "holds_text buf n pre" and "\<forall>g \<in> set gs. wire_name g"
  shows "\<exists>buf'. format_groups buf n (length pre) i gs = Some (USER_MANAGER_RESULT_SUCCESS, buf')
    \<and> holds_text buf' n (take (n - 1) (pre @ join_from '', '' (i = 0) gs))"
  using assms
proof (induction gs arbitrary: buf pre i)
  case Nil
  then show ?case by (simp add: holds_text_take)
next
  case (Cons g gs)
  let ?t = "if i = 0 then g else '', '' @ g"
  have g: "NUL \<notin> set g" "length g < 256" using Cons.prems(2) by (simp_all add: wire_name_def)
  have "NUL \<notin> set ?t" "length ?t \<le> 2147483647" using g by (auto simp: NUL_def)
  then obtain buf' where buf: "snprintf buf (length pre) (n - length pre) ?t = Some (int (length ?t), buf')"
      "holds_text buf' n (take (n - 1) (pre @ ?t))"
    using snprintf_holds [OF Cons.prems(1)] by blast
  show ?case
  proof (cases "length ?t \<ge> n - length pre")
    case True
    then have "take (n - 1) (pre @ ?t) = take (n - 1) (pre @ join_from '', '' (i = 0) (g # gs))" by simp
    moreover have "format_groups buf n (length pre) i (g # gs) = Some (USER_MANAGER_RESULT_SUCCESS, buf')"
      using True buf(1) by simp
    ultimately show ?thesis using buf(2) by metis
  next
    case False
    then have "take (n - 1) (pre @ ?t) = pre @ ?t" by simp
    with buf(2) have h: "holds_text buf' n (pre @ ?t)" by simp
    have "format_groups buf n (length pre) i (g # gs) = format_groups buf' n (length (pre @ ?t)) (Suc i) gs"
      using False buf(1) by simp
    moreover have "(pre @ ?t) @ join_from '', '' (Suc i = 0) gs = pre @ join_from '', '' (i = 0) (g # gs)"
      by simp
    ultimately show ?thesis using Cons.IH [OF h, of "Suc i"] Cons.prems(2)
      by (metis list.set_intros(2))
  qed
qed

text \<open>The ideal text of a line, and the line the formatter leaves in the buffer.\<close>

definition user_line :: "('l, 'i) name_list \<Rightarrow> 'l User \<Rightarrow> string" where
  "user_line L u =
     user_username u @ '' -> ''
     @ (if user_group_names L u = [] then ''(none)'' else join '', '' (user_group_names L u))"

lemma FormatUserGroupsLine_text:
  assumes "dlist L" and "user_ok L u" and "wire_name (user_username u)"
    and "\<forall>g \<in> set (user_group_names L u). wire_name g" and "0 < n" and "n \<le> length buf"
  shows "if length (user_username u) + 4 < n
    then \<exists>buf'. FormatUserGroupsLine L (Some u) (Some buf) n = Some (USER_MANAGER_RESULT_SUCCESS, Some buf')
           \<and> holds_text buf' n (take (n - 1) (user_line L u))
    else \<exists>buf'. FormatUserGroupsLine L (Some u) (Some buf) n = Some (USER_MANAGER_RESULT_INTERNAL_ERROR, Some buf')"
proof -
  let ?t = "user_username u @ '' -> ''"
  have t: "NUL \<notin> set ?t" "length ?t \<le> 2147483647" using assms(3) by (auto simp: wire_name_def NUL_def)
  obtain buf0 where b0: "mem_write buf 0 [NUL] = Some buf0" "holds_text buf0 n []"
    using holds_text_start [OF assms(5,6)] by blast
  obtain buf1 where b1: "snprintf buf0 0 n ?t = Some (int (length ?t), buf1)" "holds_text buf1 n (take (n - 1) ?t)"
    using snprintf_holds [OF b0(2) t] by auto
  have u4: "nat (4 + int (length (user_username u))) = Suc (Suc (Suc (Suc (length (user_username u)))))" by linarith
  show ?thesis
  proof (cases "length (user_username u) + 4 < n")
    case False
    then show ?thesis using b0 b1 assms(5) by (simp add: FormatUserGroupsLine_def u4)
  next
    case True
    then have h: "holds_text buf1 n ?t" using b1(2) by simp
    obtain buf2 where b2: "snprintf buf1 (length ?t) (n - length ?t) ''(none)'' = Some (6, buf2)"
        "holds_text buf2 n (take (n - 1) (?t @ ''(none)''))"
      using snprintf_holds [OF h, of "''(none)''"] by (auto simp: NUL_def)
    obtain buf3 where b3: "format_groups buf1 n (length ?t) 0 (user_group_names L u) = Some (USER_MANAGER_RESULT_SUCCESS, buf3)"
        "holds_text buf3 n (take (n - 1) (?t @ join '', '' (user_group_names L u)))"
      using format_groups_text [OF h assms(4), of 0] by auto
    note common = FormatUserGroupsLine_def User_GetGroups_def user_line_def user_group_names_def Let_def
    show ?thesis
    proof (cases "user_groups u")
      case None
      then show ?thesis using True b0 b1(1) b2 assms(5) by (simp add: common u4)
    next
      case (Some l)
      moreover have "ListSize L l = length (ListItems L l)"
        using assms(1,2) Some dlist.list_size by (auto simp: user_ok_def)
      ultimately show ?thesis using True b0 b1(1) b2 b3 assms(5)
        by (cases "ListItems L l = []") (simp_all add: common u4)
    qed
  qed
qed

text \<open>Registered names and group names fit a message.\<close>

definition db_wire :: "user_db \<Rightarrow> bool" where
  "db_wire db \<longleftrightarrow>
     (\<forall>n \<in> dom (db_password db). wire_name n) \<and> (\<forall>n. \<forall>g \<in> set (db_groups db n). wire_name g)"

definition listed_lines :: "user_db \<Rightarrow> string list \<Rightarrow> string list" where
  "listed_lines db ns =
     map (\<lambda>n. take 255 (db_line db n)) (filter (\<lambda>n. length n + 4 < CONF_USER_GROUPS_LINE_BUF_SIZE) ns)"

section \<open>The locale of a user registry over a correct library\<close>

locale user_store =
  by_name: hash_map "lib_byName U" + by_fd: hash_map "lib_byFd U" + name_list: dlist "lib_list U"
  for U :: "('n, 'f, 'l, 'i) user_lib" +
  assumes line_size: "length (uninit_line U) = CONF_USER_GROUPS_LINE_BUF_SIZE"
begin

abbreviation names where "names um \<equiv> hm_lookup (lib_byName U) (um_usersByName um)"
abbreviation fds where "fds um \<equiv> hm_lookup (lib_byFd U) (um_usersByFd um)"

lemma inv_ok: "um_inv U um \<Longrightarrow> HashMap_Ok (lib_byName U) (um_usersByName um) \<and> HashMap_Ok (lib_byFd U) (um_usersByFd um)"
  by (simp add: um_inv_def)

lemma namesD: "um_inv U um \<Longrightarrow> names um n = Some p \<Longrightarrow> \<exists>u. um_heap um p = Some u \<and> user_username u = n"
  by (simp add: um_inv_def)

lemma fdsD: "um_inv U um \<Longrightarrow> fds um fd = Some p \<Longrightarrow>
    \<exists>u. um_heap um p = Some u \<and> user_fdConnection u = fd \<and> user_state u = USER_STATE_ONLINE"
  by (simp add: um_inv_def)

lemma heapD: "um_inv U um \<Longrightarrow> um_heap um p = Some u \<Longrightarrow>
    p < um_next um \<and> user_ok (lib_list U) u \<and> names um (user_username u) = Some p
    \<and> (user_state u = USER_STATE_ONLINE \<longrightarrow> fds um (user_fdConnection u) = Some p)"
  by (simp add: um_inv_def)

lemma um_invI:
  assumes "HashMap_Ok (lib_byName U) (um_usersByName um)" and "HashMap_Ok (lib_byFd U) (um_usersByFd um)"
    and "\<And>n p. names um n = Some p \<Longrightarrow> \<exists>u. um_heap um p = Some u \<and> user_username u = n"
    and "\<And>fd p. fds um fd = Some p \<Longrightarrow>
           \<exists>u. um_heap um p = Some u \<and> user_fdConnection u = fd \<and> user_state u = USER_STATE_ONLINE"
    and "\<And>p u. um_heap um p = Some u \<Longrightarrow>
           p < um_next um \<and> user_ok (lib_list U) u \<and> names um (user_username u) = Some p
           \<and> (user_state u = USER_STATE_ONLINE \<longrightarrow> fds um (user_fdConnection u) = Some p)"
  shows "um_inv U um"
  using assms by (auto simp: um_inv_def)

lemma find_by_fd_eq [simp]: "um_inv U um \<Longrightarrow> find_by_fd U um fd = fds um fd"
  by (simp add: find_by_fd_def by_fd.find_eq inv_ok split: option.split)

lemma find_by_name_eq [simp]: "um_inv U um \<Longrightarrow> find_by_name U um n = names um n"
  by (simp add: find_by_name_def by_name.find_eq inv_ok split: option.split)

lemma names_inj: "um_inv U um \<Longrightarrow> names um m = Some p \<Longrightarrow> names um n = Some p \<Longrightarrow> m = n"
  by (metis namesD option.inject)

lemma fds_inj: "um_inv U um \<Longrightarrow> fds um a = Some p \<Longrightarrow> fds um b = Some p \<Longrightarrow> a = b"
  by (metis fdsD option.inject)

text \<open>What a pointer found under a connection means for the database.\<close>

lemma db_of_fd:
  assumes "um_inv U um" and "fds um fd = Some p"
  obtains u where "um_heap um p = Some u" and "user_fdConnection u = fd"
    and "user_state u = USER_STATE_ONLINE" and "names um (user_username u) = Some p"
    and "db_session (um_db U um) fd = Some (user_username u)"
    and "db_groups (um_db U um) (user_username u) = user_group_names (lib_list U) u"
    and "user_ok (lib_list U) u"
proof -
  obtain u where u: "um_heap um p = Some u" "user_fdConnection u = fd" "user_state u = USER_STATE_ONLINE"
    using fdsD [OF assms] by blast
  moreover have "names um (user_username u) = Some p" "user_ok (lib_list U) u"
    using heapD [OF assms(1) u(1)] by auto
  ultimately show ?thesis
    using assms(2) that by (simp add: um_db_def user_named_def user_connected_def)
qed

lemma db_of_no_fd: "fds um fd = None \<Longrightarrow> db_session (um_db U um) fd = None"
  by (simp add: um_db_def user_connected_def)

lemma session_iff: "um_inv U um \<Longrightarrow> db_session (um_db U um) fd = None \<longleftrightarrow> fds um fd = None"
  using db_of_fd db_of_no_fd by (metis not_Some_eq)

lemma password_iff: "um_inv U um \<Longrightarrow> db_password (um_db U um) n = None \<longleftrightarrow> names um n = None"
  by (cases "names um n") (auto simp: um_db_def user_named_def dest: namesD)

lemma online_iff:
  assumes "um_inv U um" and "names um n = Some p" and "um_heap um p = Some u"
  shows "n \<in> ran (db_session (um_db U um)) \<longleftrightarrow> user_state u = USER_STATE_ONLINE"
proof
  assume "user_state u = USER_STATE_ONLINE"
  then have "fds um (user_fdConnection u) = Some p" using heapD [OF assms(1,3)] by simp
  moreover have "user_username u = n" using namesD [OF assms(1,2)] assms(3) by simp
  ultimately have "db_session (um_db U um) (user_fdConnection u) = Some n"
    using assms by (auto elim: db_of_fd)
  then show "n \<in> ran (db_session (um_db U um))" by (auto simp: ran_def)
next
  assume "n \<in> ran (db_session (um_db U um))"
  then obtain fd where fd: "db_session (um_db U um) fd = Some n" by (auto simp: ran_def)
  then obtain q where q: "fds um fd = Some q" using db_of_no_fd by (cases "fds um fd") auto
  from db_of_fd [OF assms(1) q] fd assms show "user_state u = USER_STATE_ONLINE" by (metis option.inject)
qed

lemma um_db_ok:
  assumes "um_inv U um" shows "db_ok (um_db U um)"
proof -
  have sess: "\<exists>p u. fds um fd = Some p \<and> um_heap um p = Some u \<and> user_username u = n \<and> names um n = Some p"
    if "db_session (um_db U um) fd = Some n" for fd n
    using that db_of_fd [OF assms] db_of_no_fd by (metis not_Some_eq option.inject)
  have "ran (db_session (um_db U um)) \<subseteq> dom (db_password (um_db U um))"
  proof
    fix n assume "n \<in> ran (db_session (um_db U um))"
    then obtain fd p where "names um n = Some p" using sess by (auto simp: ran_def)
    then show "n \<in> dom (db_password (um_db U um))"
      using password_iff [OF assms, of n] by (cases "db_password (um_db U um) n") auto
  qed
  moreover have "inj_on (db_session (um_db U um)) (dom (db_session (um_db U um)))"
    by (rule inj_onI) (metis domD sess fds_inj [OF assms] option.inject)
  moreover have "n \<in> ran (db_session (um_db U um))" if "db_groups (um_db U um) n \<noteq> []" for n
  proof -
    from that obtain p u where p: "names um n = Some p" "um_heap um p = Some u"
        "user_group_names (lib_list U) u \<noteq> []"
      by (cases "names um n") (auto simp: um_db_def user_named_def split: option.splits)
    then have "user_state u \<noteq> USER_STATE_OFFLINE"
      using heapD [OF assms p(2)] by (auto simp: user_ok_def user_group_names_def)
    then show ?thesis using online_iff [OF assms p(1,2)] by (cases "user_state u") auto
  qed
  moreover have "distinct (db_groups (um_db U um) n)" for n
    by (cases "names um n")
      (auto simp: um_db_def user_named_def user_ok_def dest: heapD [OF assms] split: option.split)
  ultimately show ?thesis by (simp add: db_ok_def)
qed

text \<open>Replacing the group list of a connected user.\<close>

lemma update_groups:
  assumes "um_inv U um" and "fds um fd = Some p" and "um_heap um p = Some u"
    and "u' = u\<lparr>user_groups := gs\<rparr>" and "user_ok (lib_list U) u'"
  shows "um_inv U (put_user p (Some u') um)"
    and "um_db U (put_user p (Some u') um) =
      (um_db U um)\<lparr>db_groups := (db_groups (um_db U um))(user_username u := user_group_names (lib_list U) u')\<rparr>"
proof -
  note hp = heapD [OF assms(1,3)]
  show "um_inv U (put_user p (Some u') um)"
    using inv_ok [OF assms(1)] hp assms(3,4,5)
    by (intro um_invI) (auto simp: put_user_def dest: namesD [OF assms(1)] fdsD [OF assms(1)]
        heapD [OF assms(1)] split: if_splits)
  have "user_named U (put_user p (Some u') um) = (user_named U um)(user_username u \<mapsto> u')"
    using hp names_inj [OF assms(1)] by (auto simp: user_named_def put_user_def fun_eq_iff bind_eq_Some_conv
        split: if_splits bind_splits)
  moreover have "user_connected U (put_user p (Some u') um) = (user_connected U um)(fd \<mapsto> u')"
    using assms(2) fds_inj [OF assms(1)] by (auto simp: user_connected_def put_user_def fun_eq_iff split: bind_splits)
  moreover have "user_connected U um fd = Some u" "user_named U um (user_username u) = Some u"
    using assms(2,3) hp by (simp_all add: user_connected_def user_named_def)
  ultimately show "um_db U (put_user p (Some u') um) =
      (um_db U um)\<lparr>db_groups := (db_groups (um_db U um))(user_username u := user_group_names (lib_list U) u')\<rparr>"
    using assms(4) by (auto simp: um_db_def fun_eq_iff)
qed

section \<open>Joining and leaving\<close>

lemma is_in_group:
  assumes "user_ok (lib_list U) u"
  shows "User_IsInGroup (lib_list U) (Some u) (Some g) = None \<longleftrightarrow> g \<notin> set (user_group_names (lib_list U) u)"
  using assms name_list.list_find_none
  by (auto simp: User_IsInGroup_def user_group_names_def user_ok_def split: option.splits)

lemma same_user_groups [simp]: "\<exists>gs. u = u\<lparr>user_groups := gs\<rparr>"
  by (rule exI [of _ "user_groups u"]) simp

text \<open>The list that \<open>User_AddGroup\<close> leaves in a user that is not in the group yet.\<close>

lemma pushed_user:
  fixes u :: "'l User"
  assumes "ListOk (lib_list U) l" and "distinct (ListItems (lib_list U) l)" and "g \<notin> set (ListItems (lib_list U) l)"
    and "user_state u = USER_STATE_ONLINE"
    and "u' = u\<lparr>user_groups := Some (if c then snd (ListPushTail (lib_list U) b l g) else l)\<rparr>"
  shows "user_ok (lib_list U) u'"
    and "user_group_names (lib_list U) u' = ListItems (lib_list U) l @ (if c \<and> b then [g] else [])"
  using assms name_list.push_items [OF assms(1), of b g] by (auto simp: user_ok_def user_group_names_def)

lemma User_AddGroup_correct:
  assumes "user_ok (lib_list U) u" and "user_state u = USER_STATE_ONLINE"
  obtains r u' copied where "User_AddGroup (lib_list U) mem (Some u) (Some g) = (r, Some u')"
    and "\<exists>gs. u' = u\<lparr>user_groups := gs\<rparr>" and "user_ok (lib_list U) u'"
    and "mem Alloc_List \<and> mem Alloc_GroupNameCopy \<longrightarrow> copied"
    and "r = (if g \<in> set (user_group_names (lib_list U) u) then USER_RESULT_ALREADY_IN_GROUP
              else if copied then USER_RESULT_SUCCESS else USER_RESULT_ALLOCATION_FAILED)"
    and "user_group_names (lib_list U) u' =
      (if g \<in> set (user_group_names (lib_list U) u) \<or> \<not> copied \<or> \<not> mem Alloc_ListNode
       then user_group_names (lib_list U) u else user_group_names (lib_list U) u @ [g])"
proof -
  let ?r = "if mem Alloc_GroupNameCopy then USER_RESULT_SUCCESS else USER_RESULT_ALLOCATION_FAILED"
  let ?u = "\<lambda>l. u\<lparr>user_groups := Some (if mem Alloc_GroupNameCopy
               then snd (ListPushTail (lib_list U) (mem Alloc_ListNode) l g) else l)\<rparr>"
  show ?thesis
  proof (cases "user_groups u")
    case None
    show ?thesis
    proof (cases "mem Alloc_List")
      case False
      show ?thesis
        by (rule that [of USER_RESULT_ALLOCATION_FAILED u False])
          (use None False assms name_list.list_create_fail in \<open>auto simp: User_AddGroup_def user_group_names_def\<close>)
    next
      case True
      obtain l where l: "ListCreate (lib_list U) True = Some l" "ListOk (lib_list U) l" "ListItems (lib_list U) l = []"
        using name_list.list_create by blast
      note pu = pushed_user [OF l(2) _ _ assms(2) refl, of g "mem Alloc_GroupNameCopy" "mem Alloc_ListNode"]
      show ?thesis
        by (rule that [of ?r "?u l" "mem Alloc_GroupNameCopy"])
          (use None True l pu in \<open>auto simp: User_AddGroup_def user_group_names_def networkCopyString_def\<close>)
    qed
  next
    case (Some l)
    have ok: "ListOk (lib_list U) l" "distinct (ListItems (lib_list U) l)"
        "user_group_names (lib_list U) u = ListItems (lib_list U) l"
      using assms Some by (auto simp: user_ok_def user_group_names_def)
    note mem_iff = is_in_group [OF assms(1), of g]
    show ?thesis
    proof (cases "g \<in> set (ListItems (lib_list U) l)")
      case True
      show ?thesis
        by (rule that [of USER_RESULT_ALREADY_IN_GROUP u True])
          (use Some True assms ok mem_iff in \<open>auto simp: User_AddGroup_def\<close>)
    next
      case False
      show ?thesis
        by (rule that [of ?r "?u l" "mem Alloc_GroupNameCopy"])
          (use Some False ok mem_iff pushed_user [OF ok(1,2) False assms(2) refl, of "mem Alloc_GroupNameCopy" "mem Alloc_ListNode"]
            in \<open>auto simp: User_AddGroup_def networkCopyString_def\<close>)
    qed
  qed
qed

lemma join_refines:
  assumes "um_inv U um"
  shows "\<exists>copied um'. (mem Alloc_List \<and> mem Alloc_GroupNameCopy \<longrightarrow> copied)
      \<and> UserManager_AddUserToGroup U mem (Some um) fd (Some g) =
          Some (fst (spec_join copied (mem Alloc_ListNode) (um_db U um) fd g), Some um')
      \<and> um_inv U um' \<and> um_db U um' = snd (spec_join copied (mem Alloc_ListNode) (um_db U um) fd g)"
proof (cases "fds um fd")
  case None
  then show ?thesis using assms db_of_no_fd
    by (auto simp: UserManager_AddUserToGroup_def spec_join_def)
next
  case (Some p)
  obtain u where u: "um_heap um p = Some u" "user_state u = USER_STATE_ONLINE"
      "db_session (um_db U um) fd = Some (user_username u)"
      "db_groups (um_db U um) (user_username u) = user_group_names (lib_list U) u" "user_ok (lib_list U) u"
    using db_of_fd [OF assms Some] by metis
  obtain r u' copied where a: "User_AddGroup (lib_list U) mem (Some u) (Some g) = (r, Some u')"
      "\<exists>gs. u' = u\<lparr>user_groups := gs\<rparr>" "user_ok (lib_list U) u'"
      "mem Alloc_List \<and> mem Alloc_GroupNameCopy \<longrightarrow> copied"
      "r = (if g \<in> set (user_group_names (lib_list U) u) then USER_RESULT_ALREADY_IN_GROUP
              else if copied then USER_RESULT_SUCCESS else USER_RESULT_ALLOCATION_FAILED)"
      "user_group_names (lib_list U) u' =
      (if g \<in> set (user_group_names (lib_list U) u) \<or> \<not> copied \<or> \<not> mem Alloc_ListNode
       then user_group_names (lib_list U) u else user_group_names (lib_list U) u @ [g])"
    using User_AddGroup_correct [OF u(5,2), of mem g] .
  obtain gs where gs: "u' = u\<lparr>user_groups := gs\<rparr>" using a(2) by blast
  note up = update_groups [OF assms Some u(1) gs a(3)]
  have same: "(um_db U um)\<lparr>db_groups := (db_groups (um_db U um))(user_username u := user_group_names (lib_list U) u)\<rparr>
      = um_db U um" unfolding u(4) [symmetric] by simp
  show ?thesis
    using assms Some u(1-3) a up(1) same
    by (intro exI [of _ copied] exI [of _ "put_user p (Some u') um"])
      (auto simp: UserManager_AddUserToGroup_def user_at_def User_GetState_def spec_join_def u(4) up(2))
qed

lemma User_RemoveGroup_correct:
  assumes "user_ok (lib_list U) u"
  obtains u' where "User_RemoveGroup (lib_list U) (Some u) (Some g) =
      (if g \<in> set (user_group_names (lib_list U) u) then USER_RESULT_SUCCESS else USER_RESULT_NOT_IN_GROUP, Some u')"
    and "\<exists>gs. u' = u\<lparr>user_groups := gs\<rparr>" and "user_ok (lib_list U) u'"
    and "user_group_names (lib_list U) u' = remove1 g (user_group_names (lib_list U) u)"
proof (cases "User_IsInGroup (lib_list U) (Some u) (Some g)")
  case None
  with is_in_group [OF assms] have "g \<notin> set (user_group_names (lib_list U) u)" by simp
  with None assms show ?thesis by (intro that [of u]) (auto simp: User_RemoveGroup_def remove1_idem)
next
  case (Some i)
  then obtain l where l: "user_groups u = Some l" "ListFind (lib_list U) l g c_strcmp = Some i"
    by (auto simp: User_IsInGroup_def split: option.splits)
  have g: "g \<in> set (user_group_names (lib_list U) u)" using is_in_group [OF assms, of g] Some by simp
  have "ListOk (lib_list U) l" using assms l by (simp add: user_ok_def)
  from name_list.find_remove [OF this l(2)] obtain ys zs l' where
    r: "ListItems (lib_list U) l = ys @ g # zs" "g \<notin> set ys" "ListItrRemove (lib_list U) l i = (Some g, l')"
      "ListOk (lib_list U) l'" "ListItems (lib_list U) l' = ys @ zs" by auto
  show ?thesis
    by (rule that [of "u\<lparr>user_groups := Some l'\<rparr>"])
      (use assms Some l r g in \<open>auto simp: User_RemoveGroup_def user_group_names_def user_ok_def remove1_append\<close>)
qed

lemma leave_refines:
  assumes "um_inv U um"
  shows "\<exists>um'. UserManager_RemoveUserFromGroup U (Some um) fd (Some g) =
            Some (fst (spec_leave (um_db U um) fd g), Some um')
          \<and> um_inv U um' \<and> um_db U um' = snd (spec_leave (um_db U um) fd g)"
proof (cases "fds um fd")
  case None
  then show ?thesis using assms db_of_no_fd
    by (auto simp: UserManager_RemoveUserFromGroup_def spec_leave_def)
next
  case (Some p)
  obtain u where u: "um_heap um p = Some u" "db_session (um_db U um) fd = Some (user_username u)"
      "db_groups (um_db U um) (user_username u) = user_group_names (lib_list U) u" "user_ok (lib_list U) u"
    using db_of_fd [OF assms Some] by metis
  obtain u' where a: "User_RemoveGroup (lib_list U) (Some u) (Some g) =
      (if g \<in> set (user_group_names (lib_list U) u) then USER_RESULT_SUCCESS else USER_RESULT_NOT_IN_GROUP, Some u')"
      "\<exists>gs. u' = u\<lparr>user_groups := gs\<rparr>" "user_ok (lib_list U) u'"
      "user_group_names (lib_list U) u' = remove1 g (user_group_names (lib_list U) u)"
    using User_RemoveGroup_correct [OF u(4), of g] .
  obtain gs where gs: "u' = u\<lparr>user_groups := gs\<rparr>" using a(2) by blast
  note up = update_groups [OF assms Some u(1) gs a(3)]
  have same: "(um_db U um)\<lparr>db_groups := (db_groups (um_db U um))(user_username u := user_group_names (lib_list U) u)\<rparr>
      = um_db U um" unfolding u(3) [symmetric] by simp
  show ?thesis
    using assms Some u(1,2) a up(1) same
    by (intro exI [of _ "put_user p (Some u') um"])
      (auto simp: UserManager_RemoveUserFromGroup_def user_at_def spec_leave_def u(3) up(2) remove1_idem)
qed

section \<open>Sessions\<close>

lemma user_named_put:
  assumes "um_inv U um" and "um_heap um p = Some u" and "user_username u' = user_username u"
  shows "user_named U (put_user p (Some u') (um\<lparr>um_usersByFd := f\<rparr>)) = (user_named U um)(user_username u \<mapsto> u')"
  using heapD [OF assms(1,2)] names_inj [OF assms(1)]
  by (auto simp: user_named_def put_user_def fun_eq_iff split: bind_splits)

lemma logout_refines:
  assumes "um_inv U um"
  shows "\<exists>um' out'. UserManager_Logout U mem (Some um) fd out =
            Some (fst (spec_logout (um_db U um) fd), out', Some um')
          \<and> um_inv U um' \<and> um_db U um' = snd (spec_logout (um_db U um) fd)"
proof (cases "fds um fd")
  case None
  then show ?thesis using assms db_of_no_fd by (auto simp: UserManager_Logout_def spec_logout_def)
next
  case (Some p)
  obtain u where u: "um_heap um p = Some u" "user_fdConnection u = fd" "user_state u = USER_STATE_ONLINE"
      "names um (user_username u) = Some p" "db_session (um_db U um) fd = Some (user_username u)"
    using db_of_fd [OF assms Some] by metis
  obtain f where f: "HashMap_Remove (lib_byFd U) (um_usersByFd um) fd = (MAP_SUCCESS, Some (fd, p), f)"
      "HashMap_Ok (lib_byFd U) f" "hm_lookup (lib_byFd U) f = (fds um)(fd := None)"
    using by_fd.remove_hit inv_ok [OF assms] Some by blast
  let ?u = "u\<lparr>user_groups := None, user_state := USER_STATE_OFFLINE, user_fdConnection := - 1\<rparr>"
  let ?um = "put_user p (Some ?u) (um\<lparr>um_usersByFd := f\<rparr>)"
  have inj: "fds um b = Some p \<Longrightarrow> b = fd" for b using fds_inj [OF assms _ Some] .
  have inv: "um_inv U ?um"
  proof (rule um_invI)
    fix n q assume "names ?um n = Some q"
    then show "\<exists>u. um_heap ?um q = Some u \<and> user_username u = n"
      using namesD [OF assms, of n q] u(1) by (cases "q = p") (auto simp: put_user_def)
  next
    fix b q assume "fds ?um b = Some q"
    then have "fds um b = Some q" "b \<noteq> fd" using f by (auto simp: put_user_def split: if_splits)
    then show "\<exists>u. um_heap ?um q = Some u \<and> user_fdConnection u = b \<and> user_state u = USER_STATE_ONLINE"
      using fdsD [OF assms, of b q] inj [of b] by (cases "q = p") (auto simp: put_user_def)
  next
    fix q v assume "um_heap ?um q = Some v"
    then show "q < um_next ?um \<and> user_ok (lib_list U) v \<and> names ?um (user_username v) = Some q
        \<and> (user_state v = USER_STATE_ONLINE \<longrightarrow> fds ?um (user_fdConnection v) = Some q)"
      using heapD [OF assms, of q v] heapD [OF assms u(1)] f Some
      by (cases "q = p") (auto simp: put_user_def user_ok_def user_group_names_def)
  qed (use inv_ok [OF assms] f in \<open>simp_all add: put_user_def\<close>)
  have named: "user_named U ?um = (user_named U um)(user_username u \<mapsto> ?u)"
    by (rule user_named_put [OF assms u(1)]) simp
  have conn: "user_connected U ?um = (user_connected U um)(fd := None)"
    using f inj by (auto simp: user_connected_def put_user_def fun_eq_iff split: bind_splits)
  have "user_named U um (user_username u) = Some u" using u by (simp add: user_named_def)
  then have db: "um_db U ?um = snd (spec_logout (um_db U um) fd)"
    using u(5) by (auto simp: spec_logout_def um_db_def named conn fun_eq_iff user_group_names_def)
  show ?thesis using assms Some u f inv db
    by (auto simp: UserManager_Logout_def user_at_def User_GetState_def User_DestroyGroups_def User_SetState_def
        User_SetFdConnection_def spec_logout_def)
qed

lemma logout_name:
  assumes "um_inv U um" and "db_session (um_db U um) fd = Some n"
    and "UserManager_Logout U mem (Some um) fd (Some old) = Some (r, out', um')"
  shows "out' = Some (networkCopyString (mem Alloc_LogoutName) n)"
proof -
  obtain p where p: "fds um fd = Some p" using assms(1,2) session_iff by (metis option.distinct(1) not_Some_eq)
  then obtain u where "um_heap um p = Some u" "user_state u = USER_STATE_ONLINE" "user_username u = n"
    using db_of_fd [OF assms(1) p] assms(2) by (metis option.inject)
  then show ?thesis using assms(1,3) p
    by (auto simp: UserManager_Logout_def user_at_def User_GetState_def User_DestroyGroups_def User_SetState_def
        User_SetFdConnection_def split: prod.splits)
qed

text \<open>
  Setting the connection of an offline user, as a login does before it knows whether the
  connection is free: the database is unchanged.
\<close>

lemma preset_connection:
  assumes "um_inv U um" and "um_heap um p = Some u" and "user_state u = USER_STATE_OFFLINE"
  shows "um_inv U (put_user p (Some (u\<lparr>user_fdConnection := fd\<rparr>)) um)" (is "um_inv U ?um")
    and "um_db U (put_user p (Some (u\<lparr>user_fdConnection := fd\<rparr>)) um) = um_db U um"
proof -
  have off: "fds um b \<noteq> Some p" for b using fdsD [OF assms(1), of b p] assms(2,3) by auto
  show "um_inv U ?um"
  proof (rule um_invI)
    fix n q assume "names ?um n = Some q"
    then show "\<exists>u. um_heap ?um q = Some u \<and> user_username u = n"
      using namesD [OF assms(1), of n q] assms(2) by (cases "q = p") (auto simp: put_user_def)
  next
    fix b q assume "fds ?um b = Some q"
    then show "\<exists>u. um_heap ?um q = Some u \<and> user_fdConnection u = b \<and> user_state u = USER_STATE_ONLINE"
      using fdsD [OF assms(1), of b q] off [of b] by (cases "q = p") (auto simp: put_user_def)
  next
    fix q v assume "um_heap ?um q = Some v"
    then show "q < um_next ?um \<and> user_ok (lib_list U) v \<and> names ?um (user_username v) = Some q
        \<and> (user_state v = USER_STATE_ONLINE \<longrightarrow> fds ?um (user_fdConnection v) = Some q)"
      using heapD [OF assms(1), of q v] heapD [OF assms(1,2)] assms(3)
      by (cases "q = p") (auto simp: put_user_def user_ok_def user_group_names_def)
  qed (use inv_ok [OF assms(1)] in \<open>simp_all add: put_user_def\<close>)
  have named: "user_named U ?um = (user_named U um)(user_username u \<mapsto> u\<lparr>user_fdConnection := fd\<rparr>)"
    using user_named_put [OF assms(1,2), of "u\<lparr>user_fdConnection := fd\<rparr>" "um_usersByFd um"] by simp
  have conn: "user_connected U ?um = user_connected U um"
    using off by (auto simp: user_connected_def put_user_def fun_eq_iff split: bind_splits)
  have "user_named U um (user_username u) = Some u"
    using heapD [OF assms(1,2)] assms(2) by (simp add: user_named_def)
  then show "um_db U ?um = um_db U um"
    by (auto simp: um_db_def named conn fun_eq_iff user_group_names_def)
qed

text \<open>An offline user takes a free connection.\<close>

lemma connect_user:
  assumes "um_inv U um" and "um_heap um p = Some u" and "user_state u = USER_STATE_OFFLINE"
    and "fds um fd = None" and "HashMap_Ok (lib_byFd U) f" and "hm_lookup (lib_byFd U) f = (fds um)(fd \<mapsto> p)"
    and "u' = u\<lparr>user_fdConnection := fd, user_state := USER_STATE_ONLINE\<rparr>"
  shows "um_inv U (put_user p (Some u') (um\<lparr>um_usersByFd := f\<rparr>))" (is "um_inv U ?um")
    and "um_db U (put_user p (Some u') (um\<lparr>um_usersByFd := f\<rparr>)) =
      (um_db U um)\<lparr>db_session := (db_session (um_db U um))(fd \<mapsto> user_username u)\<rparr>"
proof -
  have off: "fds um b \<noteq> Some p" for b using fdsD [OF assms(1), of b p] assms(2,3) by auto
  show "um_inv U ?um"
  proof (rule um_invI)
    fix n q assume "names ?um n = Some q"
    then show "\<exists>u. um_heap ?um q = Some u \<and> user_username u = n"
      using namesD [OF assms(1), of n q] assms(2,7) by (cases "q = p") (auto simp: put_user_def)
  next
    fix b q assume "fds ?um b = Some q"
    then have "b = fd \<and> q = p \<or> b \<noteq> fd \<and> fds um b = Some q"
      using assms(6) by (auto simp: put_user_def split: if_splits)
    then show "\<exists>u. um_heap ?um q = Some u \<and> user_fdConnection u = b \<and> user_state u = USER_STATE_ONLINE"
      using fdsD [OF assms(1), of b q] off [of b] assms(7) by (cases "q = p") (auto simp: put_user_def)
  next
    fix q v assume "um_heap ?um q = Some v"
    then show "q < um_next ?um \<and> user_ok (lib_list U) v \<and> names ?um (user_username v) = Some q
        \<and> (user_state v = USER_STATE_ONLINE \<longrightarrow> fds ?um (user_fdConnection v) = Some q)"
      using heapD [OF assms(1), of q v] heapD [OF assms(1,2)] assms(3,4,6,7)
      by (cases "q = p") (auto simp: put_user_def user_ok_def user_group_names_def)
  qed (use inv_ok [OF assms(1)] assms(5) in \<open>simp_all add: put_user_def\<close>)
  have named: "user_named U ?um = (user_named U um)(user_username u \<mapsto> u')"
    by (rule user_named_put [OF assms(1,2)]) (simp add: assms(7))
  have conn: "user_connected U ?um = (user_connected U um)(fd \<mapsto> u')"
    using off assms(6) by (auto simp: user_connected_def put_user_def fun_eq_iff split: bind_splits)
  have "user_named U um (user_username u) = Some u"
    using heapD [OF assms(1,2)] assms(2) by (simp add: user_named_def)
  moreover have "user_username u' = user_username u" "user_password u' = user_password u"
      "user_group_names (lib_list U) u' = user_group_names (lib_list U) u"
    by (simp_all add: assms(7) user_group_names_def)
  ultimately show "um_db U ?um = (um_db U um)\<lparr>db_session := (db_session (um_db U um))(fd \<mapsto> user_username u)\<rparr>"
    by (auto simp: um_db_def named conn fun_eq_iff)
qed

lemma login_refines:
  assumes "um_inv U um"
  shows "\<exists>um'. UserManager_Login U mem (Some um) fd (Some n) (Some pw) =
            Some (fst (spec_login mem (um_db U um) fd n pw), Some um')
          \<and> um_inv U um' \<and> um_db U um' = snd (spec_login mem (um_db U um) fd n pw)"
proof (cases "names um n")
  case None
  then show ?thesis using assms password_iff [OF assms, of n]
    by (auto simp: UserManager_Login_def spec_login_def)
next
  case (Some p)
  then obtain u where u: "um_heap um p = Some u" "user_username u = n" using namesD [OF assms] by blast
  have pw: "db_password (um_db U um) n = Some (user_password u)"
    using Some u by (simp add: um_db_def user_named_def)
  note on = online_iff [OF assms Some u(1)]
  note defs = UserManager_Login_def user_at_def User_GetState_def User_SetFdConnection_def User_GetFdConnection_def
    User_SetState_def spec_login_def
  show ?thesis
  proof (cases "user_state u = USER_STATE_ONLINE \<or> user_password u \<noteq> pw")
    case True
    then show ?thesis using assms Some u pw on by (cases "user_state u") (auto simp: defs)
  next
    case False
    then have off: "user_state u = USER_STATE_OFFLINE" "user_password u = pw" by (cases "user_state u"; auto)+
    note pre = preset_connection [OF assms u(1) off(1), of fd]
    obtain r f where ins: "HashMap_Insert (lib_byFd U) (mem Alloc_MapByFd) (um_usersByFd um) fd p = (r, f)"
      by fastforce
    have same: "put_user p v (um\<lparr>um_usersByFd := um_usersByFd um\<rparr>) = put_user p v um" for v by simp
    from inv_ok [OF assms, THEN conjunct2] ins show ?thesis
    proof (cases rule: by_fd.insert_cases)
      case dup
      then show ?thesis using Some u off pw on ins assms pre session_iff [OF assms, of fd]
        by (auto simp: defs put_user_def)
    next
      case fail
      then show ?thesis using Some u off pw on ins assms pre session_iff [OF assms, of fd]
        by (auto simp: defs put_user_def)
    next
      case new
      note con = connect_user [OF assms u(1) off(1) new(1,4,5) refl]
      show ?thesis using Some u off pw on ins assms con new session_iff [OF assms, of fd]
        by (auto simp: defs put_user_def)
    qed
  qed
qed

section \<open>Registration\<close>

lemma fresh_pointer: "um_inv U um \<Longrightarrow> um_heap um (um_next um) = None"
  using heapD [of um "um_next um"] by (cases "um_heap um (um_next um)") auto

lemma next_last:
  "um\<lparr>um_next := a, um_heap := h\<rparr> = um\<lparr>um_heap := h, um_next := a\<rparr>"
  "um\<lparr>um_next := a, um_usersByName := b\<rparr> = um\<lparr>um_usersByName := b, um_next := a\<rparr>"
  "um\<lparr>um_next := a, um_usersByFd := c\<rparr> = um\<lparr>um_usersByFd := c, um_next := a\<rparr>"
  for um :: "('n, 'f, 'l) UserManager"
  by simp_all

text \<open>A user object that is created and destroyed again leaves no trace.\<close>

lemma discard_user:
  assumes "um_inv U um" and "HashMap_Ok (lib_byName U) m" and "hm_lookup (lib_byName U) m = names um"
    and "um' = um\<lparr>um_usersByName := m, um_heap := (um_heap um)(um_next um := None), um_next := Suc (um_next um)\<rparr>"
  shows "um_inv U um'" and "um_db U um' = um_db U um"
proof -
  have heap: "um_heap um' = um_heap um" using fresh_pointer [OF assms(1)] assms(4) by auto
  have eqs: "um_usersByName um' = m" "um_usersByFd um' = um_usersByFd um" "um_next um' = Suc (um_next um)"
    by (simp_all add: assms(4))
  show "um_inv U um'"
    using assms(2) inv_ok [OF assms(1)]
    by (intro um_invI) (auto simp: eqs heap assms(3) dest: namesD [OF assms(1)] fdsD [OF assms(1)] heapD [OF assms(1)]
        intro: less_SucI)
  show "um_db U um' = um_db U um" by (simp add: um_db_def user_named_def user_connected_def eqs heap assms(3))
qed

text \<open>A new offline user under a free name.\<close>

lemma add_offline_user:
  assumes "um_inv U um" and "names um n = None" and "HashMap_Ok (lib_byName U) m"
    and "hm_lookup (lib_byName U) m = (names um)(n \<mapsto> um_next um)"
    and "user_username u = n" and "user_state u = USER_STATE_OFFLINE" and "user_groups u = None"
    and "um' = um\<lparr>um_usersByName := m, um_heap := (um_heap um)(um_next um \<mapsto> u), um_next := Suc (um_next um)\<rparr>"
  shows "um_inv U um'"
    and "um_db U um' = (um_db U um)\<lparr>db_password := (db_password (um_db U um))(n \<mapsto> user_password u)\<rparr>"
proof -
  let ?p = "um_next um"
  have eqs: "um_usersByName um' = m" "um_usersByFd um' = um_usersByFd um" "um_next um' = Suc ?p"
      "um_heap um' = (um_heap um)(?p \<mapsto> u)"
    by (simp_all add: assms(8))
  have not_p: "names um k \<noteq> Some ?p" "fds um b \<noteq> Some ?p" for k b
    using namesD [OF assms(1), of k ?p] fdsD [OF assms(1), of b ?p] fresh_pointer [OF assms(1)] by auto
  show "um_inv U um'"
  proof (rule um_invI)
    fix k q assume "names um' k = Some q"
    then show "\<exists>u. um_heap um' q = Some u \<and> user_username u = k"
      using namesD [OF assms(1), of k q] not_p(1) [of k] assms(4,5) by (auto simp: eqs split: if_splits)
  next
    fix b q assume "fds um' b = Some q"
    then show "\<exists>u. um_heap um' q = Some u \<and> user_fdConnection u = b \<and> user_state u = USER_STATE_ONLINE"
      using fdsD [OF assms(1), of b q] not_p(2) [of b] by (auto simp: eqs)
  next
    fix q v assume "um_heap um' q = Some v"
    then show "q < um_next um' \<and> user_ok (lib_list U) v \<and> names um' (user_username v) = Some q
        \<and> (user_state v = USER_STATE_ONLINE \<longrightarrow> fds um' (user_fdConnection v) = Some q)"
      using heapD [OF assms(1), of q v] assms(2,4-7)
      by (cases "q = ?p") (auto simp: eqs user_ok_def user_group_names_def)
  qed (use inv_ok [OF assms(1)] assms(3) in \<open>simp_all add: eqs\<close>)
  have "user_named U um' = (user_named U um)(n \<mapsto> u)" "user_connected U um' = user_connected U um"
    using not_p assms(4) by (auto simp: user_named_def user_connected_def eqs fun_eq_iff split: bind_splits)
  moreover have "user_named U um n = None" using assms(2) by (simp add: user_named_def)
  ultimately show "um_db U um' = (um_db U um)\<lparr>db_password := (db_password (um_db U um))(n \<mapsto> user_password u)\<rparr>"
    using assms(7) by (auto simp: um_db_def fun_eq_iff user_group_names_def)
qed

lemma register_refines:
  assumes "um_inv U um"
  shows "\<exists>um'. UserManager_AddUser U mem (Some um) fd (Some n) (Some pw) =
            Some (fst (spec_register mem (um_db U um) fd n pw), Some um')
          \<and> um_inv U um' \<and> um_db U um' = snd (spec_register mem (um_db U um) fd n pw)"
proof (cases "mem Alloc_User \<and> mem Alloc_Username \<and> mem Alloc_Password")
  case False
  then show ?thesis using assms
    by (auto simp: UserManager_AddUser_def User_Create_def networkCopyString_def spec_register_def)
next
  case alloc: True
  let ?p = "um_next um"
  let ?u = "\<lparr>user_fdConnection = fd, user_username = n, user_password = pw, user_state = USER_STATE_OFFLINE,
             user_groups = None\<rparr> :: 'l User"
  have u: "User_Create mem fd n pw = Some ?u"
    using alloc by (simp add: User_Create_def networkCopyString_def)
  obtain r m where ins: "HashMap_Insert (lib_byName U) (mem Alloc_MapByName) (um_usersByName um) n ?p = (r, m)"
    by fastforce
  note defs = UserManager_AddUser_def u User_Destroy_def User_SetState_def spec_register_def Let_def put_user_def
    next_last
  note ok = inv_ok [OF assms, THEN conjunct1] inv_ok [OF assms, THEN conjunct2]
  note keep = discard_user [OF assms _ _ refl]
  from ok(1) ins show ?thesis
  proof (cases rule: by_name.insert_cases)
    case dup
    then show ?thesis using assms ins alloc password_iff [OF assms, of n] keep [OF ok(1)] by (auto simp: defs)
  next
    case fail
    then show ?thesis using assms ins alloc password_iff [OF assms, of n] keep [OF ok(1)] by (auto simp: defs)
  next
    case new
    obtain r2 f where ins2: "HashMap_Insert (lib_byFd U) (mem Alloc_MapByFd) (um_usersByFd um) fd ?p = (r2, f)"
      by fastforce
    obtain r3 out m2 where rem: "HashMap_Remove (lib_byName U) m n = (r3, out, m2)" by (metis prod_cases3)
    have m2: "HashMap_Ok (lib_byName U) m2" "hm_lookup (lib_byName U) m2 = names um"
      using by_name.remove_hit [OF new(4), of n ?p] rem new(1,5) by (auto simp: fun_eq_iff)
    note pw_iff = password_iff [OF assms, of n] and s_iff = session_iff [OF assms, of fd]
    from ok(2) ins2 show ?thesis
    proof (cases rule: by_fd.insert_cases)
      case dup
      then show ?thesis using assms ins ins2 rem alloc new pw_iff s_iff keep [OF m2] by (auto simp: defs)
    next
      case fail
      then show ?thesis using assms ins ins2 rem alloc new pw_iff s_iff keep [OF m2] by (auto simp: defs)
    next
      case new2: new
      let ?um1 = "um\<lparr>um_usersByName := m, um_heap := (um_heap um)(?p \<mapsto> ?u), um_next := Suc ?p\<rparr>"
      have add: "um_inv U ?um1" "um_db U ?um1 = (um_db U um)\<lparr>db_password := (db_password (um_db U um))(n \<mapsto> pw)\<rparr>"
        using add_offline_user [OF assms new(1,4,5), of ?u ?um1] by simp_all
      have con: "um_inv U (put_user ?p (Some (?u\<lparr>user_state := USER_STATE_ONLINE\<rparr>)) (?um1\<lparr>um_usersByFd := f\<rparr>))"
          "um_db U (put_user ?p (Some (?u\<lparr>user_state := USER_STATE_ONLINE\<rparr>)) (?um1\<lparr>um_usersByFd := f\<rparr>))
            = (um_db U ?um1)\<lparr>db_session := (db_session (um_db U ?um1))(fd \<mapsto> n)\<rparr>"
        using connect_user [OF add(1), of ?p ?u fd f] new2 by simp_all
      show ?thesis using ins ins2 alloc new(1-3) new2(1-3) pw_iff s_iff con add(2) by (simp add: defs)
    qed
  qed
qed

lemma unregister_refines:
  assumes "um_inv U um"
  shows "\<exists>um'. UserManager_RemoveUser U (Some um) fd =
            Some (fst (spec_unregister (um_db U um) fd), Some um')
          \<and> um_inv U um' \<and> um_db U um' = snd (spec_unregister (um_db U um) fd)"
proof (cases "fds um fd")
  case None
  then show ?thesis using assms db_of_no_fd by (auto simp: UserManager_RemoveUser_def spec_unregister_def)
next
  case (Some p)
  obtain u where u: "um_heap um p = Some u" "user_fdConnection u = fd" "user_state u = USER_STATE_ONLINE"
      "names um (user_username u) = Some p" "db_session (um_db U um) fd = Some (user_username u)"
    using db_of_fd [OF assms Some] by metis
  let ?n = "user_username u"
  obtain f where f: "HashMap_Remove (lib_byFd U) (um_usersByFd um) fd = (MAP_SUCCESS, Some (fd, p), f)"
      "HashMap_Ok (lib_byFd U) f" "hm_lookup (lib_byFd U) f = (fds um)(fd := None)"
    using by_fd.remove_hit inv_ok [OF assms] Some by blast
  obtain m where m: "HashMap_Remove (lib_byName U) (um_usersByName um) ?n = (MAP_SUCCESS, Some (?n, p), m)"
      "HashMap_Ok (lib_byName U) m" "hm_lookup (lib_byName U) m = (names um)(?n := None)"
    using by_name.remove_hit inv_ok [OF assms] u(4) by blast
  let ?um = "um\<lparr>um_usersByName := m, um_usersByFd := f, um_heap := (um_heap um)(p := None)\<rparr>"
  have inj: "fds um b = Some p \<Longrightarrow> b = fd" "names um k = Some p \<Longrightarrow> k = ?n" for b k
    using fds_inj [OF assms _ Some] names_inj [OF assms _ u(4)] by auto
  have inv: "um_inv U ?um"
  proof (rule um_invI)
    fix k q assume "names ?um k = Some q"
    then have k: "names um k = Some q" "k \<noteq> ?n" using m(3) by (auto split: if_splits)
    then have "q \<noteq> p" using inj(2) by blast
    with namesD [OF assms k(1)] show "\<exists>u. um_heap ?um q = Some u \<and> user_username u = k" by simp
  next
    fix b q assume "fds ?um b = Some q"
    then have b: "fds um b = Some q" "b \<noteq> fd" using f(3) by (auto split: if_splits)
    then have "q \<noteq> p" using inj(1) by blast
    with fdsD [OF assms b(1)] show "\<exists>u. um_heap ?um q = Some u \<and> user_fdConnection u = b \<and> user_state u = USER_STATE_ONLINE"
      by simp
  next
    fix q v assume "um_heap ?um q = Some v"
    then show "q < um_next ?um \<and> user_ok (lib_list U) v \<and> names ?um (user_username v) = Some q
        \<and> (user_state v = USER_STATE_ONLINE \<longrightarrow> fds ?um (user_fdConnection v) = Some q)"
      using heapD [OF assms, of q v] f(3) m(3) Some u(4) by (cases "q = p") auto
  qed (use inv_ok [OF assms] f m in simp_all)
  have "user_named U ?um = (user_named U um)(?n := None)" "user_connected U ?um = (user_connected U um)(fd := None)"
    using m(3) f(3) inj by (auto simp: user_named_def user_connected_def fun_eq_iff split: bind_splits)
  then have db: "um_db U ?um = snd (spec_unregister (um_db U um) fd)"
    using u(5) by (auto simp: spec_unregister_def um_db_def fun_eq_iff)
  show ?thesis using assms Some u f m inv db
    by (auto simp: UserManager_RemoveUser_def user_at_def User_Destroy_def spec_unregister_def)
qed

section \<open>Creation and queries\<close>

lemma create_refines:
  assumes "\<And>a b. eq a b \<longleftrightarrow> a = b"
  shows "if mem Alloc_UserManager \<and> mem Alloc_UsersByName \<and> mem Alloc_UsersByFd
         then \<exists>um. UserManager_Create U mem h eq = Some um \<and> um_inv U um \<and> um_db U um = db_empty
         else UserManager_Create U mem h eq = None"
proof -
  obtain m where m: "HashMap_Create (lib_byName U) True 10 h eq = Some m" "HashMap_Ok (lib_byName U) m"
      "HashMap_Items (lib_byName U) m = []"
    using by_name.create [OF assms] by blast
  obtain f where f: "HashMap_Create (lib_byFd U) True 10 UserManagerHashFunctionFd UserManagerEqualFunctionFd = Some f"
      "HashMap_Ok (lib_byFd U) f" "HashMap_Items (lib_byFd U) f = []"
    using by_fd.create [of UserManagerEqualFunctionFd] UserManagerEqualFunctionFd_def by metis
  show ?thesis using m f by_name.create_fail by_fd.create_fail
    by (cases "mem Alloc_UsersByName"; cases "mem Alloc_UsersByFd")
      (auto simp: UserManager_Create_def um_inv_def um_db_def db_empty_def user_named_def user_connected_def
        hm_lookup_def)
qed

lemma is_logged_in:
  "um_inv U um \<Longrightarrow> UserManager_IsUserLoggedIn U (Some um) None fd (Some old) =
     Some (USER_MANAGER_RESULT_SUCCESS, Some (db_session (um_db U um) fd \<noteq> None))"
  by (simp add: UserManager_IsUserLoggedIn_def by_fd.find_eq inv_ok session_iff split: option.split)

lemma is_user_in_group:
  assumes "um_inv U um"
  shows "UserManager_IsUserInGroup U (Some um) fd (Some g) (Some old) =
    (case db_session (um_db U um) fd of
       None \<Rightarrow> Some (USER_MANAGER_RESULT_NOT_FOUND, Some old)
     | Some n \<Rightarrow> Some (USER_MANAGER_RESULT_SUCCESS, Some (g \<in> set (db_groups (um_db U um) n))))"
proof (cases "fds um fd")
  case None
  then show ?thesis using assms db_of_no_fd by (simp add: UserManager_IsUserInGroup_def)
next
  case (Some p)
  from db_of_fd [OF assms Some] obtain u where u: "um_heap um p = Some u"
      "db_session (um_db U um) fd = Some (user_username u)"
      "db_groups (um_db U um) (user_username u) = user_group_names (lib_list U) u" "user_ok (lib_list U) u"
    by metis
  show ?thesis using assms Some u is_in_group [OF u(4), of g]
    by (cases "User_IsInGroup (lib_list U) (Some u) (Some g)") (simp_all add: UserManager_IsUserInGroup_def user_at_def)
qed

lemma user_group_count:
  assumes "um_inv U um"
  shows "UserManager_GetUserGroupCount U (Some um) fd (Some old) =
    (case db_session (um_db U um) fd of
       None \<Rightarrow> Some (USER_MANAGER_RESULT_NOT_FOUND, Some 0)
     | Some n \<Rightarrow> Some (USER_MANAGER_RESULT_SUCCESS, Some (length (db_groups (um_db U um) n))))"
proof (cases "fds um fd")
  case None
  then show ?thesis using assms db_of_no_fd by (simp add: UserManager_GetUserGroupCount_def)
next
  case (Some p)
  from db_of_fd [OF assms Some] obtain u where u: "um_heap um p = Some u"
      "db_session (um_db U um) fd = Some (user_username u)"
      "db_groups (um_db U um) (user_username u) = user_group_names (lib_list U) u" "user_ok (lib_list U) u"
    by metis
  show ?thesis using assms Some u name_list.list_size
    by (auto simp: UserManager_GetUserGroupCount_def user_at_def User_GetGroups_def user_group_names_def user_ok_def
        split: option.splits)
qed

lemma copy_names_fill:
  "length done + length gs \<le> length out \<Longrightarrow> length done + length gs \<le> cap \<Longrightarrow> take (length done) out = map Some done \<Longrightarrow>
     \<exists>out'. copy_names out (length done) cap gs = Some (out', length done + length gs, [])
        \<and> length out' = length out \<and> take (length done + length gs) out' = map Some (done @ gs)"
proof (induction gs arbitrary: out "done")
  case (Cons g gs)
  have "take (length (done @ [g])) (out[length done := Some g]) = map Some (done @ [g])"
    using Cons.prems by (simp add: take_Suc_conv_app_nth)
  from Cons.IH [of "done @ [g]" "out[length done := Some g]", OF _ _ this] Cons.prems show ?case by simp
qed simp

lemma user_groups_filled:
  assumes "um_inv U um" and "db_session (um_db U um) fd = Some n" and "db_groups (um_db U um) n \<noteq> []"
    and "length out = length (db_groups (um_db U um) n)"
  shows "UserManager_GetUserGroups U (Some um) fd (Some out) (length (db_groups (um_db U um) n)) (Some old) =
    Some (USER_MANAGER_RESULT_SUCCESS, Some (map Some (db_groups (um_db U um) n)),
          Some (length (db_groups (um_db U um) n)))"
proof -
  obtain p where p: "fds um fd = Some p"
    using assms(1,2) session_iff by (metis option.distinct(1) not_Some_eq)
  from db_of_fd [OF assms(1) p] assms(2) obtain u where u: "um_heap um p = Some u" "user_username u = n"
      "db_groups (um_db U um) n = user_group_names (lib_list U) u"
    by (metis option.inject)
  with assms(3) obtain l where l: "user_groups u = Some l" "db_groups (um_db U um) n = ListItems (lib_list U) l"
    by (auto simp: user_group_names_def split: option.splits)
  show ?thesis
    using copy_names_fill [of "[]" "ListItems (lib_list U) l" out "length (ListItems (lib_list U) l)"] assms(1,4) p u(1) l
    by (auto simp: UserManager_GetUserGroups_def user_at_def User_GetGroups_def)
qed

section \<open>The user listing\<close>

lemma format_line_of_name:
  assumes "um_inv U um" and "db_wire (um_db U um)" and "names um n = Some p"
  obtains u where "user_at um p = Some u"
    and "if length n + 4 < CONF_USER_GROUPS_LINE_BUF_SIZE
      then \<exists>buf. FormatUserGroupsLine (lib_list U) (Some u) (Some (uninit_line U)) CONF_USER_GROUPS_LINE_BUF_SIZE
               = Some (USER_MANAGER_RESULT_SUCCESS, Some buf)
             \<and> holds_text buf CONF_USER_GROUPS_LINE_BUF_SIZE (take 255 (db_line (um_db U um) n))
      else \<exists>buf. FormatUserGroupsLine (lib_list U) (Some u) (Some (uninit_line U)) CONF_USER_GROUPS_LINE_BUF_SIZE
               = Some (USER_MANAGER_RESULT_INTERNAL_ERROR, Some buf)"
proof -
  obtain u where u: "um_heap um p = Some u" "user_username u = n" using namesD [OF assms(1,3)] by blast
  have g: "db_groups (um_db U um) n = user_group_names (lib_list U) u"
    using assms(3) u by (simp add: um_db_def user_named_def)
  have w: "wire_name (user_username u)" "\<forall>g \<in> set (user_group_names (lib_list U) u). wire_name g"
    using assms(2) u(2) password_iff [OF assms(1), of n] assms(3) unfolding db_wire_def g [symmetric]
    by (auto simp: dom_def)
  have eq: "take (CONF_USER_GROUPS_LINE_BUF_SIZE - 1) (user_line (lib_list U) u) = take 255 (db_line (um_db U um) n)"
    by (simp add: user_line_def db_line_def u g CONF_USER_GROUPS_LINE_BUF_SIZE_def)
  have ok: "user_ok (lib_list U) u" using heapD [OF assms(1) u(1)] by simp
  show ?thesis
    using FormatUserGroupsLine_text [OF name_list.dlist_axioms ok w, of CONF_USER_GROUPS_LINE_BUF_SIZE "uninit_line U"]
      line_size unfolding u(2) eq
    by (intro that [of u]) (simp_all add: user_at_def u(1) CONF_USER_GROUPS_LINE_BUF_SIZE_def)
qed

text \<open>One step of the listing: a line that cannot be formatted is skipped, one that does not fit ends the listing.\<close>

lemma append_user_line:
  fixes um ctx k
  defines "t \<equiv> (if fu_first ctx then take 255 (db_line (um_db U um) k) else CHR 0x0A # take 255 (db_line (um_db U um) k))"
  assumes "um_inv U um" and "db_wire (um_db U um)" and "holds_text (fu_buf ctx) (fu_bufSize ctx) pre" and "fu_offset ctx = length pre"
    and "names um k = Some p"
  obtains (skipped) "\<not> length k + 4 < CONF_USER_GROUPS_LINE_BUF_SIZE" and "AppendUserGroupsLine U um k p ctx = Some (True, ctx)"
  | (cut) buf' where "length k + 4 < CONF_USER_GROUPS_LINE_BUF_SIZE" and "fu_bufSize ctx - length pre \<le> length t"
      and "AppendUserGroupsLine U um k p ctx = Some (False, ctx\<lparr>fu_buf := buf'\<rparr>)"
      and "holds_text buf' (fu_bufSize ctx) (take (fu_bufSize ctx - 1) (pre @ t))"
  | (added) buf' where "length k + 4 < CONF_USER_GROUPS_LINE_BUF_SIZE"
      and "AppendUserGroupsLine U um k p ctx = Some (True, ctx\<lparr>fu_buf := buf', fu_offset := length (pre @ t), fu_first := False\<rparr>)"
      and "holds_text buf' (fu_bufSize ctx) (pre @ t)"
proof -
  let ?line = "take 255 (db_line (um_db U um) k)" and ?n = "fu_bufSize ctx"
  obtain u where u: "user_at um p = Some u" "if length k + 4 < CONF_USER_GROUPS_LINE_BUF_SIZE
      then \<exists>buf. FormatUserGroupsLine (lib_list U) (Some u) (Some (uninit_line U)) CONF_USER_GROUPS_LINE_BUF_SIZE
               = Some (USER_MANAGER_RESULT_SUCCESS, Some buf)
             \<and> holds_text buf CONF_USER_GROUPS_LINE_BUF_SIZE (take 255 (db_line (um_db U um) k))
      else \<exists>buf. FormatUserGroupsLine (lib_list U) (Some u) (Some (uninit_line U)) CONF_USER_GROUPS_LINE_BUF_SIZE
               = Some (USER_MANAGER_RESULT_INTERNAL_ERROR, Some buf)"
    using format_line_of_name [OF assms(2,3,6)] .
  show ?thesis
  proof (cases "length k + 4 < CONF_USER_GROUPS_LINE_BUF_SIZE")
    case False
    then show ?thesis using u by (intro skipped) (auto simp: AppendUserGroupsLine_def)
  next
    case True
    obtain buf where b: "FormatUserGroupsLine (lib_list U) (Some u) (Some (uninit_line U)) CONF_USER_GROUPS_LINE_BUF_SIZE
               = Some (USER_MANAGER_RESULT_SUCCESS, Some buf)" "c_string_at buf 0 = Some ?line"
      using True u(2) holds_text_c_string by (metis (full_types))
    have t: "NUL \<notin> set t" "length t \<le> 2147483647"
      using c_string_at_no_NUL [OF b(2)] by (auto simp: NUL_def t_def)
    obtain buf' where buf: "snprintf (fu_buf ctx) (length pre) (?n - length pre) t = Some (int (length t), buf')"
        "holds_text buf' ?n (take (?n - 1) (pre @ t))"
      using snprintf_holds [OF assms(4) t] by blast
    show ?thesis
    proof (cases "length t \<ge> ?n - length pre")
      case full: True
      then show ?thesis using True u(1) b buf assms(5) by (intro cut) (simp_all add: AppendUserGroupsLine_def Let_def t_def)
    next
      case False
      then have "take (?n - 1) (pre @ t) = pre @ t" by simp
      then show ?thesis using False True u(1) b buf assms(5) by (intro added [of buf']) (simp_all add: AppendUserGroupsLine_def Let_def t_def)
    qed
  qed
qed

lemma append_user_lines:
  assumes "um_inv U um" and "db_wire (um_db U um)"
    and "holds_text (fu_buf ctx) (fu_bufSize ctx) pre" and "fu_offset ctx = length pre"
    and "\<forall>(n, p) \<in> set kvs. names um n = Some p"
  shows "\<exists>ctx'. for_each (AppendUserGroupsLine U um) kvs ctx = Some ctx'
    \<and> holds_text (fu_buf ctx') (fu_bufSize ctx)
        (take (fu_bufSize ctx - 1)
           (pre @ join_from [CHR 0x0A] (fu_first ctx) (listed_lines (um_db U um) (map fst kvs))))"
  using assms(3-5)
proof (induction kvs arbitrary: ctx pre)
  case Nil
  then show ?case by (simp add: holds_text_take listed_lines_def)
next
  case (Cons kv kvs)
  obtain k p where kv: "kv = (k, p)" by fastforce
  with Cons.prems(3) have look: "names um k = Some p" by simp
  let ?line = "take 255 (db_line (um_db U um) k)" and ?n = "fu_bufSize ctx"
  let ?t = "if fu_first ctx then ?line else CHR 0x0A # ?line" and ?rest = "listed_lines (um_db U um) (map fst kvs)"
  have lines: "join_from [CHR 0x0A] (fu_first ctx) (listed_lines (um_db U um) (map fst (kv # kvs)))
      = (if length k + 4 < CONF_USER_GROUPS_LINE_BUF_SIZE then ?t @ join_from [CHR 0x0A] False ?rest else join_from [CHR 0x0A] (fu_first ctx) ?rest)"
    by (simp add: listed_lines_def kv)
  show ?case
  proof (cases rule: append_user_line [OF assms(1,2) Cons.prems(1,2) look])
    case 1
    then show ?thesis using Cons.IH [OF Cons.prems(1,2)] Cons.prems(3) unfolding lines by (simp add: kv)
  next
    case (2 buf')
    have "take (?n - 1) (pre @ ?t) = take (?n - 1) (pre @ ?t @ join_from [CHR 0x0A] False ?rest)" by (rule take_full [OF 2(2)])
    with 2(4) have ht: "holds_text buf' ?n (take (?n - 1) (pre @ ?t @ join_from [CHR 0x0A] False ?rest))" by (simp only:)
    have "for_each (AppendUserGroupsLine U um) (kv # kvs) ctx = Some (ctx\<lparr>fu_buf := buf'\<rparr>)" using 2(3) by (simp add: kv)
    moreover have "fu_buf (ctx\<lparr>fu_buf := buf'\<rparr>) = buf'" by simp
    ultimately show ?thesis unfolding lines if_P [OF 2(1)] using ht by metis
  next
    case (3 buf')
    let ?ctx = "ctx\<lparr>fu_buf := buf', fu_offset := length (pre @ ?t), fu_first := False\<rparr>"
    have "holds_text (fu_buf ?ctx) (fu_bufSize ?ctx) (pre @ ?t)" using 3(3) by simp
    from Cons.IH [OF this] Cons.prems(3) obtain ctx' where "for_each (AppendUserGroupsLine U um) kvs ?ctx = Some ctx'"
        "holds_text (fu_buf ctx') ?n (take (?n - 1) ((pre @ ?t) @ join_from [CHR 0x0A] False ?rest))" by auto
    then show ?thesis using 3(1,2) unfolding lines by (simp add: kv del: append_Cons length_append)
  qed
qed

lemma items_lookup:
  "um_inv U um \<Longrightarrow> \<forall>(n, p) \<in> set (HashMap_Items (lib_byName U) (um_usersByName um)). names um n = Some p"
  using by_name.items_distinct inv_ok by (auto simp: hm_lookup_def)

lemma format_all_users:
  assumes "um_inv U um" and "db_wire (um_db U um)" and "0 < n" and "n \<le> length buf"
  obtains buf' where "UserManager_FormatAllUsersAndGroups U (Some um) (Some buf) n =
      Some (USER_MANAGER_RESULT_SUCCESS, Some buf')"
    and "holds_text buf' n (take (n - 1) (join [CHR 0x0A]
           (listed_lines (um_db U um) (map fst (HashMap_Items (lib_byName U) (um_usersByName um))))))"
proof -
  obtain buf0 where b: "mem_write buf 0 [NUL] = Some buf0" "holds_text buf0 n []"
    using holds_text_start [OF assms(3,4)] by blast
  let ?ctx = "\<lparr>fu_buf = buf0, fu_bufSize = n, fu_offset = 0, fu_first = True\<rparr>"
  have "holds_text (fu_buf ?ctx) (fu_bufSize ?ctx) []" "fu_offset ?ctx = length []" using b(2) by simp_all
  from append_user_lines [OF assms(1,2) this items_lookup [OF assms(1)]] show ?thesis
    using that b(1) assms(3) by (auto simp: UserManager_FormatAllUsersAndGroups_def HashMap_ForEach_def)
qed

lemma print_all_users:
  assumes "um_inv U um" and "db_wire (um_db U um)"
  shows "UserManager_GetAllUsersAndTheirGroups U (Some um) = Some USER_MANAGER_RESULT_SUCCESS"
proof -
  have "for_each (PrintUserGroupsLine U um) kvs () = Some ()"
    if "\<forall>(n, p) \<in> set kvs. names um n = Some p" for kvs
    using that
  proof (induction kvs)
    case (Cons kv kvs)
    obtain k p where kv: "kv = (k, p)" by fastforce
    with Cons.prems have "names um k = Some p" by simp
    then have "PrintUserGroupsLine U um k p () = Some (True, ())"
      by (rule format_line_of_name [OF assms]) (auto simp: PrintUserGroupsLine_def split: if_splits)
    then show ?case using Cons kv by simp
  qed simp
  from this [OF items_lookup [OF assms(1)]] show ?thesis
    by (simp add: UserManager_GetAllUsersAndTheirGroups_def HashMap_ForEach_def)
qed

end

end
