(* ===== verification/Tcp_Connection.thy ===== *)
theory Tcp_Connection
  imports Network_Utils
begin

text \<open>
  \<open>src/ServerNet/TcpConnectionRecord.c\<close> and what the TCP layer shares with the operating system.
  The record \<open>net\<close> holds the connection records on the heap (a record is reached through its
  address, since its pointer travels from the acceptor thread through a pipe to the handler thread) and the set
  of descriptors the process has open.

  Field names: \<open>m_port\<close> of the record is \<open>m_conn_port\<close>, which keeps it apart from the port of a
  group endpoint.
\<close>

record TcpConnectionRecord =
  m_fdConnection :: int
  m_ip :: string
  m_conn_port :: int

record net =
  net_heap :: "nat \<rightharpoonup> TcpConnectionRecord"
  net_next :: nat
  net_fds :: "int set"

text \<open>
  Closing a descriptor that is not open hits whatever the process opens under that number at the
  same time; it counts as an error of the program (\<^term>\<open>None\<close>), like a double \<open>free\<close>.
\<close>

definition close_fd :: "int \<Rightarrow> net \<Rightarrow> net option" where
  "close_fd fd n = (if fd \<in> net_fds n then Some (n\<lparr>net_fds := net_fds n - {fd}\<rparr>) else None)"

definition open_fd :: "int \<Rightarrow> net \<Rightarrow> net" where
  "open_fd fd n = n\<lparr>net_fds := insert fd (net_fds n)\<rparr>"

text \<open>\<open>strcpy\<close> into the array of \<open>INET_ADDRSTRLEN\<close> bytes is undefined for a longer text.\<close>

definition TcpConnectionRecord_Create ::
  "bool \<Rightarrow> int \<Rightarrow> string \<Rightarrow> 16 word \<Rightarrow> net \<Rightarrow> (nat option \<times> net) option" where
  "TcpConnectionRecord_Create mem_rec a_fdConnection a_ip a_port n =
     (if \<not> mem_rec then Some (None, n)
      else if length a_ip \<ge> INET_ADDRSTRLEN then None
      else Some (Some (net_next n),
                 n\<lparr>net_heap := (net_heap n)(net_next n \<mapsto>
                      \<lparr>m_fdConnection = a_fdConnection, m_ip = a_ip, m_conn_port = int (unat a_port)\<rparr>),
                   net_next := Suc (net_next n)\<rparr>))"

definition TcpConnectionRecord_Destroy :: "nat option \<Rightarrow> net \<Rightarrow> (nat option \<times> net) option" where
  "TcpConnectionRecord_Destroy a_record n =
     (case a_record of
        None \<Rightarrow> Some (None, n)
      | Some p \<Rightarrow> do {
          rec \<leftarrow> net_heap n p;
          n1 \<leftarrow> (if m_fdConnection rec \<ge> 0 then close_fd (m_fdConnection rec) n else Some n);
          Some (None, n1\<lparr>net_heap := (net_heap n1)(p := None)\<rparr>)
        })"

text \<open>The line that is printed; \<open>%d\<close> prints a sign.\<close>

definition signed_decimal :: "int \<Rightarrow> string" where
  "signed_decimal i = (if i < 0 then ''-'' @ decimal (nat (- i)) else decimal (nat i))"

definition TcpConnectionRecord_Display :: "TcpConnectionRecord \<Rightarrow> string" where
  "TcpConnectionRecord_Display a_record =
     ''fd: '' @ signed_decimal (m_fdConnection a_record) @ '', ip: '' @ m_ip a_record @ '', port: ''
       @ signed_decimal (m_conn_port a_record) @ [CHR 0x0A]"

section \<open>Lemmas\<close>

lemma close_fd_simps [simp]:
  "fd \<in> net_fds n \<Longrightarrow> close_fd fd n = Some (n\<lparr>net_fds := net_fds n - {fd}\<rparr>)"
  by (simp add: close_fd_def)

lemma close_fd_twice: "close_fd fd n = Some n' \<Longrightarrow> close_fd fd n' = None"
  by (auto simp: close_fd_def split: if_splits)

lemma record_destroy:
  assumes "net_heap n p = Some rec" and "0 \<le> m_fdConnection rec" and "m_fdConnection rec \<in> net_fds n"
  shows "TcpConnectionRecord_Destroy (Some p) n =
    Some (None, n\<lparr>net_heap := (net_heap n)(p := None), net_fds := net_fds n - {m_fdConnection rec}\<rparr>)"
  using assms by (simp add: TcpConnectionRecord_Destroy_def)

end
