(* ===== verification/Server_Manager.thy ===== *)
theory Server_Manager
  imports Network_Protocol Group_Manager User_Store Tcp_Connection
begin

text \<open>
  \<open>src/ServerMng/ServerManager.c\<close>: the callbacks that the TCP layer runs for a new connection, a
  received message and a disconnection, and the handler of every opcode.

  A handler maps the state of the two managers to the new state and the calls of \<open>send\<close> it makes
  (descriptor and bytes, in order); the outer option is undefined behaviour.  The record \<open>server_env\<close>
  holds what the environment decides while one event is handled: the outcome of every allocation,
  the result of \<open>send\<close>, and the indeterminate contents of an uninitialised object of \<open>n\<close> bytes.
  A message passed to \<open>ServerManager_SendMessage\<close> is the memory object it points into, so a length
  that exceeds the object is undefined.
\<close>

section \<open>State and environment\<close>

datatype ServerResult =
    SERVER_RESULT_SUCCESS | SERVER_RESULT_NULL_PTR | SERVER_RESULT_INVALID_ARGUMENT
  | SERVER_RESULT_ALLOCATION_FAILED | SERVER_RESULT_ALREADY_RUNNING | SERVER_RESULT_NOT_RUNNING
  | SERVER_RESULT_NETWORK_ERROR | SERVER_RESULT_SEND_ERROR | SERVER_RESULT_RECEIVE_ERROR
  | SERVER_RESULT_INTERNAL_ERROR

fun ServerResult_ToString :: "ServerResult \<Rightarrow> string" where
  "ServerResult_ToString SERVER_RESULT_SUCCESS = ''SUCCESS''"
| "ServerResult_ToString SERVER_RESULT_NULL_PTR = ''NULL_PTR''"
| "ServerResult_ToString SERVER_RESULT_INVALID_ARGUMENT = ''INVALID_ARGUMENT''"
| "ServerResult_ToString SERVER_RESULT_ALLOCATION_FAILED = ''ALLOCATION_FAILED''"
| "ServerResult_ToString SERVER_RESULT_ALREADY_RUNNING = ''ALREADY_RUNNING''"
| "ServerResult_ToString SERVER_RESULT_NOT_RUNNING = ''NOT_RUNNING''"
| "ServerResult_ToString SERVER_RESULT_NETWORK_ERROR = ''NETWORK_ERROR''"
| "ServerResult_ToString SERVER_RESULT_SEND_ERROR = ''SEND_ERROR''"
| "ServerResult_ToString SERVER_RESULT_RECEIVE_ERROR = ''RECEIVE_ERROR''"
| "ServerResult_ToString SERVER_RESULT_INTERNAL_ERROR = ''INTERNAL_ERROR''"

record ('n, 'f, 'l, 'g) ServerManager =
  sm_userManager :: "('n, 'f, 'l) UserManager"
  sm_groupManager :: "'g GroupManager"

record ('n, 'f, 'l, 'i, 'g) server_lib =
  sl_users :: "('n, 'f, 'l, 'i) user_lib"
  sl_groups :: "'g group_map"

record server_env =
  env_mem :: mem
  env_send :: "int \<Rightarrow> string \<Rightarrow> int"
  env_uninit :: "nat \<Rightarrow> string"

type_synonym sends = "(int \<times> string) list"

text \<open>A string literal as the object it denotes.\<close>

definition c_literal :: "string \<Rightarrow> string" where
  "c_literal s = s @ [NUL]"

section \<open>Hash and equality of keys\<close>

text \<open>\<open>hash = ((hash << 5) + hash) + c\<close> over \<open>unsigned long\<close>, \<open>c\<close> a sign-extended \<open>char\<close>.\<close>

fun djb2_loop :: "64 word \<Rightarrow> string \<Rightarrow> 64 word" where
  "djb2_loop hash [] = hash"
| "djb2_loop hash (c # cs) = djb2_loop ((push_bit 5 hash + hash) + of_int (schar c)) cs"

definition ServerManagerHashFunctionDJB2 :: "string \<Rightarrow> 64 word" where
  "ServerManagerHashFunctionDJB2 a_str = djb2_loop 5381 a_str"

definition ServerManagerEqualFunction :: "string \<Rightarrow> string \<Rightarrow> bool" where
  "ServerManagerEqualFunction a_firstKey a_secondKey \<longleftrightarrow> c_strcmp a_firstKey a_secondKey = 0"

section \<open>Replies\<close>

definition ServerManager_SendMessage ::
  "server_env \<Rightarrow> int \<Rightarrow> ChatStatus \<Rightarrow> string option \<Rightarrow> nat \<Rightarrow> (ServerResult \<times> sends) option" where
  "ServerManager_SendMessage E a_fd a_status a_message a_length =
     (if a_length > CHAT_MAX_VALUE then Some (SERVER_RESULT_INVALID_ARGUMENT, [])
      else if a_length > 0 \<and> a_message = None then Some (SERVER_RESULT_INVALID_ARGUMENT, [])
      else do {
        value \<leftarrow> (case a_message of
                    Some obj \<Rightarrow>
                      if a_length > 0
                      then do { bytes \<leftarrow> mem_read obj 0 a_length; mem_write (env_uninit E CHAT_MAX_VALUE) 0 bytes }
                      else Some (env_uninit E CHAT_MAX_VALUE)
                  | None \<Rightarrow> Some (env_uninit E CHAT_MAX_VALUE));
        let encodedMessage = \<lparr>m_opcode = OPCODE_RESPONSE, m_length = of_nat a_length,
                              m_status = a_status, m_value = value\<rparr>;
        let buf_size = CHAT_HEADER_SIZE + a_length;
        if \<not> env_mem E Alloc_SendBuffer then Some (SERVER_RESULT_ALLOCATION_FAILED, [])
        else do {
          (serialized_len, serialized) \<leftarrow>
            SerializeChatMessage (Some encodedMessage) (Some (env_uninit E buf_size)) buf_size;
          if serialized_len < 0 then Some (SERVER_RESULT_INTERNAL_ERROR, [])
          else do {
            buf \<leftarrow> serialized;
            bytes \<leftarrow> mem_read buf 0 (nat serialized_len);
            let bytes_sent = env_send E a_fd bytes;
            if bytes_sent < 0 then Some (SERVER_RESULT_SEND_ERROR, [(a_fd, bytes)])
            else if bytes_sent \<noteq> serialized_len then Some (SERVER_RESULT_SEND_ERROR, [(a_fd, bytes)])
            else Some (SERVER_RESULT_SUCCESS, [(a_fd, bytes)])
          }
        }
      })"

text \<open>The result of sending is only logged.\<close>

definition ServerManager_SendOrLog ::
  "server_env \<Rightarrow> TcpConnectionRecord \<Rightarrow> ChatStatus \<Rightarrow> string option \<Rightarrow> nat \<Rightarrow> sends option" where
  "ServerManager_SendOrLog E a_record a_status a_message a_length = do {
     (sendResult, out) \<leftarrow> ServerManager_SendMessage E (m_fdConnection a_record) a_status a_message a_length;
     Some out
   }"

text \<open>Replies with the text of a result code; \<open>extra\<close> is 1 where the source adds the terminator.\<close>

definition reply_text ::
  "server_env \<Rightarrow> TcpConnectionRecord \<Rightarrow> ChatStatus \<Rightarrow> string \<Rightarrow> nat \<Rightarrow> sends option" where
  "reply_text E a_record a_status txt extra =
     ServerManager_SendOrLog E a_record a_status (Some (c_literal txt)) (length txt + extra)"

section \<open>Sessions\<close>

text \<open>
  The loop of \<open>ServerManager_LeaveAllGroups\<close> over the array of names; an element that was never
  written is undefined when it is used.
\<close>

fun leave_each :: "'g group_map \<Rightarrow> string option list \<Rightarrow> 'g GroupManager \<Rightarrow> 'g GroupManager option" where
  "leave_each G [] gm = Some gm"
| "leave_each G (name # names) gm = do {
     g \<leftarrow> name;
     (_, _, gm1) \<leftarrow> GroupManager_DecreaseGroupRefCount G (Some gm) (Some g) None;
     (_, gm2) \<leftarrow> GroupManager_RemoveGroupIfEmpty G gm1 (Some g);
     gm3 \<leftarrow> gm2;
     leave_each G names gm3
   }"

definition ServerManager_LeaveAllGroups ::
  "('n, 'f, 'l, 'i, 'g) server_lib \<Rightarrow> ('n, 'f, 'l, 'g) ServerManager \<Rightarrow> int
     \<Rightarrow> ('n, 'f, 'l, 'g) ServerManager option" where
  "ServerManager_LeaveAllGroups S sm a_fdConnection = do {
     (_, count) \<leftarrow> UserManager_GetUserGroupCount (sl_users S) (Some (sm_userManager sm)) a_fdConnection (Some 0);
     userGroupCount \<leftarrow> count;
     if userGroupCount = 0 then Some sm
     else do {
       (_, names, _) \<leftarrow> UserManager_GetUserGroups (sl_users S) (Some (sm_userManager sm)) a_fdConnection
                          (Some (replicate userGroupCount None)) userGroupCount (Some 0);
       userGroups \<leftarrow> names;
       gm \<leftarrow> leave_each (sl_groups S) (take userGroupCount userGroups) (sm_groupManager sm);
       Some (sm\<lparr>sm_groupManager := gm\<rparr>)
     }
   }"

definition ServerManager_CleanupSession ::
  "('n, 'f, 'l, 'i, 'g) server_lib \<Rightarrow> server_env \<Rightarrow> ('n, 'f, 'l, 'g) ServerManager \<Rightarrow> TcpConnectionRecord
     \<Rightarrow> ('n, 'f, 'l, 'g) ServerManager option" where
  "ServerManager_CleanupSession S E sm a_record = do {
     (_, isLoggedIn) \<leftarrow> UserManager_IsUserLoggedIn (sl_users S) (Some (sm_userManager sm)) None
                          (m_fdConnection a_record) (Some False);
     if isLoggedIn = Some False then Some sm
     else do {
       sm1 \<leftarrow> ServerManager_LeaveAllGroups S sm (m_fdConnection a_record);
       (logoutResult, username, um) \<leftarrow> UserManager_Logout (sl_users S) (env_mem E) (Some (sm_userManager sm1))
                                          (m_fdConnection a_record) (Some None);
       um' \<leftarrow> um;
       Some (sm1\<lparr>sm_userManager := um'\<rparr>)
     }
   }"

section \<open>The handlers\<close>

text \<open>
  Every handler has the type of \<open>ActionFn\<close>: library, environment, manager, connection, message.  The
  names in a message are the C strings in its value array; when the array holds no terminator the
  handler reads past it.
\<close>

definition ServerManager_ActionRegister ::
  "('n, 'f, 'l, 'i, 'g) server_lib \<Rightarrow> server_env \<Rightarrow> ('n, 'f, 'l, 'g) ServerManager \<Rightarrow> TcpConnectionRecord
     \<Rightarrow> ChatMessage \<Rightarrow> (('n, 'f, 'l, 'g) ServerManager \<times> sends) option" where
  "ServerManager_ActionRegister S E sm a_record a_message = do {
     username \<leftarrow> c_string_at (m_value a_message) 0;
     password \<leftarrow> c_string_at (m_value a_message) (length username + 1);
     (addUserResult, um) \<leftarrow> UserManager_AddUser (sl_users S) (env_mem E) (Some (sm_userManager sm))
                               (m_fdConnection a_record) (Some username) (Some password);
     um' \<leftarrow> um;
     let sm' = sm\<lparr>sm_userManager := um'\<rparr>;
     out \<leftarrow> (if addUserResult \<noteq> USER_MANAGER_RESULT_SUCCESS
             then reply_text E a_record CHAT_ERR_BAD_CREDS (UserManagerResult_toString addUserResult) 1
             else ServerManager_SendOrLog E a_record CHAT_OK None 0);
     Some (sm', out)
   }"

definition ServerManager_ActionLogin ::
  "('n, 'f, 'l, 'i, 'g) server_lib \<Rightarrow> server_env \<Rightarrow> ('n, 'f, 'l, 'g) ServerManager \<Rightarrow> TcpConnectionRecord
     \<Rightarrow> ChatMessage \<Rightarrow> (('n, 'f, 'l, 'g) ServerManager \<times> sends) option" where
  "ServerManager_ActionLogin S E sm a_record a_message = do {
     username \<leftarrow> c_string_at (m_value a_message) 0;
     password \<leftarrow> c_string_at (m_value a_message) (length username + 1);
     (loginResult, um) \<leftarrow> UserManager_Login (sl_users S) (env_mem E) (Some (sm_userManager sm))
                             (m_fdConnection a_record) (Some username) (Some password);
     um' \<leftarrow> um;
     let sm' = sm\<lparr>sm_userManager := um'\<rparr>;
     out \<leftarrow> (if loginResult = USER_MANAGER_RESULT_ALREADY_LOG
             then ServerManager_SendOrLog E a_record CHAT_ERR_ALREADY_LOGGED_IN None 0
             else if loginResult \<noteq> USER_MANAGER_RESULT_SUCCESS
             then ServerManager_SendOrLog E a_record CHAT_ERR_BAD_CREDS
                    (Some (c_literal (UserManagerResult_toString loginResult))) (unat (m_length a_message))
             else reply_text E a_record CHAT_OK ''Login successful'' 1);
     Some (sm', out)
   }"

definition ServerManager_ActionLogout ::
  "('n, 'f, 'l, 'i, 'g) server_lib \<Rightarrow> server_env \<Rightarrow> ('n, 'f, 'l, 'g) ServerManager \<Rightarrow> TcpConnectionRecord
     \<Rightarrow> ChatMessage \<Rightarrow> (('n, 'f, 'l, 'g) ServerManager \<times> sends) option" where
  "ServerManager_ActionLogout S E sm a_record a_message = do {
     (_, isLoggedIn) \<leftarrow> UserManager_IsUserLoggedIn (sl_users S) (Some (sm_userManager sm)) None
                          (m_fdConnection a_record) (Some False);
     if isLoggedIn = Some False
     then do {
       out \<leftarrow> ServerManager_SendOrLog E a_record CHAT_ERR_NOT_LOGGED_IN None 0;
       Some (sm, out)
     }
     else do {
       sm1 \<leftarrow> ServerManager_LeaveAllGroups S sm (m_fdConnection a_record);
       (logoutResult, username, um) \<leftarrow> UserManager_Logout (sl_users S) (env_mem E) (Some (sm_userManager sm1))
                                          (m_fdConnection a_record) (Some None);
       um' \<leftarrow> um;
       let sm2 = sm1\<lparr>sm_userManager := um'\<rparr>;
       out \<leftarrow> (if logoutResult \<noteq> USER_MANAGER_RESULT_SUCCESS
               then reply_text E a_record CHAT_ERR_BAD_CREDS (UserManagerResult_toString logoutResult) 1
               else reply_text E a_record CHAT_OK ''Logout successful'' 1);
       Some (sm2, out)
     }
   }"

definition ServerManager_ActionExit ::
  "('n, 'f, 'l, 'i, 'g) server_lib \<Rightarrow> server_env \<Rightarrow> ('n, 'f, 'l, 'g) ServerManager \<Rightarrow> TcpConnectionRecord
     \<Rightarrow> ChatMessage \<Rightarrow> (('n, 'f, 'l, 'g) ServerManager \<times> sends) option" where
  "ServerManager_ActionExit S E sm a_record a_message = do {
     sm1 \<leftarrow> ServerManager_CleanupSession S E sm a_record;
     out \<leftarrow> reply_text E a_record CHAT_OK ''Goodbye'' 1;
     Some (sm1, out)
   }"

definition ServerManager_SendGroupEndpoint ::
  "('n, 'f, 'l, 'i, 'g) server_lib \<Rightarrow> server_env \<Rightarrow> ('n, 'f, 'l, 'g) ServerManager \<Rightarrow> TcpConnectionRecord
     \<Rightarrow> string \<Rightarrow> sends option" where
  "ServerManager_SendGroupEndpoint S E sm a_record a_groupName = do {
     (result, ep) \<leftarrow> GroupManager_GetGroupEndpoint (sl_groups S) (Some (sm_groupManager sm)) (Some a_groupName)
                       (Some empty_endpoint);
     if result \<noteq> GROUP_MANAGER_RESULT_SUCCESS
     then reply_text E a_record CHAT_ERR_GENERIC (GroupManagerResult_toString result) 1
     else do {
       endpoint \<leftarrow> ep;
       (_, ipbuf) \<leftarrow> network_convert_ip_n_to_p (m_multicastAddr endpoint) (Some (env_uninit E INET_ADDRSTRLEN));
       ip \<leftarrow> c_string_at ipbuf 0;
       (n, buf) \<leftarrow> snprintf (env_uninit E CONF_MULTICAST_ENDPOINT_STR_MAX) 0 CONF_MULTICAST_ENDPOINT_STR_MAX
                     (ip @ '':'' @ decimal (unat (m_port endpoint)));
       if n < 0 \<or> nat n \<ge> CONF_MULTICAST_ENDPOINT_STR_MAX
       then reply_text E a_record CHAT_ERR_GENERIC ''Failed to format group endpoint'' 1
       else ServerManager_SendOrLog E a_record CHAT_OK (Some buf) (nat n + 1)
     }
   }"

definition ServerManager_ActionCreateGroup ::
  "('n, 'f, 'l, 'i, 'g) server_lib \<Rightarrow> server_env \<Rightarrow> ('n, 'f, 'l, 'g) ServerManager \<Rightarrow> TcpConnectionRecord
     \<Rightarrow> ChatMessage \<Rightarrow> (('n, 'f, 'l, 'g) ServerManager \<times> sends) option" where
  "ServerManager_ActionCreateGroup S E sm a_record a_message = do {
     groupName \<leftarrow> c_string_at (m_value a_message) 0;
     (addGroupResult, gm) \<leftarrow> GroupManager_AddGroup (sl_groups S) (env_mem E) (Some (sm_groupManager sm)) (Some groupName);
     gm1 \<leftarrow> gm;
     if addGroupResult \<noteq> GROUP_MANAGER_RESULT_SUCCESS
     then do {
       out \<leftarrow> reply_text E a_record CHAT_ERR_GENERIC (GroupManagerResult_toString addGroupResult) 0;
       Some (sm\<lparr>sm_groupManager := gm1\<rparr>, out)
     }
     else do {
       (result, um) \<leftarrow> UserManager_AddUserToGroup (sl_users S) (env_mem E) (Some (sm_userManager sm))
                         (m_fdConnection a_record) (Some groupName);
       um1 \<leftarrow> um;
       if result \<noteq> USER_MANAGER_RESULT_SUCCESS
       then do {
         (_, gm') \<leftarrow> GroupManager_RemoveGroupIfEmpty (sl_groups S) (Some gm1) (Some groupName);
         out \<leftarrow> reply_text E a_record CHAT_ERR_GENERIC (UserManagerResult_toString result) 1;
         (_, gm'') \<leftarrow> GroupManager_RemoveGroupIfEmpty (sl_groups S) gm' (Some groupName);
         gm2 \<leftarrow> gm'';
         Some (sm\<lparr>sm_userManager := um1, sm_groupManager := gm2\<rparr>, out)
       }
       else do {
         (_, _, gm') \<leftarrow> GroupManager_IncreaseGroupRefCount (sl_groups S) (Some gm1) (Some groupName) None;
         gm2 \<leftarrow> gm';
         let sm' = sm\<lparr>sm_userManager := um1, sm_groupManager := gm2\<rparr>;
         out \<leftarrow> ServerManager_SendGroupEndpoint S E sm' a_record groupName;
         Some (sm', out)
       }
     }
   }"

definition ServerManager_ActionJoinGroup ::
  "('n, 'f, 'l, 'i, 'g) server_lib \<Rightarrow> server_env \<Rightarrow> ('n, 'f, 'l, 'g) ServerManager \<Rightarrow> TcpConnectionRecord
     \<Rightarrow> ChatMessage \<Rightarrow> (('n, 'f, 'l, 'g) ServerManager \<times> sends) option" where
  "ServerManager_ActionJoinGroup S E sm a_record a_message = do {
     groupName \<leftarrow> c_string_at (m_value a_message) 0;
     let (getGroupResult, _) = GroupManager_GetGroup (sl_groups S) (Some (sm_groupManager sm)) (Some groupName) (Some None);
     if getGroupResult \<noteq> GROUP_MANAGER_RESULT_SUCCESS
     then do {
       out \<leftarrow> reply_text E a_record CHAT_ERR_GENERIC (GroupManagerResult_toString getGroupResult) 1;
       Some (sm, out)
     }
     else do {
       (_, isLoggedIn) \<leftarrow> UserManager_IsUserLoggedIn (sl_users S) (Some (sm_userManager sm)) None
                            (m_fdConnection a_record) (Some False);
       if isLoggedIn = Some False
       then do {
         out \<leftarrow> ServerManager_SendOrLog E a_record CHAT_ERR_NOT_LOGGED_IN None 0;
         Some (sm, out)
       }
       else do {
         (result, um) \<leftarrow> UserManager_AddUserToGroup (sl_users S) (env_mem E) (Some (sm_userManager sm))
                           (m_fdConnection a_record) (Some groupName);
         um1 \<leftarrow> um;
         let sm1 = sm\<lparr>sm_userManager := um1\<rparr>;
         if result = USER_MANAGER_RESULT_SUCCESS
         then do {
           (incResult, _, gm) \<leftarrow> GroupManager_IncreaseGroupRefCount (sl_groups S) (Some (sm_groupManager sm))
                                   (Some groupName) None;
           gm1 \<leftarrow> gm;
           let sm2 = sm1\<lparr>sm_groupManager := gm1\<rparr>;
           out \<leftarrow> (if incResult \<noteq> GROUP_MANAGER_RESULT_SUCCESS
                   then reply_text E a_record CHAT_ERR_GENERIC (GroupManagerResult_toString incResult) 1
                   else ServerManager_SendGroupEndpoint S E sm2 a_record groupName);
           Some (sm2, out)
         }
         else do {
           out \<leftarrow> reply_text E a_record CHAT_ERR_GENERIC (UserManagerResult_toString result) 1;
           Some (sm1, out)
         }
       }
     }
   }"

definition ServerManager_ActionLeaveGroup ::
  "('n, 'f, 'l, 'i, 'g) server_lib \<Rightarrow> server_env \<Rightarrow> ('n, 'f, 'l, 'g) ServerManager \<Rightarrow> TcpConnectionRecord
     \<Rightarrow> ChatMessage \<Rightarrow> (('n, 'f, 'l, 'g) ServerManager \<times> sends) option" where
  "ServerManager_ActionLeaveGroup S E sm a_record a_message = do {
     groupName \<leftarrow> c_string_at (m_value a_message) 0;
     let (getGroupResult, _) = GroupManager_GetGroup (sl_groups S) (Some (sm_groupManager sm)) (Some groupName) (Some None);
     if getGroupResult \<noteq> GROUP_MANAGER_RESULT_SUCCESS
     then do {
       out \<leftarrow> reply_text E a_record CHAT_ERR_GENERIC (GroupManagerResult_toString getGroupResult) 1;
       Some (sm, out)
     }
     else do {
       (_, isLoggedIn) \<leftarrow> UserManager_IsUserLoggedIn (sl_users S) (Some (sm_userManager sm)) None
                            (m_fdConnection a_record) (Some False);
       if isLoggedIn = Some False
       then do {
         out \<leftarrow> ServerManager_SendOrLog E a_record CHAT_ERR_NOT_LOGGED_IN None 0;
         Some (sm, out)
       }
       else do {
         (result, isInGroup) \<leftarrow> UserManager_IsUserInGroup (sl_users S) (Some (sm_userManager sm))
                                  (m_fdConnection a_record) (Some groupName) (Some False);
         if result \<noteq> USER_MANAGER_RESULT_SUCCESS
         then do {
           out \<leftarrow> reply_text E a_record CHAT_ERR_GENERIC (UserManagerResult_toString result) 1;
           Some (sm, out)
         }
         else if isInGroup = Some False
         then do {
           out \<leftarrow> ServerManager_SendOrLog E a_record CHAT_ERR_NOT_IN_GROUP None 0;
           Some (sm, out)
         }
         else do {
           (removeResult, um) \<leftarrow> UserManager_RemoveUserFromGroup (sl_users S) (Some (sm_userManager sm))
                                   (m_fdConnection a_record) (Some groupName);
           um1 \<leftarrow> um;
           let sm1 = sm\<lparr>sm_userManager := um1\<rparr>;
           if removeResult \<noteq> USER_MANAGER_RESULT_SUCCESS
           then do {
             out \<leftarrow> reply_text E a_record CHAT_ERR_GENERIC (UserManagerResult_toString removeResult) 1;
             Some (sm1, out)
           }
           else do {
             (decreaseResult, _, gm) \<leftarrow> GroupManager_DecreaseGroupRefCount (sl_groups S)
                                          (Some (sm_groupManager sm)) (Some groupName) None;
             if decreaseResult \<noteq> GROUP_MANAGER_RESULT_SUCCESS
             then do {
               gm1 \<leftarrow> gm;
               out \<leftarrow> reply_text E a_record CHAT_ERR_GENERIC (GroupManagerResult_toString decreaseResult) 1;
               Some (sm1\<lparr>sm_groupManager := gm1\<rparr>, out)
             }
             else do {
               (_, gm') \<leftarrow> GroupManager_RemoveGroupIfEmpty (sl_groups S) gm (Some groupName);
               gm1 \<leftarrow> gm';
               out \<leftarrow> ServerManager_SendOrLog E a_record CHAT_OK None 0;
               Some (sm1\<lparr>sm_groupManager := gm1\<rparr>, out)
             }
           }
         }
       }
     }
   }"

definition ServerManager_ActionListUsers ::
  "('n, 'f, 'l, 'i, 'g) server_lib \<Rightarrow> server_env \<Rightarrow> ('n, 'f, 'l, 'g) ServerManager \<Rightarrow> TcpConnectionRecord
     \<Rightarrow> ChatMessage \<Rightarrow> (('n, 'f, 'l, 'g) ServerManager \<times> sends) option" where
  "ServerManager_ActionListUsers S E sm a_record a_message = do {
     _ \<leftarrow> UserManager_GetAllUsersAndTheirGroups (sl_users S) (Some (sm_userManager sm));
     (formatResult, bufferUsers) \<leftarrow> UserManager_FormatAllUsersAndGroups (sl_users S) (Some (sm_userManager sm))
                                      (Some (env_uninit E CHAT_MAX_VALUE)) CHAT_MAX_VALUE;
     if formatResult \<noteq> USER_MANAGER_RESULT_SUCCESS
     then do {
       out \<leftarrow> reply_text E a_record CHAT_ERR_GENERIC ''Failed to list users'' 1;
       Some (sm, out)
     }
     else do {
       buf \<leftarrow> bufferUsers;
       s \<leftarrow> c_string_at buf 0;
       out \<leftarrow> ServerManager_SendOrLog E a_record CHAT_OK (Some buf) (length s + 1);
       Some (sm, out)
     }
   }"

definition ServerManager_ActionListGroups ::
  "('n, 'f, 'l, 'i, 'g) server_lib \<Rightarrow> server_env \<Rightarrow> ('n, 'f, 'l, 'g) ServerManager \<Rightarrow> TcpConnectionRecord
     \<Rightarrow> ChatMessage \<Rightarrow> (('n, 'f, 'l, 'g) ServerManager \<times> sends) option" where
  "ServerManager_ActionListGroups S E sm a_record a_message = do {
     (formatResult, bufferGroupNames) \<leftarrow> GroupManager_FormatGroupList (sl_groups S) (Some (sm_groupManager sm))
                                           (Some (env_uninit E CHAT_MAX_VALUE)) CHAT_MAX_VALUE;
     if formatResult \<noteq> GROUP_MANAGER_RESULT_SUCCESS
     then do {
       out \<leftarrow> reply_text E a_record CHAT_ERR_GENERIC ''Failed to list groups'' 1;
       Some (sm, out)
     }
     else do {
       buf \<leftarrow> bufferGroupNames;
       s \<leftarrow> c_string_at buf 0;
       out \<leftarrow> ServerManager_SendOrLog E a_record CHAT_OK (Some buf) (length s + 1);
       Some (sm, out)
     }
   }"

section \<open>Dispatch and callbacks\<close>

type_synonym ('n, 'f, 'l, 'g) ActionFn =
  "('n, 'f, 'l, 'g) ServerManager \<Rightarrow> TcpConnectionRecord \<Rightarrow> ChatMessage
     \<Rightarrow> (('n, 'f, 'l, 'g) ServerManager \<times> sends) option"

definition s_actions ::
  "('n, 'f, 'l, 'i, 'g) server_lib \<Rightarrow> server_env \<Rightarrow> (MessageOpcode \<times> string \<times> ('n, 'f, 'l, 'g) ActionFn) list" where
  "s_actions S E =
     [(OPCODE_REGISTER, ''register'', ServerManager_ActionRegister S E),
      (OPCODE_LOGIN, ''login'', ServerManager_ActionLogin S E),
      (OPCODE_LOGOUT, ''logout'', ServerManager_ActionLogout S E),
      (OPCODE_EXIT, ''exit'', ServerManager_ActionExit S E),
      (OPCODE_CREATE_GROUP, ''create_group'', ServerManager_ActionCreateGroup S E),
      (OPCODE_JOIN_GROUP, ''join_group'', ServerManager_ActionJoinGroup S E),
      (OPCODE_LEAVE_GROUP, ''leave_group'', ServerManager_ActionLeaveGroup S E),
      (OPCODE_LIST_USERS, ''list_users'', ServerManager_ActionListUsers S E),
      (OPCODE_LIST_GROUPS, ''list_groups'', ServerManager_ActionListGroups S E)]"

fun FindAction ::
  "(MessageOpcode \<times> string \<times> ('n, 'f, 'l, 'g) ActionFn) list \<Rightarrow> MessageOpcode
     \<Rightarrow> (string \<times> ('n, 'f, 'l, 'g) ActionFn) option" where
  "FindAction [] a_opcode = None"
| "FindAction ((opcode, name, fn) # rest) a_opcode =
     (if opcode = a_opcode then Some (name, fn) else FindAction rest a_opcode)"

definition ServerManagerCallbackRecv ::
  "('n, 'f, 'l, 'i, 'g) server_lib \<Rightarrow> server_env \<Rightarrow> ('n, 'f, 'l, 'g) ServerManager \<Rightarrow> TcpConnectionRecord
     \<Rightarrow> string \<Rightarrow> nat \<Rightarrow> (('n, 'f, 'l, 'g) ServerManager \<times> sends) option" where
  "ServerManagerCallbackRecv S E sm a_record a_message a_length = do {
     let uninit = \<lparr>m_opcode = 0, m_length = 0, m_status = 0, m_value = env_uninit E CHAT_MAX_VALUE\<rparr>;
     (status, decoded) \<leftarrow> DeserializeChatMessage (Some a_message) a_length (Some uninit);
     if status \<noteq> CHAT_OK
     then do {
       out \<leftarrow> ServerManager_SendOrLog E a_record CHAT_ERR_MALFORMED None 0;
       Some (sm, out)
     }
     else do {
       decodedMessage \<leftarrow> decoded;
       (case FindAction (s_actions S E) (m_opcode decodedMessage) of
          None \<Rightarrow> do {
            out \<leftarrow> ServerManager_SendOrLog E a_record CHAT_ERR_GENERIC None 0;
            Some (sm, out)
          }
        | Some (name, fn) \<Rightarrow> fn sm a_record decodedMessage)
     }
   }"

definition ServerManagerCallbackDisconnect ::
  "('n, 'f, 'l, 'i, 'g) server_lib \<Rightarrow> server_env \<Rightarrow> ('n, 'f, 'l, 'g) ServerManager \<Rightarrow> TcpConnectionRecord
     \<Rightarrow> ('n, 'f, 'l, 'g) ServerManager option" where
  "ServerManagerCallbackDisconnect S E sm a_record = ServerManager_CleanupSession S E sm a_record"

definition ServerManagerCallbackNewConnection ::
  "('n, 'f, 'l, 'g) ServerManager \<Rightarrow> TcpConnectionRecord \<Rightarrow> ('n, 'f, 'l, 'g) ServerManager" where
  "ServerManagerCallbackNewConnection sm a_record = sm"

end
