(* ===== verification/Client_System.thy ===== *)
theory Client_System
  imports Chat_Prelude
begin

text \<open>
  The operating system as the client sees it.  The client is single-threaded and talks to the world through
  system calls; what they answer is a parameter, a record with one function per call over a state of type
  \<^typ>\<open>'s\<close> (a script of answers in an example, a whole server in the composition).  The client's
  \<open>world\<close> joins that state with what the theorems observe: the unread bytes of standard input, the
  trace of the calls made, and the heap blocks the client's own sources have allocated and not freed.
\<close>

section \<open>Calls, blocks and the world\<close>

text \<open>The message the chat windows send over the PID queue (\<open>ChatIpc.h\<close>).\<close>

definition CHAT_ROLE_SENDER :: int where "CHAT_ROLE_SENDER = 0"
definition CHAT_ROLE_RECEIVER :: int where "CHAT_ROLE_RECEIVER = 1"

record ChatPidMsg =
  m_role :: int
  m_pid :: int

datatype sys_event =
    Ev_Print string
  | Ev_Connect int "32 word" "16 word"
  | Ev_Close int
  | Ev_Send int string
  | Ev_System string
  | Ev_Pid int int
  | Ev_Kill int
  | Ev_QueueOpen int
  | Ev_QueueClose int
  | Ev_QueueUnlink
  | Ev_Error string
  | Ev_Report int ChatPidMsg
  | Ev_Bind int "32 word" "16 word"
  | Ev_Membership int "32 word"
  | Ev_Datagram int string "32 word" "16 word"

text \<open>
  Heap blocks by what they hold.  \<open>Block_Map\<close> and \<open>Block_Node\<close> belong to the data-structures library, which
  frees them itself; they only name the outcome of its allocations.
\<close>

datatype client_block =
    Block_App | Block_Controller | Block_Windows | Block_Username string | Block_Password string
  | Block_Key string | Block_Pids string | Block_Map | Block_Node

record 's client_os =
  os_alloc :: "client_block \<Rightarrow> 's \<Rightarrow> bool \<times> 's"
  os_uninit :: "nat \<Rightarrow> 's \<Rightarrow> string"
  os_socket :: "'s \<Rightarrow> int \<times> 's"
  os_connect :: "int \<Rightarrow> 32 word \<Rightarrow> 16 word \<Rightarrow> 's \<Rightarrow> int \<times> 's"
  os_close :: "int \<Rightarrow> 's \<Rightarrow> 's"
  os_send :: "int \<Rightarrow> string \<Rightarrow> 's \<Rightarrow> int \<times> 's"
  os_recv :: "int \<Rightarrow> nat \<Rightarrow> 's \<Rightarrow> (int \<times> string) \<times> 's"
  os_system :: "string \<Rightarrow> 's \<Rightarrow> int \<times> 's"
  os_mq_open :: "'s \<Rightarrow> int \<times> 's"
  os_mq_timedreceive :: "int \<Rightarrow> 's \<Rightarrow> ChatPidMsg option \<times> 's"
  os_mq_close :: "int \<Rightarrow> 's \<Rightarrow> 's"
  os_mq_unlink :: "'s \<Rightarrow> 's"
  os_kill :: "int \<Rightarrow> 's \<Rightarrow> int \<times> 's"

record 's world =
  w_sys :: 's
  w_stdin :: string
  w_trace :: "sys_event list"
  w_live :: "client_block list"

definition emit :: "sys_event \<Rightarrow> 's world \<Rightarrow> 's world" where
  "emit ev w = w\<lparr>w_trace := w_trace w @ [ev]\<rparr>"

definition c_print :: "string \<Rightarrow> 's world \<Rightarrow> 's world" where
  "c_print s w = emit (Ev_Print s) w"

text \<open>An allocation of the client's own sources, and \<open>free\<close>; freeing a block twice is undefined.\<close>

definition sys_outcome :: "'s client_os \<Rightarrow> client_block \<Rightarrow> 's world \<Rightarrow> bool \<times> 's world" where
  "sys_outcome os b w = (case os_alloc os b (w_sys w) of (ok, s) \<Rightarrow> (ok, w\<lparr>w_sys := s\<rparr>))"

definition sys_alloc :: "'s client_os \<Rightarrow> client_block \<Rightarrow> 's world \<Rightarrow> bool \<times> 's world" where
  "sys_alloc os b w =
     (case sys_outcome os b w of
        (ok, w1) \<Rightarrow> (ok, if ok then w1\<lparr>w_live := b # w_live w1\<rparr> else w1))"

definition sys_free :: "client_block \<Rightarrow> 's world \<Rightarrow> 's world option" where
  "sys_free b w = (if b \<in> set (w_live w) then Some (w\<lparr>w_live := remove1 b (w_live w)\<rparr>) else None)"

text \<open>Calls that only take and return integers.\<close>

definition sys_close :: "'s client_os \<Rightarrow> int \<Rightarrow> 's world \<Rightarrow> 's world" where
  "sys_close os fd w = emit (Ev_Close fd) (w\<lparr>w_sys := os_close os fd (w_sys w)\<rparr>)"

definition sys_socket :: "'s client_os \<Rightarrow> 's world \<Rightarrow> int \<times> 's world" where
  "sys_socket os w = (case os_socket os (w_sys w) of (fd, s) \<Rightarrow> (fd, w\<lparr>w_sys := s\<rparr>))"

definition sys_connect :: "'s client_os \<Rightarrow> int \<Rightarrow> 32 word \<Rightarrow> 16 word \<Rightarrow> 's world \<Rightarrow> int \<times> 's world" where
  "sys_connect os fd addr port w =
     (case os_connect os fd addr port (w_sys w) of
        (rc, s) \<Rightarrow> (rc, emit (Ev_Connect fd addr port) (w\<lparr>w_sys := s\<rparr>)))"

definition sys_send :: "'s client_os \<Rightarrow> int \<Rightarrow> string \<Rightarrow> 's world \<Rightarrow> int \<times> 's world" where
  "sys_send os fd bytes w =
     (case os_send os fd bytes (w_sys w) of (rc, s) \<Rightarrow> (rc, emit (Ev_Send fd bytes) (w\<lparr>w_sys := s\<rparr>)))"

text \<open>\<open>recv\<close> into a buffer: the bytes that arrived overwrite its beginning.\<close>

definition sys_recv :: "'s client_os \<Rightarrow> int \<Rightarrow> string \<Rightarrow> nat \<Rightarrow> 's world \<Rightarrow> (int \<times> string \<times> 's world) option" where
  "sys_recv os fd buf len w =
     (case os_recv os fd len (w_sys w) of
        ((n, bytes), s) \<Rightarrow>
          if n \<le> 0 then Some (n, buf, w\<lparr>w_sys := s\<rparr>)
          else do {
            buf' \<leftarrow> mem_write buf 0 (take (nat n) bytes);
            Some (n, buf', w\<lparr>w_sys := s\<rparr>)
          })"

definition sys_system :: "'s client_os \<Rightarrow> string \<Rightarrow> 's world \<Rightarrow> int \<times> 's world" where
  "sys_system os cmd w =
     (case os_system os cmd (w_sys w) of (rc, s) \<Rightarrow> (rc, emit (Ev_System cmd) (w\<lparr>w_sys := s\<rparr>)))"

definition sys_kill :: "'s client_os \<Rightarrow> int \<Rightarrow> 's world \<Rightarrow> int \<times> 's world" where
  "sys_kill os pid w =
     (case os_kill os pid (w_sys w) of (rc, s) \<Rightarrow> (rc, emit (Ev_Kill pid) (w\<lparr>w_sys := s\<rparr>)))"

definition sys_mq_open :: "'s client_os \<Rightarrow> 's world \<Rightarrow> int \<times> 's world" where
  "sys_mq_open os w =
     (case os_mq_open os (w_sys w) of (q, s) \<Rightarrow> (q, emit (Ev_QueueOpen q) (w\<lparr>w_sys := s\<rparr>)))"

definition sys_mq_timedreceive :: "'s client_os \<Rightarrow> int \<Rightarrow> 's world \<Rightarrow> ChatPidMsg option \<times> 's world" where
  "sys_mq_timedreceive os q w =
     (case os_mq_timedreceive os q (w_sys w) of
        (None, s) \<Rightarrow> (None, w\<lparr>w_sys := s\<rparr>)
      | (Some msg, s) \<Rightarrow> (Some msg, emit (Ev_Pid (m_role msg) (m_pid msg)) (w\<lparr>w_sys := s\<rparr>)))"

definition sys_mq_close :: "'s client_os \<Rightarrow> int \<Rightarrow> 's world \<Rightarrow> 's world" where
  "sys_mq_close os q w = emit (Ev_QueueClose q) (w\<lparr>w_sys := os_mq_close os q (w_sys w)\<rparr>)"

definition sys_mq_unlink :: "'s client_os \<Rightarrow> 's world \<Rightarrow> 's world" where
  "sys_mq_unlink os w = emit Ev_QueueUnlink (w\<lparr>w_sys := os_mq_unlink os (w_sys w)\<rparr>)"

text \<open>A local buffer has its size, whatever its contents.\<close>

definition uninit_ok :: "'s client_os \<Rightarrow> bool" where
  "uninit_ok os \<longleftrightarrow> (\<forall>n s. length (os_uninit os n s) = n)"

section \<open>What a call leaves alone\<close>

named_theorems sys_frame "what the system calls change of the observable world"

lemma emit_frame [simp, sys_frame]:
  "w_stdin (emit ev w) = w_stdin w" "w_live (emit ev w) = w_live w" "w_sys (emit ev w) = w_sys w"
  "w_trace (emit ev w) = w_trace w @ [ev]"
  by (simp_all add: emit_def)

lemma c_print_frame [simp, sys_frame]:
  "w_stdin (c_print s w) = w_stdin w" "w_live (c_print s w) = w_live w" "w_sys (c_print s w) = w_sys w"
  "w_trace (c_print s w) = w_trace w @ [Ev_Print s]"
  by (simp_all add: c_print_def)

lemma sys_outcome_frame [sys_frame]:
  assumes "sys_outcome os b w = (ok, w')"
  shows "w_stdin w' = w_stdin w" "w_trace w' = w_trace w" "w_live w' = w_live w"
  using assms by (auto simp: sys_outcome_def split: prod.splits)

lemma sys_alloc_frame [sys_frame]:
  assumes "sys_alloc os b w = (ok, w')"
  shows "w_stdin w' = w_stdin w" "w_trace w' = w_trace w"
    "w_live w' = (if ok then b # w_live w else w_live w)"
  using assms by (auto simp: sys_alloc_def dest: sys_outcome_frame split: prod.splits if_splits)

lemma sys_free_frame [sys_frame]:
  assumes "sys_free b w = Some w'"
  shows "w_stdin w' = w_stdin w" "w_trace w' = w_trace w" "w_live w' = remove1 b (w_live w)"
  using assms by (auto simp: sys_free_def split: if_splits)

lemma sys_call_frame [sys_frame]:
  "w_stdin (sys_close os fd w) = w_stdin w" "w_live (sys_close os fd w) = w_live w"
  "w_trace (sys_close os fd w) = w_trace w @ [Ev_Close fd]"
  "w_stdin (sys_mq_close os q w) = w_stdin w" "w_live (sys_mq_close os q w) = w_live w"
  "w_trace (sys_mq_close os q w) = w_trace w @ [Ev_QueueClose q]"
  "w_stdin (sys_mq_unlink os w) = w_stdin w" "w_live (sys_mq_unlink os w) = w_live w"
  "w_trace (sys_mq_unlink os w) = w_trace w @ [Ev_QueueUnlink]"
  by (simp_all add: sys_close_def sys_mq_close_def sys_mq_unlink_def)

lemma sys_result_frame [sys_frame]:
  "sys_socket os w = (rc, w') \<Longrightarrow> w_stdin w' = w_stdin w \<and> w_live w' = w_live w \<and> w_trace w' = w_trace w"
  "sys_connect os fd addr port w = (rc, w') \<Longrightarrow>
     w_stdin w' = w_stdin w \<and> w_live w' = w_live w \<and> w_trace w' = w_trace w @ [Ev_Connect fd addr port]"
  "sys_send os fd bytes w = (rc, w') \<Longrightarrow>
     w_stdin w' = w_stdin w \<and> w_live w' = w_live w \<and> w_trace w' = w_trace w @ [Ev_Send fd bytes]"
  "sys_system os cmd w = (rc, w') \<Longrightarrow>
     w_stdin w' = w_stdin w \<and> w_live w' = w_live w \<and> w_trace w' = w_trace w @ [Ev_System cmd]"
  "sys_kill os pid w = (rc, w') \<Longrightarrow>
     w_stdin w' = w_stdin w \<and> w_live w' = w_live w \<and> w_trace w' = w_trace w @ [Ev_Kill pid]"
  "sys_mq_open os w = (rc, w') \<Longrightarrow>
     w_stdin w' = w_stdin w \<and> w_live w' = w_live w \<and> w_trace w' = w_trace w @ [Ev_QueueOpen rc]"
  by (auto simp: sys_socket_def sys_connect_def sys_send_def sys_system_def sys_kill_def sys_mq_open_def
      split: prod.splits)

lemma sys_recv_frame [sys_frame]:
  assumes "sys_recv os fd buf len w = Some (n, buf', w')"
  shows "w_stdin w' = w_stdin w" "w_live w' = w_live w" "w_trace w' = w_trace w" "length buf' = length buf"
  using assms by (auto simp: sys_recv_def length_mem_write split: prod.splits if_splits Option.bind_splits)

lemma sys_mq_timedreceive_frame [sys_frame]:
  assumes "sys_mq_timedreceive os q w = (got, w')"
  shows "w_stdin w' = w_stdin w" "w_live w' = w_live w"
    "w_trace w' = w_trace w @ (case got of None \<Rightarrow> [] | Some msg \<Rightarrow> [Ev_Pid (m_role msg) (m_pid msg)])"
  using assms by (auto simp: sys_mq_timedreceive_def split: prod.splits option.splits)

end
