(* ===== verification/Wire_Properties.thy ===== *)
theory Wire_Properties
  imports Server_Manager Group_Windows
begin

text \<open>
  Properties of the parts both programs share: the codec of \<open>NetworkProtocol.h\<close> and the string hash, which the
  server and the client implement separately.
\<close>

section \<open>The codec\<close>

text \<open>
  C18. Encoding and decoding.  A message whose opcode and status are a byte and a non-negative \<open>char\<close> and whose length fits
  the value array is encoded into any buffer that can hold it without touching the rest of the buffer.
  Decoding the frame, whatever follows it, gives back the opcode, the status, the length and every byte of
  the value exactly when the low byte of the length is below 128; a message with a payload of 128 to 255 bytes
  is encoded but refused by the decoder as malformed, because the length byte is read as a signed \<open>char\<close>.
\<close>

theorem codec_roundtrip:
  assumes "msg_ok msg" and "unat (m_length msg) \<le> CHAT_MAX_VALUE" and "m_opcode msg < 256" and "m_status msg < 128"
    and "CHAT_HEADER_SIZE + unat (m_length msg) \<le> n" and "n \<le> length buf" and "msg_ok out"
  shows "\<exists>buf'. SerializeChatMessage (Some msg) (Some buf) n = Some (int (CHAT_HEADER_SIZE + unat (m_length msg)), Some buf')
    \<and> length buf' = length buf
    \<and> drop (CHAT_HEADER_SIZE + unat (m_length msg)) buf' = drop (CHAT_HEADER_SIZE + unat (m_length msg)) buf
    \<and> DeserializeChatMessage (Some buf') n (Some out) =
        (if unat (m_length msg) mod 256 < 128
         then Some (CHAT_OK, Some (msg\<lparr>m_value := take (unat (m_length msg)) (m_value msg) @ drop (unat (m_length msg)) (m_value out)\<rparr>))
         else Some (CHAT_ERR_MALFORMED, Some out))"
proof -
  let ?k = "unat (m_length msg)" and ?v = "take (unat (m_length msg)) (m_value msg)"
  let ?rest = "drop (CHAT_HEADER_SIZE + ?k) buf"
  have v: "length ?v = ?k" using assms(1,2) by (simp add: msg_ok_def)
  have "DeserializeChatMessage (Some (frame (m_opcode msg) (m_status msg) ?v @ ?rest)) n (Some out) =
      (if ?k mod 256 < 128 then Some (CHAT_OK, Some \<lparr>m_opcode = m_opcode msg, m_length = of_nat ?k,
             m_status = m_status msg, m_value = ?v @ drop ?k (m_value out)\<rparr>)
       else Some (CHAT_ERR_MALFORMED, Some out))"
    using DeserializeChatMessage_frame [of ?v "m_opcode msg" "m_status msg" n ?rest out] v assms(2-7) by simp
  moreover have "\<lparr>m_opcode = m_opcode msg, m_length = of_nat ?k, m_status = m_status msg, m_value = ?v @ drop ?k (m_value out)\<rparr>
      = msg\<lparr>m_value := ?v @ drop ?k (m_value out)\<rparr>" by (cases msg) simp
  ultimately show ?thesis
    using SerializeChatMessage_frame [OF assms(1,2,5,6)] v assms(5,6) by simp
qed

theorem codec_roundtrip_witness:
  "\<exists>buf'. SerializeChatMessage (Some \<lparr>m_opcode = OPCODE_REGISTER, m_length = 128, m_status = CHAT_OK, m_value = replicate 256 CHR ''x''\<rparr>)
       (Some (replicate 260 NUL)) 260 = Some (132, Some buf')
     \<and> DeserializeChatMessage (Some buf') 260 (Some \<lparr>m_opcode = 0, m_length = 0, m_status = 0, m_value = replicate 256 NUL\<rparr>)
       = Some (CHAT_ERR_MALFORMED, Some \<lparr>m_opcode = 0, m_length = 0, m_status = 0, m_value = replicate 256 NUL\<rparr>)"
  using codec_roundtrip [of "\<lparr>m_opcode = OPCODE_REGISTER, m_length = 128, m_status = CHAT_OK, m_value = replicate 256 CHR ''x''\<rparr>" 260
      "replicate 260 NUL" "\<lparr>m_opcode = 0, m_length = 0, m_status = 0, m_value = replicate 256 NUL\<rparr>"]
  by (auto simp: msg_ok_def size_defs opcode_defs CHAT_OK_def)

text \<open>
  C19. Decoding is well typed on arbitrary input.  Whatever bytes arrived, \<open>DeserializeChatMessage\<close> stays inside the
  buffer and inside the struct, whose value array keeps its size.  It accepts exactly when a whole header was received,
  the length it reads fits the array and that many bytes follow, and then the value starts with these bytes;
  otherwise it answers \<open>CHAT_ERR_MALFORMED\<close> and does not write the struct.
\<close>

theorem decoder_well_typed:
  assumes "n \<le> length buf" and "msg_ok out"
  shows "\<exists>st msg. DeserializeChatMessage (Some buf) n (Some out) = Some (st, Some msg) \<and> msg_ok msg
    \<and> (st = CHAT_OK \<longleftrightarrow> CHAT_HEADER_SIZE \<le> n \<and> unat (Chat_GetLength buf) \<le> CHAT_MAX_VALUE
         \<and> CHAT_HEADER_SIZE + unat (Chat_GetLength buf) \<le> n)
    \<and> (st = CHAT_OK \<longrightarrow> m_length msg = Chat_GetLength buf \<and> m_opcode msg < 256
         \<and> take (unat (m_length msg)) (m_value msg) = take (unat (m_length msg)) (drop CHAT_HEADER_SIZE buf))
    \<and> (st \<noteq> CHAT_OK \<longrightarrow> st = CHAT_ERR_MALFORMED \<and> msg = out)"
proof -
  have op: "Chat_GetOpcode buf < 256"
    using of_char_nat_less [of "buf ! 0"] by (simp add: Chat_GetOpcode_def word_less_nat_alt unat_of_nat del: of_char_nat_less)
  let ?k = "unat (Chat_GetLength buf)"
  show ?thesis
  proof (cases "CHAT_HEADER_SIZE \<le> n \<and> ?k \<le> CHAT_MAX_VALUE \<and> CHAT_HEADER_SIZE + ?k \<le> n")
    case True
    let ?bytes = "take ?k (drop CHAT_HEADER_SIZE buf)"
    have k: "?k \<le> length buf - CHAT_HEADER_SIZE" using True assms(1) by linarith
    then have "length ?bytes = ?k" by simp
    then have w: "mem_write (m_value out) 0 ?bytes = Some (?bytes @ drop ?k (m_value out))"
      using True assms(2) mem_write_start [of ?bytes "m_value out"] by (simp add: msg_ok_def)
    have "DeserializeChatMessage (Some buf) n (Some out) = Some (CHAT_OK, Some \<lparr>m_opcode = Chat_GetOpcode buf,
        m_length = Chat_GetLength buf, m_status = Chat_GetStatus buf, m_value = ?bytes @ drop ?k (m_value out)\<rparr>)"
      using True assms(1) w by (simp add: DeserializeChatMessage_def Let_def Chat_Validate_def mem_read_def)
    then show ?thesis using True op k length_mem_write [OF w] assms by (simp add: msg_ok_def)
  next
    case False
    then have "DeserializeChatMessage (Some buf) n (Some out) = Some (CHAT_ERR_MALFORMED, Some out)"
      using assms(1) by (auto simp: DeserializeChatMessage_def Let_def Chat_Validate_def status_defs)
    then show ?thesis using False assms(2) by (simp add: status_defs)
  qed
qed

theorem decoder_well_typed_witness:
  "\<exists>st msg. DeserializeChatMessage (Some (replicate 3 NUL)) 3 (Some \<lparr>m_opcode = 0, m_length = 0, m_status = 0, m_value = replicate 256 NUL\<rparr>)
       = Some (st, Some msg) \<and> msg_ok msg \<and> st = CHAT_ERR_MALFORMED"
  using decoder_well_typed [of 3 "replicate 3 NUL" "\<lparr>m_opcode = 0, m_length = 0, m_status = 0, m_value = replicate 256 NUL\<rparr>"]
  by (auto simp: msg_ok_def size_defs)

section \<open>The string hash\<close>

lemma djb2_loop_append: "djb2_loop h (s @ t) = djb2_loop (djb2_loop h s) t"
  by (induction s arbitrary: h) auto

lemma hash_chars_djb2: "hash_chars h s = djb2_loop h s"
  by (induction s arbitrary: h) auto

lemma djb2_polynomial:
  "djb2_loop (of_int h) s = of_int (h * 33 ^ length s + (\<Sum>i < length s. schar (s ! i) * 33 ^ (length s - 1 - i)))"
proof (induction s rule: rev_induct)
  case (snoc c s)
  have "33 * (\<Sum>i < length s. schar (s ! i) * 33 ^ (length s - 1 - i)) = (\<Sum>i < length s. schar (s ! i) * 33 ^ (length s - i))"
  proof -
    have "33 * (schar (s ! i) * 33 ^ (length s - 1 - i)) = schar (s ! i) * 33 ^ (length s - i)" if "i < length s" for i
    proof -
      have "length s - i = Suc (length s - 1 - i)" using that by simp
      then show ?thesis by simp
    qed
    then show ?thesis unfolding sum_distrib_left by (intro sum.cong) simp_all
  qed
  then have s: "(\<Sum>i < length (s @ [c]). schar ((s @ [c]) ! i) * 33 ^ (length (s @ [c]) - 1 - i))
      = 33 * (\<Sum>i < length s. schar (s ! i) * 33 ^ (length s - 1 - i)) + schar c"
    by (simp add: nth_append)
  have "push_bit 5 x + x = 33 * x" for x :: "64 word" by (simp add: push_bit_eq_mult)
  then show ?case unfolding s by (simp add: djb2_loop_append snoc algebra_simps)
qed simp

text \<open>
  C32. One hash, twice.  The hash functions of the server and of the client's window manager, written separately, are the
  same function: the polynomial \<open>5381 * 33 ^ n + c\<^sub>0 * 33 ^ (n - 1) + ... + c\<^sub>n\<^sub>-\<^sub>1\<close> over the characters as signed
  bytes, modulo \<open>2 ^ 64\<close>.
\<close>

theorem hash_functions_agree:
  "ServerManagerHashFunctionDJB2 s = HashGroupName s
   \<and> HashGroupName s = of_int (5381 * 33 ^ length s + (\<Sum>i < length s. schar (s ! i) * 33 ^ (length s - 1 - i)))"
  using djb2_polynomial [of 5381 s] by (simp add: ServerManagerHashFunctionDJB2_def HashGroupName_def hash_chars_djb2)

end
