(* ===== verification/Chat_Service.thy ===== *)
theory Chat_Service
  imports Network_Protocol Group_Manager User_Store
begin

text \<open>
  The chat service as a client sees it: the abstract state is the user database and the map of live
  groups, and \<open>service\<close> gives for each request the new state, the status and the payload of the reply.
  Hash maps, pointers, lists, buffers and frames do not occur.  \<open>view_ok\<close> is the invariant that ties
  the two halves together: a live group has members, its reference count counts them, and no user
  is in a group that does not exist.  The lemmas show that every request and every disconnection
  keeps it.
\<close>

section \<open>State and requests\<close>

record server_view =
  sv_users :: user_db
  sv_groups :: groups_view

text \<open>A login carries the length of its payload: the reply to a failed one depends on it.\<close>

datatype request =
    Req_Register string string | Req_Login string string nat | Req_Logout | Req_Exit
  | Req_CreateGroup string | Req_JoinGroup string | Req_LeaveGroup string
  | Req_ListUsers | Req_ListGroups

definition terminated :: "string \<Rightarrow> string" where
  "terminated s = s @ [NUL]"

definition endpoint_text :: "GroupEndpoint \<Rightarrow> string" where
  "endpoint_text ep =
     ip_text (m_multicastAddr ep) @ '':'' @ decimal (unat (m_port ep))"

section \<open>The service\<close>

definition spec_leave_one :: "groups_view \<Rightarrow> string \<Rightarrow> groups_view" where
  "spec_leave_one V g = snd (spec_remove_if_empty (snd (spec_decrease V g)) g)"

definition spec_leave_all :: "groups_view \<Rightarrow> string list \<Rightarrow> groups_view" where
  "spec_leave_all V gs = fold (\<lambda>g V. spec_leave_one V g) gs V"

definition end_session :: "server_view \<Rightarrow> int \<Rightarrow> server_view" where
  "end_session v fd =
     (case db_session (sv_users v) fd of
        None \<Rightarrow> v
      | Some n \<Rightarrow>
          \<lparr>sv_users = snd (spec_logout (sv_users v) fd),
           sv_groups = spec_leave_all (sv_groups v) (db_groups (sv_users v) n)\<rparr>)"

text \<open>
  \<open>mem\<close> are the outcomes of the allocations, \<open>copied\<close> tells whether the group list of the user and the
  copy of the group name could be allocated, \<open>order\<close> is the order of a listing.
\<close>

definition service_join :: "mem \<Rightarrow> bool \<Rightarrow> server_view \<Rightarrow> int \<Rightarrow> string
    \<Rightarrow> UserManagerResult \<times> server_view" where
  "service_join mem copied v fd g =
     (case spec_join copied (mem Alloc_ListNode) (sv_users v) fd g of
        (r, db) \<Rightarrow>
          (r, v\<lparr>sv_users := db,
                sv_groups := (if r = USER_MANAGER_RESULT_SUCCESS then snd (spec_increase (sv_groups v) g)
                              else sv_groups v)\<rparr>))"

definition endpoint_reply :: "server_view \<Rightarrow> string \<Rightarrow> ChatStatus \<times> string" where
  "endpoint_reply v g =
     (case sv_groups v g of
        None \<Rightarrow> (CHAT_ERR_GENERIC, terminated (GroupManagerResult_toString GROUP_MANAGER_RESULT_NOT_FOUND))
      | Some grp \<Rightarrow> (CHAT_OK, terminated (endpoint_text (group_endpoint grp))))"

fun service :: "mem \<Rightarrow> bool \<Rightarrow> string list \<Rightarrow> server_view \<Rightarrow> int \<Rightarrow> request \<Rightarrow> server_view \<times> ChatStatus \<times> string" where
  "service mem copied order v fd (Req_Register n pw) =
     (case spec_register mem (sv_users v) fd n pw of
        (r, db) \<Rightarrow>
          (v\<lparr>sv_users := db\<rparr>,
           if r = USER_MANAGER_RESULT_SUCCESS then (CHAT_OK, [])
           else (CHAT_ERR_BAD_CREDS, terminated (UserManagerResult_toString r))))"
| "service mem copied order v fd (Req_Login n pw k) =
     (case spec_login mem (sv_users v) fd n pw of
        (r, db) \<Rightarrow>
          (v\<lparr>sv_users := db\<rparr>,
           if r = USER_MANAGER_RESULT_ALREADY_LOG then (CHAT_ERR_ALREADY_LOGGED_IN, [])
           else if r = USER_MANAGER_RESULT_SUCCESS then (CHAT_OK, terminated ''Login successful'')
           else (CHAT_ERR_BAD_CREDS, take k (terminated (UserManagerResult_toString r)))))"
| "service mem copied order v fd Req_Logout =
     (if db_session (sv_users v) fd = None then (v, CHAT_ERR_NOT_LOGGED_IN, [])
      else (end_session v fd, CHAT_OK, terminated ''Logout successful''))"
| "service mem copied order v fd Req_Exit = (end_session v fd, CHAT_OK, terminated ''Goodbye'')"
| "service mem copied order v fd (Req_CreateGroup g) =
     (case spec_add mem (sv_groups v) g of
        (r, V) \<Rightarrow>
          if r \<noteq> GROUP_MANAGER_RESULT_SUCCESS
          then (v\<lparr>sv_groups := V\<rparr>, CHAT_ERR_GENERIC, GroupManagerResult_toString r)
          else (case service_join mem copied (v\<lparr>sv_groups := V\<rparr>) fd g of
                  (r', v') \<Rightarrow>
                    if r' = USER_MANAGER_RESULT_SUCCESS then (v', endpoint_reply v' g)
                    else (v'\<lparr>sv_groups := (sv_groups v)\<rparr>, CHAT_ERR_GENERIC,
                          terminated (UserManagerResult_toString r'))))"
| "service mem copied order v fd (Req_JoinGroup g) =
     (if sv_groups v g = None
      then (v, CHAT_ERR_GENERIC, terminated (GroupManagerResult_toString GROUP_MANAGER_RESULT_NOT_FOUND))
      else if db_session (sv_users v) fd = None then (v, CHAT_ERR_NOT_LOGGED_IN, [])
      else (case service_join mem copied v fd g of
              (r, v') \<Rightarrow>
                if r = USER_MANAGER_RESULT_SUCCESS then (v', endpoint_reply v' g)
                else (v', CHAT_ERR_GENERIC, terminated (UserManagerResult_toString r))))"
| "service mem copied order v fd (Req_LeaveGroup g) =
     (if sv_groups v g = None
      then (v, CHAT_ERR_GENERIC, terminated (GroupManagerResult_toString GROUP_MANAGER_RESULT_NOT_FOUND))
      else (case db_session (sv_users v) fd of
              None \<Rightarrow> (v, CHAT_ERR_NOT_LOGGED_IN, [])
            | Some n \<Rightarrow>
                if g \<notin> set (db_groups (sv_users v) n) then (v, CHAT_ERR_NOT_IN_GROUP, [])
                else (\<lparr>sv_users = snd (spec_leave (sv_users v) fd g), sv_groups = spec_leave_one (sv_groups v) g\<rparr>,
                      CHAT_OK, [])))"
| "service mem copied order v fd Req_ListUsers =
     (v, CHAT_OK, terminated (take 255 (join [CHR 0x0A] (listed_lines (sv_users v) order))))"
| "service mem copied order v fd Req_ListGroups =
     (v, CHAT_OK, terminated (take 255 (join '', '' order)))"

section \<open>The invariant of the service\<close>

definition members :: "user_db \<Rightarrow> string \<Rightarrow> string set" where
  "members db g = {n. g \<in> set (db_groups db n)}"

definition group_ok :: "bool \<Rightarrow> user_db \<Rightarrow> string \<Rightarrow> Group \<Rightarrow> bool" where
  "group_ok exact db g grp \<longleftrightarrow>
     wire_name g \<and> length g \<le> CONF_GROUP_MANAGER_MAX_NAME_LENGTH \<and> 0 < group_refCount grp
     \<and> card (members db g) \<le> group_refCount grp
     \<and> (exact \<longrightarrow> card (members db g) = group_refCount grp)
     \<and> (\<exists>i < CONF_MULTICAST_MAX_GROUPS. group_endpoint grp = group_endpoint (new_group g i))"

definition view_ok :: "bool \<Rightarrow> server_view \<Rightarrow> bool" where
  "view_ok exact v \<longleftrightarrow>
     db_ok (sv_users v) \<and> db_wire (sv_users v) \<and> finite (dom (db_password (sv_users v)))
     \<and> (\<forall>g grp. sv_groups v g = Some grp \<longrightarrow> group_ok exact (sv_users v) g grp)
     \<and> (\<forall>n. \<forall>g \<in> set (db_groups (sv_users v) n). sv_groups v g \<noteq> None)"

definition empty_view :: server_view where
  "empty_view = \<lparr>sv_users = db_empty, sv_groups = Map.empty\<rparr>"

fun request_names :: "request \<Rightarrow> string list" where
  "request_names (Req_Register n pw) = [n, pw]"
| "request_names (Req_Login n pw k) = [n, pw]"
| "request_names (Req_CreateGroup g) = [g]"
| "request_names (Req_JoinGroup g) = [g]"
| "request_names (Req_LeaveGroup g) = [g]"
| "request_names _ = []"

section \<open>The database operations keep their invariant\<close>

lemma db_okD:
  assumes "db_ok db"
  shows "db_session db fd = Some n \<Longrightarrow> db_password db n \<noteq> None"
    and "db_session db a = Some n \<Longrightarrow> db_session db b = Some n \<Longrightarrow> a = b"
    and "db_groups db n \<noteq> [] \<Longrightarrow> n \<in> ran (db_session db)"
    and "distinct (db_groups db n)"
proof -
  from assms have ran: "ran (db_session db) \<subseteq> dom (db_password db)"
    and inj: "inj_on (db_session db) (dom (db_session db))"
    and "\<forall>n. db_groups db n \<noteq> [] \<longrightarrow> n \<in> ran (db_session db)" and "\<forall>n. distinct (db_groups db n)"
    by (auto simp: db_ok_def)
  then show "db_groups db n \<noteq> [] \<Longrightarrow> n \<in> ran (db_session db)" and "distinct (db_groups db n)" by auto
  show "db_session db fd = Some n \<Longrightarrow> db_password db n \<noteq> None" using ran by (auto simp: ran_def)
  show "db_session db a = Some n \<Longrightarrow> db_session db b = Some n \<Longrightarrow> a = b"
    using inj by (auto simp: inj_on_def dom_def)
qed

lemma db_okI:
  assumes "\<And>fd n. db_session db fd = Some n \<Longrightarrow> db_password db n \<noteq> None"
    and "\<And>a b n. db_session db a = Some n \<Longrightarrow> db_session db b = Some n \<Longrightarrow> a = b"
    and "\<And>n. db_groups db n \<noteq> [] \<Longrightarrow> n \<in> ran (db_session db)"
    and "\<And>n. distinct (db_groups db n)"
  shows "db_ok db"
  unfolding db_ok_def
proof (intro conjI allI impI)
  show "ran (db_session db) \<subseteq> dom (db_password db)" using assms(1) by (auto simp: ran_def)
  show "inj_on (db_session db) (dom (db_session db))"
    by (rule inj_onI) (metis assms(2) domD)
qed (use assms(3,4) in auto)

lemma ran_drop: "n \<in> ran m \<Longrightarrow> m k = Some n' \<Longrightarrow> n \<noteq> n' \<Longrightarrow> n \<in> ran (m(k := None))"
  by (auto simp: ran_def) (metis option.inject)

lemma session_ran: "db_session db fd = Some n \<Longrightarrow> n \<in> ran (db_session db)"
  by (rule ranI)

text \<open>Opening and closing a session.\<close>

lemma open_session_ok:
  assumes "db_ok db" and "db_session db fd = None" and "n \<notin> ran (db_session db)"
    and "db_session db' = (db_session db)(fd \<mapsto> n)" and "db_groups db' = db_groups db"
    and "db_password db' n \<noteq> None" and "\<And>m. db_password db m \<noteq> None \<Longrightarrow> db_password db' m \<noteq> None"
  shows "db_ok db'"
proof (rule db_okI)
  fix b m assume "db_session db' b = Some m"
  then show "db_password db' m \<noteq> None"
    using assms(4,6,7) db_okD(1) [OF assms(1), of b m] by (auto split: if_splits)
next
  fix a b m assume "db_session db' a = Some m" "db_session db' b = Some m"
  then show "a = b"
    using assms(3,4) db_okD(2) [OF assms(1), of a m b] session_ran [of db] by (auto split: if_splits)
next
  fix m assume "db_groups db' m \<noteq> []"
  then show "m \<in> ran (db_session db')"
    using assms(4,5) db_okD(3) [OF assms(1), of m] ran_map_upd [of "db_session db" fd n] assms(2) by simp
qed (use assms(1,5) db_okD(4) in auto)

lemma spec_login_ok:
  assumes "db_ok db" shows "db_ok (snd (spec_login mem db fd n pw))"
  using assms by (auto simp: spec_login_def split: option.split intro: open_session_ok [OF assms])

lemma spec_register_ok:
  assumes "db_ok db" shows "db_ok (snd (spec_register mem db fd n pw))"
proof (cases "db_password db n = None")
  case True
  then have "n \<notin> ran (db_session db)" using db_okD(1) [OF assms, of _ n] by (fastforce simp: ran_def)
  then show ?thesis using assms
    by (auto simp: spec_register_def intro!: open_session_ok [OF assms])
next
  case False
  then show ?thesis using assms by (simp add: spec_register_def)
qed

lemma spec_logout_ok:
  assumes "db_ok db" shows "db_ok (snd (spec_logout db fd))"
proof (cases "db_session db fd")
  case (Some n)
  let ?db = "db\<lparr>db_session := (db_session db)(fd := None), db_groups := (db_groups db)(n := [])\<rparr>"
  have "db_ok ?db"
  proof (rule db_okI)
    fix m assume "db_groups ?db m \<noteq> []"
    then have "m \<in> ran (db_session db)" "m \<noteq> n" using db_okD(3) [OF assms, of m] by (auto split: if_splits)
    then show "m \<in> ran (db_session ?db)" using ran_drop Some by simp
  qed (use assms db_okD in \<open>auto split: if_splits\<close>)
  then show ?thesis using Some by (simp add: spec_logout_def)
qed (use assms in \<open>simp add: spec_logout_def\<close>)

lemma set_groups_ok:
  assumes "db_ok db" and "n \<in> ran (db_session db)" and "distinct gs"
  shows "db_ok (db\<lparr>db_groups := (db_groups db)(n := gs)\<rparr>)"
  using assms by (intro db_okI) (auto dest: db_okD split: if_splits)

lemma spec_join_ok: "db_ok db \<Longrightarrow> db_ok (snd (spec_join c l db fd g))"
  by (auto simp: spec_join_def intro!: set_groups_ok session_ran db_okD(4) split: option.split)

lemma spec_leave_ok: "db_ok db \<Longrightarrow> db_ok (snd (spec_leave db fd g))"
  by (auto simp: spec_leave_def intro!: set_groups_ok session_ran distinct_remove1 db_okD(4) split: option.split)

lemma spec_keeps_names:
  "dom (db_password (snd (spec_login mem db fd n pw))) = dom (db_password db)"
  "dom (db_password (snd (spec_logout db fd))) = dom (db_password db)"
  "dom (db_password (snd (spec_join c l db fd g))) = dom (db_password db)"
  "dom (db_password (snd (spec_leave db fd g))) = dom (db_password db)"
  "dom (db_password (snd (spec_register mem db fd n pw))) \<subseteq> insert n (dom (db_password db))"
  by (auto simp: spec_login_def spec_logout_def spec_join_def spec_leave_def spec_register_def
      split: option.split)

lemma spec_keeps_groups:
  "db_groups (snd (spec_login mem db fd n pw)) = db_groups db"
  "db_groups (snd (spec_register mem db fd n pw)) = db_groups db"
  by (auto simp: spec_login_def spec_register_def split: option.split)

section \<open>Leaving groups\<close>

definition drop_ref :: "Group \<Rightarrow> Group option" where
  "drop_ref grp =
     (if group_refCount grp \<le> 1 then None else Some (grp\<lparr>group_refCount := group_refCount grp - 1\<rparr>))"

lemma spec_leave_one_eq: "spec_leave_one V g = V(g := Option.bind (V g) drop_ref)"
  by (auto simp: spec_leave_one_def spec_remove_if_empty_def spec_decrease_def drop_ref_def fun_eq_iff
      split: option.split)

lemma spec_leave_all_eq:
  "distinct gs \<Longrightarrow> spec_leave_all V gs g = (if g \<in> set gs then Option.bind (V g) drop_ref else V g)"
proof (induction gs arbitrary: V)
  case (Cons h gs)
  then have "spec_leave_all (spec_leave_one V h) gs g =
      (if g \<in> set gs then Option.bind (spec_leave_one V h g) drop_ref else spec_leave_one V h g)" by simp
  with Cons.prems show ?case by (auto simp: spec_leave_all_def spec_leave_one_eq)
qed (simp add: spec_leave_all_def)

section \<open>Every request keeps the invariant of the service\<close>

lemma server_view_eta [simp]: "v\<lparr>sv_users := db, sv_groups := V\<rparr> = \<lparr>sv_users = db, sv_groups = V\<rparr>"
  by (cases v) simp

lemma server_view_collapse [simp]: "\<lparr>sv_users = sv_users v, sv_groups = sv_groups v\<rparr> = v"
  by (cases v) simp

lemma view_okD:
  assumes "view_ok exact v"
  shows "db_ok (sv_users v)" and "db_wire (sv_users v)" and "finite (dom (db_password (sv_users v)))"
    and "sv_groups v g = Some grp \<Longrightarrow> group_ok exact (sv_users v) g grp"
    and "g \<in> set (db_groups (sv_users v) n) \<Longrightarrow> sv_groups v g \<noteq> None"
  using assms by (auto simp: view_ok_def)

lemma finite_members:
  assumes "view_ok exact v" shows "finite (members (sv_users v) g)"
proof (rule finite_subset)
  show "members (sv_users v) g \<subseteq> dom (db_password (sv_users v))"
  proof
    fix n assume "n \<in> members (sv_users v) g"
    then have "db_groups (sv_users v) n \<noteq> []" by (auto simp: members_def)
    then obtain fd where "db_session (sv_users v) fd = Some n"
      using db_okD(3) [OF view_okD(1) [OF assms]] by (auto simp: ran_def)
    then show "n \<in> dom (db_password (sv_users v))" using db_okD(1) [OF view_okD(1) [OF assms]] by blast
  qed
qed (rule view_okD(3) [OF assms])

lemma view_ok_users:
  assumes "view_ok exact v" and "db_ok db" and "db_groups db = db_groups (sv_users v)"
    and "\<forall>n \<in> dom (db_password db). wire_name n" and "finite (dom (db_password db))"
  shows "view_ok exact (v\<lparr>sv_users := db\<rparr>)"
  using assms by (auto simp: view_ok_def db_wire_def group_ok_def members_def)

text \<open>A user who leaves some groups, the groups dropping one reference each.\<close>

lemma drop_member_ok:
  assumes "view_ok exact v" and "db_ok db" and "dom (db_password db) = dom (db_password (sv_users v))"
    and "db_groups db = (db_groups (sv_users v))(n := gs')" and "set gs' = set (db_groups (sv_users v) n) - L"
    and "L \<subseteq> set (db_groups (sv_users v) n)"
    and "\<And>g. V g = (if g \<in> L then Option.bind (sv_groups v g) drop_ref else sv_groups v g)"
  shows "view_ok exact \<lparr>sv_users = db, sv_groups = V\<rparr>"
proof -
  have mem: "members db g = (if g \<in> L then members (sv_users v) g - {n} else members (sv_users v) g)" for g
    using assms(4-6) by (auto simp: members_def)
  have other: "members db g \<noteq> {} \<Longrightarrow> g \<in> L \<Longrightarrow> \<exists>grp. V g = Some grp" for g
  proof -
    assume "members db g \<noteq> {}" "g \<in> L"
    then obtain m where m: "m \<in> members (sv_users v) g" "m \<noteq> n" "n \<in> members (sv_users v) g"
      using mem [of g] assms(6) by (auto simp: members_def)
    then have "card {m, n} \<le> card (members (sv_users v) g)"
      by (intro card_mono finite_members [OF assms(1)]) auto
    moreover obtain grp where grp: "sv_groups v g = Some grp"
      using m(1) view_okD(5) [OF assms(1), of g m] by (auto simp: members_def)
    ultimately have "group_refCount grp \<ge> 2"
      using view_okD(4) [OF assms(1) grp] m(2) by (simp add: group_ok_def)
    then show ?thesis using \<open>g \<in> L\<close> grp assms(7) [of g] by (simp add: drop_ref_def)
  qed
  have groups: "group_ok exact db g grp" if "V g = Some grp" for g grp
  proof (cases "g \<in> L")
    case False
    then show ?thesis using that assms(7) [of g] view_okD(4) [OF assms(1), of g grp] mem [of g]
      by (simp add: group_ok_def)
  next
    case True
    note Vg = that
    from True obtain old where old: "sv_groups v g = Some old" "group_refCount old > 1"
        "grp = old\<lparr>group_refCount := group_refCount old - 1\<rparr>"
      using Vg assms(7) [of g] by (cases "sv_groups v g") (auto simp: drop_ref_def split: if_splits)
    have "n \<in> members (sv_users v) g" using True assms(6) by (auto simp: members_def)
    then have "card (members db g) = card (members (sv_users v) g) - 1"
      using True mem [of g] finite_members [OF assms(1), of g] by simp
    then show ?thesis using old view_okD(4) [OF assms(1) old(1)] by (auto simp: group_ok_def)
  qed
  have "V g \<noteq> None" if "g \<in> set (db_groups db m)" for m g
  proof (cases "g \<in> L")
    case True
    then show ?thesis using other [of g] that by (auto simp: members_def)
  next
    case False
    with that assms(4,5) have "g \<in> set (db_groups (sv_users v) m)" by (auto split: if_splits)
    with False show ?thesis using view_okD(5) [OF assms(1)] assms(7) [of g] by simp
  qed
  moreover have "db_wire db"
    using view_okD(2) [OF assms(1)] assms(3,4,5) by (auto simp: db_wire_def split: if_splits)
  ultimately show ?thesis
    using assms(2,3) groups view_okD(3) [OF assms(1)] by (simp add: view_ok_def)
qed

lemma end_session_ok:
  assumes "view_ok exact v" shows "view_ok exact (end_session v fd)"
proof (cases "db_session (sv_users v) fd")
  case (Some n)
  note d = view_okD(1) [OF assms]
  have "view_ok exact \<lparr>sv_users = snd (spec_logout (sv_users v) fd),
      sv_groups = spec_leave_all (sv_groups v) (db_groups (sv_users v) n)\<rparr>"
    by (rule drop_member_ok [OF assms, where n = n and gs' = "[]" and L = "set (db_groups (sv_users v) n)"])
      (use Some spec_logout_ok [OF d, of fd] db_okD(4) [OF d] spec_keeps_names(2) [of "sv_users v" fd] in
        \<open>auto simp: spec_leave_all_eq spec_logout_def\<close>)
  then show ?thesis using Some by (simp add: end_session_def)
qed (use assms in \<open>simp add: end_session_def\<close>)

text \<open>A user who joins a group that is live or has just been added without references.\<close>

lemma join_ok:
  assumes "view_ok exact v" and "spec_join c l (sv_users v) fd g = (USER_MANAGER_RESULT_SUCCESS, db)"
    and "exact \<longrightarrow> l" and "wire_name g"
    and "sv_groups v g = Some grp \<or> sv_groups v g = None \<and> length g \<le> CONF_GROUP_MANAGER_MAX_NAME_LENGTH
      \<and> i < CONF_MULTICAST_MAX_GROUPS \<and> grp = new_group g i"
  shows "view_ok exact \<lparr>sv_users = db, sv_groups = (sv_groups v)(g \<mapsto> grp\<lparr>group_refCount := group_refCount grp + 1\<rparr>)\<rparr>"
proof -
  obtain n where n: "db_session (sv_users v) fd = Some n" "g \<notin> set (db_groups (sv_users v) n)"
      "db = (if l then (sv_users v)\<lparr>db_groups := (db_groups (sv_users v))(n := db_groups (sv_users v) n @ [g])\<rparr>
             else sv_users v)"
    using assms(2) by (auto simp: spec_join_def split: option.splits if_splits)
  have mem: "members db h = (if h = g \<and> l then insert n (members (sv_users v) g) else members (sv_users v) h)" for h
    using n by (auto simp: members_def split: if_splits)
  have "members (sv_users v) g = {}" if "sv_groups v g = None"
    using view_okD(5) [OF assms(1), of g] that by (fastforce simp: members_def)
  then have old: "card (members (sv_users v) g) \<le> group_refCount grp
      \<and> (exact \<longrightarrow> card (members (sv_users v) g) = group_refCount grp)
      \<and> length g \<le> CONF_GROUP_MANAGER_MAX_NAME_LENGTH
      \<and> (\<exists>i < CONF_MULTICAST_MAX_GROUPS. group_endpoint grp = group_endpoint (new_group g i))"
    using assms(5) view_okD(4) [OF assms(1), of g grp] by (auto simp: group_ok_def new_group_def)
  have "n \<notin> members (sv_users v) g" using n(2) by (simp add: members_def)
  then have card: "card (members db g) = card (members (sv_users v) g) + (if l then 1 else 0)"
    using mem [of g] finite_members [OF assms(1), of g] by simp
  have groups: "group_ok exact db g (grp\<lparr>group_refCount := group_refCount grp + 1\<rparr>)"
    using old card assms(3,4) by (auto simp: group_ok_def)
  have others: "group_ok exact db h G" if "sv_groups v h = Some G" "h \<noteq> g" for h G
    using view_okD(4) [OF assms(1) that(1)] mem [of h] that(2) by (simp add: group_ok_def)
  have "db_ok db" "db_wire db" "finite (dom (db_password db))"
    using spec_join_ok [OF view_okD(1) [OF assms(1)], of c l fd g] view_okD(2,3) [OF assms(1)] assms(2,4) n(3)
    by (auto simp: db_wire_def)
  then show ?thesis using groups others view_okD(5) [OF assms(1)] n(3)
    by (auto simp: view_ok_def split: if_splits)
qed

lemma spec_join_failed:
  "spec_join copied node db fd g = (r, db') \<Longrightarrow> r \<noteq> USER_MANAGER_RESULT_SUCCESS \<Longrightarrow> db' = db"
  by (auto simp: spec_join_def split: option.splits if_splits)

lemma create_group_ok:
  assumes "view_ok exact v" and "wire_name g" and "exact \<longrightarrow> mem Alloc_ListNode"
  shows "view_ok exact (fst (service mem copied order v fd (Req_CreateGroup g)))"
proof -
  obtain r V where add: "spec_add mem (sv_groups v) g = (r, V)" by fastforce
  obtain r' db where j: "spec_join copied (mem Alloc_ListNode) (sv_users v) fd g = (r', db)" by fastforce
  let ?i = "card (dom (sv_groups v))"
  consider "r \<noteq> GROUP_MANAGER_RESULT_SUCCESS" | "r = GROUP_MANAGER_RESULT_SUCCESS" "r' \<noteq> USER_MANAGER_RESULT_SUCCESS"
    | "r = GROUP_MANAGER_RESULT_SUCCESS" "r' = USER_MANAGER_RESULT_SUCCESS" by blast
  then show ?thesis
  proof cases
    case 1
    then have "V = sv_groups v" using add by (auto simp: spec_add_def split: if_splits)
    then show ?thesis using add 1 assms(1) by simp
  next
    case 2
    then show ?thesis using add j spec_join_failed [OF j] assms(1) by (simp add: service_join_def)
  next
    case 3
    have V: "V = (sv_groups v)(g \<mapsto> new_group g ?i)" "sv_groups v g = None" "?i < CONF_MULTICAST_MAX_GROUPS"
        "length g \<le> CONF_GROUP_MANAGER_MAX_NAME_LENGTH"
      using add 3(1) by (auto simp: spec_add_def split: if_splits)
    have "view_ok exact \<lparr>sv_users = db, sv_groups = (sv_groups v)(g \<mapsto> (new_group g ?i)\<lparr>group_refCount := group_refCount (new_group g ?i) + 1\<rparr>)\<rparr>"
      using join_ok [OF assms(1) j [unfolded 3(2)] assms(3,2), of "new_group g ?i" ?i] V by simp
    then show ?thesis using add 3 j V(1) by (simp add: service_join_def spec_increase_def)
  qed
qed

lemma join_group_ok:
  assumes "view_ok exact v" and "wire_name g" and "exact \<longrightarrow> mem Alloc_ListNode"
  shows "view_ok exact (fst (service mem copied order v fd (Req_JoinGroup g)))"
proof -
  obtain r' db where j: "spec_join copied (mem Alloc_ListNode) (sv_users v) fd g = (r', db)" by fastforce
  consider "sv_groups v g = None \<or> db_session (sv_users v) fd = None"
    | "\<not> (sv_groups v g = None \<or> db_session (sv_users v) fd = None)" "r' \<noteq> USER_MANAGER_RESULT_SUCCESS"
    | grp where "sv_groups v g = Some grp" "db_session (sv_users v) fd \<noteq> None" "r' = USER_MANAGER_RESULT_SUCCESS"
    by (cases "sv_groups v g") auto
  then show ?thesis
  proof cases
    case 1
    then show ?thesis using assms(1) by auto
  next
    case 2
    then show ?thesis using j spec_join_failed [OF j] assms(1) by (auto simp: service_join_def)
  next
    case 3
    then show ?thesis using j join_ok [OF assms(1) j [unfolded 3(3)] assms(3,2), of grp]
      by (auto simp: service_join_def spec_increase_def)
  qed
qed

lemma leave_group_ok:
  assumes "view_ok exact v"
  shows "view_ok exact (fst (service mem copied order v fd (Req_LeaveGroup g)))"
proof (cases "\<exists>n. db_session (sv_users v) fd = Some n \<and> g \<in> set (db_groups (sv_users v) n) \<and> sv_groups v g \<noteq> None")
  case False
  then show ?thesis using assms by (auto split: option.splits)
next
  case True
  then obtain n where n: "db_session (sv_users v) fd = Some n" "g \<in> set (db_groups (sv_users v) n)" by blast
  note d = view_okD(1) [OF assms]
  have "view_ok exact \<lparr>sv_users = snd (spec_leave (sv_users v) fd g), sv_groups = spec_leave_one (sv_groups v) g\<rparr>"
    by (rule drop_member_ok [OF assms, where n = n and gs' = "remove1 g (db_groups (sv_users v) n)" and L = "{g}"])
      (use n spec_leave_ok [OF d, of fd g] db_okD(4) [OF d] spec_keeps_names(4) [of "sv_users v" fd g] in
        \<open>auto simp: spec_leave_def spec_leave_one_eq set_remove1_eq\<close>)
  then show ?thesis using True n by auto
qed

lemma service_ok:
  assumes "view_ok exact v" and "\<forall>n \<in> set (request_names req). wire_name n"
    and "exact \<longrightarrow> mem Alloc_ListNode"
  shows "view_ok exact (fst (service mem copied order v fd req))"
proof (cases req)
  case (Req_Register n pw)
  have "view_ok exact (v\<lparr>sv_users := snd (spec_register mem (sv_users v) fd n pw)\<rparr>)"
    using assms Req_Register spec_keeps_names(5) [of mem "sv_users v" fd n pw] view_okD(1-3) [OF assms(1)]
    by (intro view_ok_users) (auto simp: spec_register_ok spec_keeps_groups db_wire_def
        intro: finite_subset [OF _ finite.insertI])
  then show ?thesis using Req_Register by (simp add: case_prod_beta)
next
  case (Req_Login n pw k)
  have "view_ok exact (v\<lparr>sv_users := snd (spec_login mem (sv_users v) fd n pw)\<rparr>)"
    using assms(1) view_okD(1-3) [OF assms(1)]
    by (intro view_ok_users) (auto simp: spec_login_ok spec_keeps_groups spec_keeps_names db_wire_def)
  then show ?thesis using Req_Login by (simp add: case_prod_beta)
next
  case (Req_CreateGroup g)
  then show ?thesis using create_group_ok [where mem = mem, OF assms(1) _ assms(3)] assms(2) by (simp del: service.simps)
next
  case (Req_JoinGroup g)
  then show ?thesis using join_group_ok [where mem = mem, OF assms(1) _ assms(3)] assms(2) by (simp del: service.simps)
next
  case (Req_LeaveGroup g)
  then show ?thesis using leave_group_ok [OF assms(1)] by (simp del: service.simps)
qed (use assms(1) end_session_ok [OF assms(1)] in \<open>simp_all\<close>)

lemma empty_view_ok: "view_ok exact empty_view"
  by (auto simp: view_ok_def empty_view_def db_empty_def db_ok_def db_wire_def)

section \<open>What a request cannot do\<close>

lemma end_session_frame:
  assumes "fd' \<noteq> fd" and "db_ok (sv_users v)"
  shows "db_session (sv_users (end_session v fd)) fd' = db_session (sv_users v) fd'"
    and "db_session (sv_users v) fd' = Some n \<Longrightarrow> db_groups (sv_users (end_session v fd)) n = db_groups (sv_users v) n"
    and "db_password (sv_users (end_session v fd)) = db_password (sv_users v)"
  using assms db_okD(2) [OF assms(2), of fd n fd']
  by (auto simp: end_session_def spec_logout_def split: option.split)

text \<open>Users of other connections keep their session, their groups and everybody's password.\<close>

lemma service_frame:
  assumes "db_ok (sv_users v)" and "fd' \<noteq> fd" and "service mem copied order v fd req = (v', status, payload)"
  shows "db_session (sv_users v') fd' = db_session (sv_users v) fd'"
    and "db_session (sv_users v) fd' = Some n \<Longrightarrow> db_groups (sv_users v') n = db_groups (sv_users v) n"
proof -
  have other: "db_session (sv_users v) fd' = Some n \<Longrightarrow> db_session (sv_users v) fd = Some m \<Longrightarrow> n \<noteq> m" for m n
    using db_okD(2) [OF assms(1), of fd m fd'] assms(2) by auto
  note ends = end_session_frame [OF assms(2,1)]
  note defs = spec_register_def spec_login_def spec_join_def spec_leave_def service_join_def spec_add_def
  show "db_session (sv_users v') fd' = db_session (sv_users v) fd'"
    using assms(2,3) ends(1)
    by (cases req) (auto simp: defs Let_def split: option.splits if_splits prod.splits)
  show "db_session (sv_users v) fd' = Some n \<Longrightarrow> db_groups (sv_users v') n = db_groups (sv_users v) n"
    using assms(3) ends(2) [of n] other [of n]
    by (cases req) (auto simp: defs split: option.splits if_splits prod.splits)
qed

lemma service_keeps_passwords:
  assumes "service mem copied order v fd req = (v', status, payload)" and "db_password (sv_users v) n = Some pw"
  shows "db_password (sv_users v') n = Some pw"
  using assms
  by (cases req) (auto simp: spec_register_def spec_login_def spec_join_def spec_leave_def service_join_def
      end_session_def spec_logout_def split: option.splits if_splits prod.splits)

text \<open>A connection without a session cannot touch the groups.\<close>

lemma service_anonymous:
  assumes "service mem copied order v fd req = (v', status, payload)" and "db_session (sv_users v) fd = None"
  shows "sv_groups v' = sv_groups v" and "db_groups (sv_users v') = db_groups (sv_users v)"
  using assms
  by (cases req; auto simp: spec_register_def spec_login_def spec_join_def service_join_def end_session_def
      spec_add_def split: option.splits if_splits prod.splits)+

text \<open>A session is opened only by registering a free name or by logging in with the right password.\<close>

lemma service_opens_session:
  assumes "service mem copied order v fd req = (v', status, payload)"
    and "db_session (sv_users v) fd = None" and "db_session (sv_users v') fd = Some n"
  shows "(\<exists>pw. req = Req_Register n pw \<and> db_password (sv_users v) n = None)
    \<or> (\<exists>pw k. req = Req_Login n pw k \<and> db_password (sv_users v) n = Some pw \<and> n \<notin> ran (db_session (sv_users v)))"
  using assms
  by (cases req) (auto simp: spec_register_def spec_login_def spec_join_def service_join_def end_session_def
      split: option.splits if_splits prod.splits)

end
