(* ===== verification/Server_Refinement.thy ===== *)
theory Server_Refinement
  imports Server_Manager Chat_Service
begin

text \<open>
  The server implements the chat service: over a library that keeps its contracts, the callback for
  a received message decodes the request, answers it with exactly one \<open>OPCODE_RESPONSE\<close> frame on the
  requesting connection, and moves the abstract state as \<open>service\<close> says, for every outcome of the
  allocations and of \<open>send\<close>.  The locale \<open>chat_server\<close> joins the contracts of the two registries.
\<close>

section \<open>Representation\<close>

definition env_ok :: "server_env \<Rightarrow> bool" where
  "env_ok E \<longleftrightarrow> (\<forall>n. length (env_uninit E n) = n)"

definition sm_rep :: "('n, 'f, 'l, 'i, 'g) server_lib \<Rightarrow> ('n, 'f, 'l, 'g) ServerManager \<Rightarrow> bool" where
  "sm_rep S sm \<longleftrightarrow> um_inv (sl_users S) (sm_userManager sm) \<and> gm_inv (sl_groups S) (sm_groupManager sm)"

definition sm_view :: "('n, 'f, 'l, 'i, 'g) server_lib \<Rightarrow> ('n, 'f, 'l, 'g) ServerManager \<Rightarrow> server_view" where
  "sm_view S sm =
     \<lparr>sv_users = um_db (sl_users S) (sm_userManager sm), sv_groups = gm_view (sl_groups S) (sm_groupManager sm)\<rparr>"

text \<open>A reply: one call of \<open>send\<close>, unless its buffer cannot be allocated.\<close>

definition sent :: "server_env \<Rightarrow> int \<Rightarrow> ChatStatus \<Rightarrow> string \<Rightarrow> sends" where
  "sent E fd status payload =
     (if env_mem E Alloc_SendBuffer then [(fd, frame OPCODE_RESPONSE status payload)] else [])"

text \<open>The request a decoded message stands for; none when its value lacks a terminator.\<close>

definition request_of :: "ChatMessage \<Rightarrow> request option" where
  "request_of msg =
     (let op = m_opcode msg; name = c_string_at (m_value msg) 0
      in if op = OPCODE_REGISTER
         then do { n \<leftarrow> name; pw \<leftarrow> c_string_at (m_value msg) (length n + 1); Some (Req_Register n pw) }
         else if op = OPCODE_LOGIN
         then do { n \<leftarrow> name; pw \<leftarrow> c_string_at (m_value msg) (length n + 1);
                   Some (Req_Login n pw (unat (m_length msg))) }
         else if op = OPCODE_LOGOUT then Some Req_Logout
         else if op = OPCODE_EXIT then Some Req_Exit
         else if op = OPCODE_CREATE_GROUP then map_option Req_CreateGroup name
         else if op = OPCODE_JOIN_GROUP then map_option Req_JoinGroup name
         else if op = OPCODE_LEAVE_GROUP then map_option Req_LeaveGroup name
         else if op = OPCODE_LIST_USERS then Some Req_ListUsers
         else if op = OPCODE_LIST_GROUPS then Some Req_ListGroups
         else None)"

definition known_opcode :: "MessageOpcode \<Rightarrow> bool" where
  "known_opcode op \<longleftrightarrow>
     op \<in> {OPCODE_REGISTER, OPCODE_LOGIN, OPCODE_LOGOUT, OPCODE_EXIT, OPCODE_CREATE_GROUP,
           OPCODE_JOIN_GROUP, OPCODE_LEAVE_GROUP, OPCODE_LIST_USERS, OPCODE_LIST_GROUPS}"

text \<open>
  The one reply whose length does not come from its text: a failed login answers with as many bytes
  of the result's name as the request had.
\<close>

definition reply_fits :: "mem \<Rightarrow> server_view \<Rightarrow> int \<Rightarrow> request \<Rightarrow> bool" where
  "reply_fits mem v fd req \<longleftrightarrow>
     (case req of
        Req_Login n pw k \<Rightarrow>
          (case fst (spec_login mem (sv_users v) fd n pw) of
             USER_MANAGER_RESULT_SUCCESS \<Rightarrow> True
           | USER_MANAGER_RESULT_ALREADY_LOG \<Rightarrow> True
           | r \<Rightarrow> k \<le> length (UserManagerResult_toString r) + 1)
      | _ \<Rightarrow> True)"

definition order_ok :: "server_view \<Rightarrow> request \<Rightarrow> string list \<Rightarrow> bool" where
  "order_ok v req order \<longleftrightarrow>
     distinct order
     \<and> set order = (if req = Req_ListUsers then dom (db_password (sv_users v)) else dom (sv_groups v))"

definition answers ::
  "('n, 'f, 'l, 'i, 'g) server_lib \<Rightarrow> server_env \<Rightarrow> ('n, 'f, 'l, 'g) ServerManager \<Rightarrow> int \<Rightarrow> request
     \<Rightarrow> (('n, 'f, 'l, 'g) ServerManager \<times> sends) option \<Rightarrow> bool" where
  "answers S E sm fd req result \<longleftrightarrow>
     (\<exists>sm' copied order status payload.
        result = Some (sm', sent E fd status payload) \<and> sm_rep S sm'
        \<and> (env_mem E Alloc_List \<and> env_mem E Alloc_GroupNameCopy \<longrightarrow> copied)
        \<and> order_ok (sm_view S sm) req order
        \<and> service (env_mem E) copied order (sm_view S sm) fd req = (sm_view S sm', status, payload))"

section \<open>Replies\<close>

lemma SendMessage_frame:
  assumes "env_ok E" and "n \<le> CHAT_MAX_VALUE" and "length value = CHAT_MAX_VALUE" and "env_mem E Alloc_SendBuffer"
  shows "SerializeChatMessage (Some \<lparr>m_opcode = OPCODE_RESPONSE, m_length = of_nat n, m_status = st, m_value = value\<rparr>)
      (Some (env_uninit E (CHAT_HEADER_SIZE + n))) (CHAT_HEADER_SIZE + n) =
    Some (int (CHAT_HEADER_SIZE + n), Some (frame OPCODE_RESPONSE st (take n value)))"
proof -
  have u: "unat (of_nat n :: 16 word) = n" using assms(2) by (intro unat_word16) (simp add: size_defs)
  let ?msg = "\<lparr>m_opcode = OPCODE_RESPONSE, m_length = of_nat n, m_status = st, m_value = value\<rparr>"
  have "drop (CHAT_HEADER_SIZE + n) (env_uninit E (CHAT_HEADER_SIZE + n)) = []" using assms(1) by (simp add: env_ok_def)
  then show ?thesis
    using SerializeChatMessage_frame [of ?msg "CHAT_HEADER_SIZE + n" "env_uninit E (CHAT_HEADER_SIZE + n)"] assms u
    by (simp add: msg_ok_def env_ok_def)
qed

lemma send_bytes:
  assumes "env_ok E" and "n \<le> CHAT_MAX_VALUE" and "n \<le> length obj"
  shows "ServerManager_SendOrLog E rec st (Some obj) n = Some (sent E (m_fdConnection rec) st (take n obj))"
proof -
  let ?v = "take n obj @ drop n (env_uninit E CHAT_MAX_VALUE)"
  have len: "length (env_uninit E CHAT_MAX_VALUE) = CHAT_MAX_VALUE" using assms(1) by (simp add: env_ok_def)
  have w: "mem_write (env_uninit E CHAT_MAX_VALUE) 0 (take n obj) = Some ?v"
    using assms len mem_write_start [of "take n obj" "env_uninit E CHAT_MAX_VALUE"] by (simp add: min_def)
  have r: "mem_read obj 0 n = Some (take n obj)" using assms(3) by (simp add: mem_read_def)
  have v: "length ?v = CHAT_MAX_VALUE" "take n ?v = take n obj" using assms(2,3) len by auto
  have fr: "mem_read (frame OPCODE_RESPONSE st p) 0 (CHAT_HEADER_SIZE + length p) = Some (frame OPCODE_RESPONSE st p)" for p
    by (simp add: mem_read_def)
  from fr [of "take n obj"] assms(3)
  have fr': "mem_read (frame OPCODE_RESPONSE st (take n obj)) 0 (CHAT_HEADER_SIZE + n) = Some (frame OPCODE_RESPONSE st (take n obj))"
    by (simp add: min_absorb2)
  have u0: "mem_read (frame OPCODE_RESPONSE st []) 0 CHAT_HEADER_SIZE = Some (frame OPCODE_RESPONSE st [])"
    using fr [of "[]"] by simp
  have nat4: "nat (int CHAT_HEADER_SIZE + int n) = CHAT_HEADER_SIZE + n" by simp
  have z: "\<not> int CHAT_HEADER_SIZE + int n < 0" by simp
  show ?thesis
  proof (cases "env_mem E Alloc_SendBuffer")
    case True
    then show ?thesis
      using assms(2) r w SendMessage_frame [OF assms(1,2) v(1) True, of st, unfolded v(2)]
        SendMessage_frame [OF assms(1,2) len True, of st] fr' u0 nat4 z
      by (cases "n = 0") (simp_all add: ServerManager_SendOrLog_def ServerManager_SendMessage_def Let_def sent_def nat_add_distrib)
  next
    case False
    then show ?thesis using assms(2) r w
      by (cases "n = 0") (simp_all add: ServerManager_SendOrLog_def ServerManager_SendMessage_def Let_def sent_def)
  qed
qed

lemma send_none:
  assumes "env_ok E"
  shows "ServerManager_SendOrLog E rec st None 0 = Some (sent E (m_fdConnection rec) st [])"
proof -
  have "ServerManager_SendOrLog E rec st None 0 = ServerManager_SendOrLog E rec st (Some []) 0"
    by (simp add: ServerManager_SendOrLog_def ServerManager_SendMessage_def)
  then show ?thesis using send_bytes [OF assms, of 0 "[]"] by simp
qed

lemma send_overread:
  "n \<le> CHAT_MAX_VALUE \<Longrightarrow> length obj < n \<Longrightarrow> ServerManager_SendOrLog E rec st (Some obj) n = None"
  by (auto simp: ServerManager_SendOrLog_def ServerManager_SendMessage_def mem_read_def)

lemma reply_text_sent:
  assumes "env_ok E" and "length txt < CHAT_MAX_VALUE"
  shows "reply_text E rec st txt (Suc 0) = Some (sent E (m_fdConnection rec) st (terminated txt))"
    and "reply_text E rec st txt 0 = Some (sent E (m_fdConnection rec) st txt)"
  using send_bytes [OF assms(1), of "length txt + 1" "c_literal txt"]
    send_bytes [OF assms(1), of "length txt" "c_literal txt"] assms(2)
  by (simp_all add: reply_text_def c_literal_def terminated_def)

lemma result_text_short:
  "length (UserManagerResult_toString r) < CHAT_MAX_VALUE"
  "length (GroupManagerResult_toString r') < CHAT_MAX_VALUE"
  by (cases r; simp add: size_defs) (cases r'; simp add: size_defs)

lemmas reply_result_sent =
  reply_text_sent [OF _ result_text_short(1)] reply_text_sent [OF _ result_text_short(2)]

section \<open>Endpoints\<close>

lemma endpoint_text_bounds:
  "length (endpoint_text ep) < CONF_MULTICAST_ENDPOINT_STR_MAX" "NUL \<notin> set (endpoint_text ep)"
proof -
  have "unat (m_port ep) < 2 ^ 16" using unsigned_less [of "m_port ep"] by simp
  then have "unat (m_port ep) < 10 ^ Suc 4" by simp
  from decimal_length [OF this] addr_text_bounds [of "m_multicastAddr ep"]
  show "length (endpoint_text ep) < CONF_MULTICAST_ENDPOINT_STR_MAX"
    by (simp add: endpoint_text_def CONF_MULTICAST_ENDPOINT_STR_MAX_def)
  show "NUL \<notin> set (endpoint_text ep)"
    using decimal_no_NUL addr_text_bounds by (auto simp: endpoint_text_def NUL_def)
qed

section \<open>The handlers\<close>

text \<open>The contracts of the two registries, for the library one server uses.\<close>

locale chat_server =
  users: user_store "sl_users S" + groups: group_store "sl_groups S"
  for S :: "('n, 'f, 'l, 'i, 'g) server_lib"
begin

lemma rep_parts:
  assumes "sm_rep S sm"
  shows "um_inv (sl_users S) (sm_userManager sm)" and "gm_inv (sl_groups S) (sm_groupManager sm)"
  using assms by (simp_all add: sm_rep_def)

lemma view_parts:
  "sv_users (sm_view S sm) = um_db (sl_users S) (sm_userManager sm)"
  "sv_groups (sm_view S sm) = gm_view (sl_groups S) (sm_groupManager sm)"
  by (simp_all add: sm_view_def)

lemma rep_upd:
  assumes "sm_rep S sm"
  shows "um_inv (sl_users S) um \<Longrightarrow> sm_rep S (sm\<lparr>sm_userManager := um\<rparr>)"
    and "gm_inv (sl_groups S) gm \<Longrightarrow> sm_rep S (sm\<lparr>sm_groupManager := gm\<rparr>)"
    and "um_inv (sl_users S) um \<Longrightarrow> gm_inv (sl_groups S) gm \<Longrightarrow> sm_rep S (sm\<lparr>sm_userManager := um, sm_groupManager := gm\<rparr>)"
  using assms by (simp_all add: sm_rep_def)

lemma view_upd:
  "sm_view S (sm\<lparr>sm_userManager := um\<rparr>) = (sm_view S sm)\<lparr>sv_users := um_db (sl_users S) um\<rparr>"
  "sm_view S (sm\<lparr>sm_groupManager := gm\<rparr>) = (sm_view S sm)\<lparr>sv_groups := gm_view (sl_groups S) gm\<rparr>"
  by (simp_all add: sm_view_def)

lemma some_order: "\<exists>order. order_ok (sm_view S sm) req order"
proof -
  have "finite (dom (db_password (um_db (sl_users S) (sm_userManager sm))))"
    using users.by_name.finite_dom [of "um_usersByName (sm_userManager sm)"]
    by (rule rev_finite_subset) (auto simp: um_db_def user_named_def split: bind_splits)
  moreover have "finite (dom (gm_view (sl_groups S) (sm_groupManager sm)))"
    using groups.finite_dom [of "gm_groups (sm_groupManager sm)"]
    by (rule rev_finite_subset) (auto simp: gm_view_def split: option.splits)
  ultimately show ?thesis
    using finite_distinct_list [of "dom (db_password (um_db (sl_users S) (sm_userManager sm)))"]
      finite_distinct_list [of "dom (gm_view (sl_groups S) (sm_groupManager sm))"]
    by (cases "req = Req_ListUsers") (auto simp: order_ok_def view_parts)
qed

lemma answersI:
  assumes "result = Some (sm', sent E fd status payload)" and "sm_rep S sm'"
    and "env_mem E Alloc_List \<and> env_mem E Alloc_GroupNameCopy \<longrightarrow> copied"
    and "\<And>order. order_ok (sm_view S sm) req order \<Longrightarrow>
      service (env_mem E) copied order (sm_view S sm) fd req = (sm_view S sm', status, payload)"
  shows "answers S E sm fd req result"
  using assms some_order [of sm req] unfolding answers_def by blast

lemma register_answers:
  assumes "sm_rep S sm" and "env_ok E" and "c_string_at (m_value msg) 0 = Some n"
    and "c_string_at (m_value msg) (length n + 1) = Some pw"
  shows "answers S E sm (m_fdConnection rec) (Req_Register n pw) (ServerManager_ActionRegister S E sm rec msg)"
proof -
  let ?db = "um_db (sl_users S) (sm_userManager sm)" and ?fd = "m_fdConnection rec"
  obtain r db where sp: "spec_register (env_mem E) ?db ?fd n pw = (r, db)" by fastforce
  obtain um where um: "UserManager_AddUser (sl_users S) (env_mem E) (Some (sm_userManager sm)) ?fd (Some n) (Some pw)
        = Some (r, Some um)" "um_inv (sl_users S) um" "um_db (sl_users S) um = db"
    using users.register_refines [OF rep_parts(1) [OF assms(1)], of "env_mem E" ?fd n pw] sp by auto
  show ?thesis
    by (rule answersI [where copied = True and sm' = "sm\<lparr>sm_userManager := um\<rparr>"
          and status = "if r = USER_MANAGER_RESULT_SUCCESS then CHAT_OK else CHAT_ERR_BAD_CREDS"
          and payload = "if r = USER_MANAGER_RESULT_SUCCESS then [] else terminated (UserManagerResult_toString r)"])
      (use assms sp um in \<open>auto simp: ServerManager_ActionRegister_def Let_def send_none reply_result_sent rep_upd
          view_parts view_upd\<close>)
qed

lemma login_answers:
  assumes "sm_rep S sm" and "env_ok E" and "c_string_at (m_value msg) 0 = Some n"
    and "c_string_at (m_value msg) (length n + 1) = Some pw" and "unat (m_length msg) \<le> CHAT_MAX_VALUE"
  shows "if reply_fits (env_mem E) (sm_view S sm) (m_fdConnection rec) (Req_Login n pw (unat (m_length msg)))
    then answers S E sm (m_fdConnection rec) (Req_Login n pw (unat (m_length msg))) (ServerManager_ActionLogin S E sm rec msg)
    else ServerManager_ActionLogin S E sm rec msg = None"
proof -
  let ?db = "um_db (sl_users S) (sm_userManager sm)" and ?fd = "m_fdConnection rec" and ?k = "unat (m_length msg)"
  obtain r db where sp: "spec_login (env_mem E) ?db ?fd n pw = (r, db)" by fastforce
  obtain um where um: "UserManager_Login (sl_users S) (env_mem E) (Some (sm_userManager sm)) ?fd (Some n) (Some pw)
        = Some (r, Some um)" "um_inv (sl_users S) um" "um_db (sl_users S) um = db"
    using users.login_refines [OF rep_parts(1) [OF assms(1)], of "env_mem E" ?fd n pw] sp by auto
  let ?txt = "UserManagerResult_toString r"
  have fits: "reply_fits (env_mem E) (sm_view S sm) ?fd (Req_Login n pw ?k) \<longleftrightarrow>
      r = USER_MANAGER_RESULT_SUCCESS \<or> r = USER_MANAGER_RESULT_ALREADY_LOG \<or> ?k \<le> length ?txt + 1"
    using sp by (cases r) (simp_all add: reply_fits_def view_parts)
  have len: "length (c_literal ?txt) = length ?txt + 1" by (simp add: c_literal_def)
  have lit: "c_literal ?txt = terminated ?txt" by (simp add: c_literal_def terminated_def)
  have short: "length ''Login successful'' < CHAT_MAX_VALUE" by (simp add: size_defs)
  note result = ServerManager_ActionLogin_def Let_def
  show ?thesis
  proof (cases "reply_fits (env_mem E) (sm_view S sm) ?fd (Req_Login n pw ?k)")
    case False
    then have "ServerManager_SendOrLog E rec CHAT_ERR_BAD_CREDS (Some (c_literal ?txt)) ?k = None"
      using fits len send_overread assms(5) by simp
    then show ?thesis using False fits assms um by (simp add: result)
  next
    case True
    let ?st = "if r = USER_MANAGER_RESULT_ALREADY_LOG then CHAT_ERR_ALREADY_LOGGED_IN
               else if r = USER_MANAGER_RESULT_SUCCESS then CHAT_OK else CHAT_ERR_BAD_CREDS"
    let ?pl = "if r = USER_MANAGER_RESULT_ALREADY_LOG then []
               else if r = USER_MANAGER_RESULT_SUCCESS then terminated ''Login successful''
               else take ?k (terminated ?txt)"
    have failed: "r \<noteq> USER_MANAGER_RESULT_SUCCESS \<Longrightarrow> r \<noteq> USER_MANAGER_RESULT_ALREADY_LOG \<Longrightarrow>
        ServerManager_SendOrLog E rec CHAT_ERR_BAD_CREDS (Some (c_literal ?txt)) ?k =
          Some (sent E ?fd CHAT_ERR_BAD_CREDS (take ?k (terminated ?txt)))"
      using True fits len send_bytes [OF assms(2,5)] lit by simp
    have "answers S E sm ?fd (Req_Login n pw ?k) (ServerManager_ActionLogin S E sm rec msg)"
      by (rule answersI [where copied = True and sm' = "sm\<lparr>sm_userManager := um\<rparr>" and status = ?st and payload = ?pl])
        (use assms sp um failed in \<open>auto simp: result send_none reply_text_sent(1) [OF _ short] rep_upd
            view_parts view_upd\<close>)
    then show ?thesis using True by simp
  qed
qed

section \<open>Sessions\<close>

lemma leave_each_refines:
  assumes "gm_inv (sl_groups S) gm"
  shows "\<exists>gm'. leave_each (sl_groups S) (map Some gs) gm = Some gm' \<and> gm_inv (sl_groups S) gm'
    \<and> gm_view (sl_groups S) gm' = spec_leave_all (gm_view (sl_groups S) gm) gs"
  using assms
proof (induction gs arbitrary: gm)
  case Nil
  then show ?case by (simp add: spec_leave_all_def)
next
  case (Cons g gs)
  obtain gm1 where d: "GroupManager_DecreaseGroupRefCount (sl_groups S) (Some gm) (Some g) None =
        Some (fst (spec_decrease (gm_view (sl_groups S) gm) g), None, Some gm1)" "gm_inv (sl_groups S) gm1"
      "gm_view (sl_groups S) gm1 = snd (spec_decrease (gm_view (sl_groups S) gm) g)"
    using groups.decrease_refines [OF Cons.prems] by blast
  obtain gm2 where r: "GroupManager_RemoveGroupIfEmpty (sl_groups S) (Some gm1) (Some g) =
        Some (fst (spec_remove_if_empty (gm_view (sl_groups S) gm1) g), Some gm2)" "gm_inv (sl_groups S) gm2"
      "gm_view (sl_groups S) gm2 = snd (spec_remove_if_empty (gm_view (sl_groups S) gm1) g)"
    using groups.remove_refines [OF d(2)] by blast
  have "gm_view (sl_groups S) gm2 = spec_leave_one (gm_view (sl_groups S) gm) g"
    by (simp add: r(3) d(3) spec_leave_one_def)
  then show ?case using Cons.IH [OF r(2)] d(1) r(1) by (simp add: spec_leave_all_def)
qed

lemma leave_all_groups:
  assumes "sm_rep S sm" and "db_session (sv_users (sm_view S sm)) fd = Some n"
  shows "\<exists>sm'. ServerManager_LeaveAllGroups S sm fd = Some sm' \<and> sm_rep S sm'
    \<and> sm_userManager sm' = sm_userManager sm
    \<and> sm_view S sm' = (sm_view S sm)\<lparr>sv_groups := spec_leave_all (sv_groups (sm_view S sm)) (db_groups (sv_users (sm_view S sm)) n)\<rparr>"
proof -
  let ?gs = "db_groups (sv_users (sm_view S sm)) n" and ?um = "sm_userManager sm"
  note um = rep_parts(1) [OF assms(1)]
  have c: "UserManager_GetUserGroupCount (sl_users S) (Some ?um) fd (Some 0) = Some (USER_MANAGER_RESULT_SUCCESS, Some (length ?gs))"
    using users.user_group_count [OF um, of fd 0] assms(2) by (simp add: view_parts)
  show ?thesis
  proof (cases "?gs = []")
    case True
    then show ?thesis using c assms(1)
      by (auto simp: ServerManager_LeaveAllGroups_def spec_leave_all_def view_parts sm_view_def)
  next
    case False
    have g: "UserManager_GetUserGroups (sl_users S) (Some ?um) fd (Some (replicate (length ?gs) None)) (length ?gs) (Some 0)
        = Some (USER_MANAGER_RESULT_SUCCESS, Some (map Some ?gs), Some (length ?gs))"
      using users.user_groups_filled [OF um, of fd n "replicate (length ?gs) None" 0] assms(2) False
      by (simp add: view_parts)
    obtain gm where gm: "leave_each (sl_groups S) (map Some ?gs) (sm_groupManager sm) = Some gm" "gm_inv (sl_groups S) gm"
        "gm_view (sl_groups S) gm = spec_leave_all (gm_view (sl_groups S) (sm_groupManager sm)) ?gs"
      using leave_each_refines [OF rep_parts(2) [OF assms(1)]] by blast
    have "ServerManager_LeaveAllGroups S sm fd = Some (sm\<lparr>sm_groupManager := gm\<rparr>)"
      using c g gm(1) False by (simp add: ServerManager_LeaveAllGroups_def)
    then show ?thesis using gm assms(1) by (simp add: rep_upd view_upd view_parts)
  qed
qed

lemma session_ends:
  assumes "sm_rep S sm" and "db_session (sv_users (sm_view S sm)) fd = Some n"
  obtains sm1 um name where "ServerManager_LeaveAllGroups S sm fd = Some sm1"
    and "UserManager_Logout (sl_users S) mem (Some (sm_userManager sm1)) fd out = Some (USER_MANAGER_RESULT_SUCCESS, name, Some um)"
    and "sm_rep S (sm1\<lparr>sm_userManager := um\<rparr>)"
    and "sm_view S (sm1\<lparr>sm_userManager := um\<rparr>) = end_session (sm_view S sm) fd"
proof -
  obtain sm1 where sm1: "ServerManager_LeaveAllGroups S sm fd = Some sm1" "sm_rep S sm1"
      "sm_userManager sm1 = sm_userManager sm"
      "sm_view S sm1 = (sm_view S sm)\<lparr>sv_groups := spec_leave_all (sv_groups (sm_view S sm)) (db_groups (sv_users (sm_view S sm)) n)\<rparr>"
    using leave_all_groups [OF assms] by blast
  obtain um name where um: "UserManager_Logout (sl_users S) mem (Some (sm_userManager sm1)) fd out =
        Some (fst (spec_logout (sv_users (sm_view S sm)) fd), name, Some um)" "um_inv (sl_users S) um"
      "um_db (sl_users S) um = snd (spec_logout (sv_users (sm_view S sm)) fd)"
    using users.logout_refines [OF rep_parts(1) [OF sm1(2)], of mem fd out] sm1(3) by (auto simp: view_parts)
  have "fst (spec_logout (sv_users (sm_view S sm)) fd) = USER_MANAGER_RESULT_SUCCESS"
    using assms(2) by (simp add: spec_logout_def)
  moreover have "sm_view S (sm1\<lparr>sm_userManager := um\<rparr>) = end_session (sm_view S sm) fd"
    using assms(2) um(3) by (simp add: view_upd sm1(4) end_session_def)
  ultimately show ?thesis using that sm1 um rep_upd(1) [OF sm1(2) um(2)] by simp
qed

lemma cleanup_session:
  assumes "sm_rep S sm"
  shows "\<exists>sm'. ServerManager_CleanupSession S E sm rec = Some sm' \<and> sm_rep S sm'
    \<and> sm_view S sm' = end_session (sm_view S sm) (m_fdConnection rec)"
proof (cases "db_session (sv_users (sm_view S sm)) (m_fdConnection rec)")
  case None
  then show ?thesis using assms users.is_logged_in [OF rep_parts(1) [OF assms]]
    by (simp add: ServerManager_CleanupSession_def end_session_def view_parts)
next
  case (Some n)
  then show ?thesis using users.is_logged_in [OF rep_parts(1) [OF assms]]
    by (rule_tac session_ends [OF assms Some, of "env_mem E" "Some None"])
      (simp add: ServerManager_CleanupSession_def view_parts)
qed

lemma logout_answers:
  assumes "sm_rep S sm" and "env_ok E"
  shows "answers S E sm (m_fdConnection rec) Req_Logout (ServerManager_ActionLogout S E sm rec msg)"
proof (cases "db_session (sv_users (sm_view S sm)) (m_fdConnection rec)")
  case None
  then show ?thesis
    by (intro answersI [where sm' = sm and copied = True and status = CHAT_ERR_NOT_LOGGED_IN and payload = "[]"])
      (use assms users.is_logged_in [OF rep_parts(1) [OF assms(1)]] in
        \<open>simp_all add: ServerManager_ActionLogout_def send_none view_parts\<close>)
next
  case (Some n)
  have short: "length ''Logout successful'' < CHAT_MAX_VALUE" by (simp add: size_defs)
  obtain sm1 um name where e: "ServerManager_LeaveAllGroups S sm (m_fdConnection rec) = Some sm1"
    "UserManager_Logout (sl_users S) (env_mem E) (Some (sm_userManager sm1)) (m_fdConnection rec) (Some None)
       = Some (USER_MANAGER_RESULT_SUCCESS, name, Some um)"
    "sm_rep S (sm1\<lparr>sm_userManager := um\<rparr>)"
    "sm_view S (sm1\<lparr>sm_userManager := um\<rparr>) = end_session (sm_view S sm) (m_fdConnection rec)"
    using session_ends [OF assms(1) Some, of "env_mem E" "Some None"] .
  show ?thesis
    by (rule answersI [where sm' = "sm1\<lparr>sm_userManager := um\<rparr>" and copied = True and status = CHAT_OK
          and payload = "terminated ''Logout successful''"])
      (use assms Some e users.is_logged_in [OF rep_parts(1) [OF assms(1)]] in
        \<open>simp_all add: ServerManager_ActionLogout_def Let_def reply_text_sent(1) [OF _ short] view_parts\<close>)
qed

lemma exit_answers:
  assumes "sm_rep S sm" and "env_ok E"
  shows "answers S E sm (m_fdConnection rec) Req_Exit (ServerManager_ActionExit S E sm rec msg)"
proof -
  obtain sm' where c: "ServerManager_CleanupSession S E sm rec = Some sm'" "sm_rep S sm'"
      "sm_view S sm' = end_session (sm_view S sm) (m_fdConnection rec)"
    using cleanup_session [OF assms(1)] by blast
  have short: "length ''Goodbye'' < CHAT_MAX_VALUE" by (simp add: size_defs)
  show ?thesis
    by (rule answersI [where sm' = sm' and copied = True and status = CHAT_OK and payload = "terminated ''Goodbye''"])
      (use c assms(2) in \<open>simp_all add: ServerManager_ActionExit_def reply_text_sent(1) [OF _ short]\<close>)
qed

section \<open>Groups\<close>

lemma send_group_endpoint:
  assumes "sm_rep S sm" and "env_ok E" and "endpoint_reply (sm_view S sm) g = (st, pl)"
  shows "ServerManager_SendGroupEndpoint S E sm rec g = Some (sent E (m_fdConnection rec) st pl)"
proof -
  note gm = rep_parts(2) [OF assms(1)]
  show ?thesis
  proof (cases "gm_view (sl_groups S) (sm_groupManager sm) g")
    case None
    then show ?thesis using assms groups.get_group_endpoint [OF gm, of g empty_endpoint]
        reply_result_sent(3) [OF assms(2), of rec CHAT_ERR_GENERIC GROUP_MANAGER_RESULT_NOT_FOUND]
      by (simp add: ServerManager_SendGroupEndpoint_def endpoint_reply_def view_parts)
  next
    case (Some grp)
    let ?t = "endpoint_text (group_endpoint grp)" and ?n = CONF_MULTICAST_ENDPOINT_STR_MAX
    have t: "ip_text (m_multicastAddr (group_endpoint grp)) @ CHR '':'' # decimal (unat (m_port (group_endpoint grp))) = ?t"
      by (simp add: endpoint_text_def)
    have u: "length (env_uninit E INET_ADDRSTRLEN) = INET_ADDRSTRLEN" using assms(2) by (simp add: env_ok_def)
    have n: "length (env_uninit E ?n) = ?n" "0 < ?n" "?n \<le> CHAT_MAX_VALUE"
      using assms(2) by (simp_all add: env_ok_def config_defs size_defs)
    note b = endpoint_text_bounds [of "group_endpoint grp"]
    let ?w = "take (?n - 1) ?t @ [NUL]"
    have "take (?n - 1) ?t = ?t" using b(1) by simp
    then have "mem_write (env_uninit E ?n) 0 ?w = Some (?t @ NUL # drop (Suc (length ?t)) (env_uninit E ?n))"
      using mem_write_start [of "?t @ [NUL]" "env_uninit E ?n"] b(1) n(1) by simp
    then have sn: "snprintf (env_uninit E ?n) 0 ?n ?t = Some (int (length ?t), ?t @ NUL # drop (Suc (length ?t)) (env_uninit E ?n))"
      using b(1) n(2) by (simp add: snprintf_def snprintf_result_def config_defs)
    have "take (Suc (length ?t)) (?t @ NUL # drop (Suc (length ?t)) (env_uninit E ?n)) = terminated ?t"
      by (simp add: terminated_def)
    then have "ServerManager_SendOrLog E rec CHAT_OK (Some (?t @ NUL # drop (Suc (length ?t)) (env_uninit E ?n))) (Suc (length ?t))
        = Some (sent E (m_fdConnection rec) CHAT_OK (terminated ?t))"
      using send_bytes [OF assms(2), of "Suc (length ?t)" "?t @ NUL # drop (Suc (length ?t)) (env_uninit E ?n)" rec CHAT_OK] b(1) n(1,3)
      by simp
    then show ?thesis
      using Some assms(3) groups.get_group_endpoint [OF gm, of g empty_endpoint] b(1) sn
      by (simp add: ServerManager_SendGroupEndpoint_def convert_ip [OF u] converted_ip t endpoint_reply_def view_parts)
  qed
qed

text \<open>Adding the user to a group and counting the reference, as the handlers for create and join do.\<close>

lemma join_step:
  assumes "sm_rep S sm"
  obtains copied r um where "env_mem E Alloc_List \<and> env_mem E Alloc_GroupNameCopy \<longrightarrow> copied"
    and "UserManager_AddUserToGroup (sl_users S) (env_mem E) (Some (sm_userManager sm)) fd (Some g) = Some (r, Some um)"
    and "um_inv (sl_users S) um"
    and "spec_join copied (env_mem E Alloc_ListNode) (sv_users (sm_view S sm)) fd g = (r, um_db (sl_users S) um)"
proof -
  obtain copied um where c: "env_mem E Alloc_List \<and> env_mem E Alloc_GroupNameCopy \<longrightarrow> copied"
      "UserManager_AddUserToGroup (sl_users S) (env_mem E) (Some (sm_userManager sm)) fd (Some g) =
        Some (fst (spec_join copied (env_mem E Alloc_ListNode) (sv_users (sm_view S sm)) fd g), Some um)"
      "um_inv (sl_users S) um"
      "um_db (sl_users S) um = snd (spec_join copied (env_mem E Alloc_ListNode) (sv_users (sm_view S sm)) fd g)"
    using users.join_refines [OF rep_parts(1) [OF assms], of "env_mem E" fd g] by (auto simp: view_parts)
  then show ?thesis using that by (metis prod.collapse)
qed

lemma increase_step:
  assumes "gm_inv (sl_groups S) gm"
  obtains gm' where "GroupManager_IncreaseGroupRefCount (sl_groups S) (Some gm) (Some g) None =
      Some (fst (spec_increase (gm_view (sl_groups S) gm) g), None, Some gm')"
    and "gm_inv (sl_groups S) gm'" and "gm_view (sl_groups S) gm' = snd (spec_increase (gm_view (sl_groups S) gm) g)"
  using groups.increase_refines [OF assms, of g] by blast

lemma remove_step:
  assumes "gm_inv (sl_groups S) gm"
  obtains gm' where "GroupManager_RemoveGroupIfEmpty (sl_groups S) (Some gm) (Some g) =
      Some (fst (spec_remove_if_empty (gm_view (sl_groups S) gm) g), Some gm')"
    and "gm_inv (sl_groups S) gm'" and "gm_view (sl_groups S) gm' = snd (spec_remove_if_empty (gm_view (sl_groups S) gm) g)"
  using groups.remove_refines [OF assms, of g] by blast

text \<open>
  The end of a successful create or join: the user manager already has the new member, the group gets its reference and
  the endpoint is sent.
\<close>

lemma joined:
  assumes "sm_rep S sm" and "env_ok E" and "um_inv (sl_users S) um" and "gm_inv (sl_groups S) gm1"
  obtains gm2 st pl where "GroupManager_IncreaseGroupRefCount (sl_groups S) (Some gm1) (Some g) None =
      Some (fst (spec_increase (gm_view (sl_groups S) gm1) g), None, Some gm2)"
    and "sm_rep S (sm\<lparr>sm_userManager := um, sm_groupManager := gm2\<rparr>)"
    and "sm_view S (sm\<lparr>sm_userManager := um, sm_groupManager := gm2\<rparr>) =
      \<lparr>sv_users = um_db (sl_users S) um, sv_groups = snd (spec_increase (gm_view (sl_groups S) gm1) g)\<rparr>"
    and "endpoint_reply \<lparr>sv_users = um_db (sl_users S) um, sv_groups = snd (spec_increase (gm_view (sl_groups S) gm1) g)\<rparr> g = (st, pl)"
    and "ServerManager_SendGroupEndpoint S E (sm\<lparr>sm_userManager := um, sm_groupManager := gm2\<rparr>) rec g = Some (sent E (m_fdConnection rec) st pl)"
proof -
  obtain gm2 where i: "GroupManager_IncreaseGroupRefCount (sl_groups S) (Some gm1) (Some g) None =
        Some (fst (spec_increase (gm_view (sl_groups S) gm1) g), None, Some gm2)" "gm_inv (sl_groups S) gm2"
      "gm_view (sl_groups S) gm2 = snd (spec_increase (gm_view (sl_groups S) gm1) g)"
    using increase_step [OF assms(4), of g] .
  let ?sm = "sm\<lparr>sm_userManager := um, sm_groupManager := gm2\<rparr>"
  obtain st pl where ep: "endpoint_reply (sm_view S ?sm) g = (st, pl)" by fastforce
  have rep: "sm_rep S ?sm" using rep_upd(3) [OF assms(1,3) i(2)] .
  have "sm_view S ?sm = \<lparr>sv_users = um_db (sl_users S) um, sv_groups = snd (spec_increase (gm_view (sl_groups S) gm1) g)\<rparr>"
    using i(3) by (simp add: sm_view_def)
  with that i(1) rep ep send_group_endpoint [OF rep assms(2) ep, of rec] show ?thesis by simp
qed

text \<open>The roll-back of a create: the first removal undoes it, the second finds nothing.\<close>

lemma rolled_back:
  assumes "gm_inv (sl_groups S) gm1" and "gm_view (sl_groups S) gm1 = V(g \<mapsto> new_group g k)" and "V g = None"
  obtains r2 gm2 r3 gm3 where "GroupManager_RemoveGroupIfEmpty (sl_groups S) (Some gm1) (Some g) = Some (r2, Some gm2)"
    and "GroupManager_RemoveGroupIfEmpty (sl_groups S) (Some gm2) (Some g) = Some (r3, Some gm3)"
    and "gm_inv (sl_groups S) gm3" and "gm_view (sl_groups S) gm3 = V"
proof -
  obtain gm2 where r2: "GroupManager_RemoveGroupIfEmpty (sl_groups S) (Some gm1) (Some g) =
        Some (fst (spec_remove_if_empty (gm_view (sl_groups S) gm1) g), Some gm2)" "gm_inv (sl_groups S) gm2"
      "gm_view (sl_groups S) gm2 = snd (spec_remove_if_empty (gm_view (sl_groups S) gm1) g)"
    using remove_step [OF assms(1), of g] .
  obtain gm3 where r3: "GroupManager_RemoveGroupIfEmpty (sl_groups S) (Some gm2) (Some g) =
        Some (fst (spec_remove_if_empty (gm_view (sl_groups S) gm2) g), Some gm3)" "gm_inv (sl_groups S) gm3"
      "gm_view (sl_groups S) gm3 = snd (spec_remove_if_empty (gm_view (sl_groups S) gm2) g)"
    using remove_step [OF r2(2), of g] .
  have "gm_view (sl_groups S) gm3 = V"
    using r2(3) r3(3) assms(2,3) by (simp add: spec_remove_if_empty_def new_group_def fun_upd_idem)
  then show ?thesis using that r2(1) r3(1,2) by blast
qed

lemma create_group_answers:
  assumes "sm_rep S sm" and "env_ok E" and "c_string_at (m_value msg) 0 = Some g"
  shows "answers S E sm (m_fdConnection rec) (Req_CreateGroup g) (ServerManager_ActionCreateGroup S E sm rec msg)"
proof -
  let ?V = "gm_view (sl_groups S) (sm_groupManager sm)" and ?fd = "m_fdConnection rec"
  obtain r V gm1 where sp: "spec_add (env_mem E) ?V g = (r, V)"
      and a: "GroupManager_AddGroup (sl_groups S) (env_mem E) (Some (sm_groupManager sm)) (Some g) = Some (r, Some gm1)"
        "gm_inv (sl_groups S) gm1" "gm_view (sl_groups S) gm1 = V"
    using groups.add_refines [OF rep_parts(2) [OF assms(1)], of "env_mem E" g] by (metis prod.collapse)
  note unf = ServerManager_ActionCreateGroup_def assms(3) Let_def view_parts
  show ?thesis
  proof (cases "r = GROUP_MANAGER_RESULT_SUCCESS")
    case False
    show ?thesis
      by (rule answersI [where sm' = "sm\<lparr>sm_groupManager := gm1\<rparr>" and copied = True and status = CHAT_ERR_GENERIC
            and payload = "GroupManagerResult_toString r"])
        (use assms a sp False in \<open>simp_all add: unf view_upd rep_upd reply_result_sent\<close>)
  next
    case True
    have V: "?V g = None" "V = ?V(g \<mapsto> new_group g (card (dom ?V)))"
      using sp True by (auto simp: spec_add_def split: if_splits)
    obtain copied r' um where j: "env_mem E Alloc_List \<and> env_mem E Alloc_GroupNameCopy \<longrightarrow> copied"
        "UserManager_AddUserToGroup (sl_users S) (env_mem E) (Some (sm_userManager sm)) ?fd (Some g) = Some (r', Some um)"
        "um_inv (sl_users S) um"
        "spec_join copied (env_mem E Alloc_ListNode) (sv_users (sm_view S sm)) ?fd g = (r', um_db (sl_users S) um)"
      using join_step [OF assms(1), of E ?fd g] .
    show ?thesis
    proof (cases "r' = USER_MANAGER_RESULT_SUCCESS")
      case ok: True
      obtain gm2 st pl where e: "GroupManager_IncreaseGroupRefCount (sl_groups S) (Some gm1) (Some g) None =
            Some (fst (spec_increase V g), None, Some gm2)" "sm_rep S (sm\<lparr>sm_userManager := um, sm_groupManager := gm2\<rparr>)"
          "sm_view S (sm\<lparr>sm_userManager := um, sm_groupManager := gm2\<rparr>) = \<lparr>sv_users = um_db (sl_users S) um, sv_groups = snd (spec_increase V g)\<rparr>"
          "endpoint_reply \<lparr>sv_users = um_db (sl_users S) um, sv_groups = snd (spec_increase V g)\<rparr> g = (st, pl)"
          "ServerManager_SendGroupEndpoint S E (sm\<lparr>sm_userManager := um, sm_groupManager := gm2\<rparr>) rec g = Some (sent E ?fd st pl)"
        using joined [OF assms(1,2) j(3) a(2), of g rec] unfolding a(3) .
      show ?thesis
        by (rule answersI [where sm' = "sm\<lparr>sm_userManager := um, sm_groupManager := gm2\<rparr>" and copied = copied and status = st and payload = pl])
          (use a(1) sp True ok j e in \<open>simp_all add: unf service_join_def\<close>)
    next
      case False
      obtain r2 gm2 r3 gm3 where b: "GroupManager_RemoveGroupIfEmpty (sl_groups S) (Some gm1) (Some g) = Some (r2, Some gm2)"
          "GroupManager_RemoveGroupIfEmpty (sl_groups S) (Some gm2) (Some g) = Some (r3, Some gm3)"
          "gm_inv (sl_groups S) gm3" "gm_view (sl_groups S) gm3 = ?V"
        using rolled_back [OF a(2) a(3) [unfolded V(2)] V(1)] .
      show ?thesis
        by (rule answersI [where sm' = "sm\<lparr>sm_userManager := um, sm_groupManager := gm3\<rparr>" and copied = copied
              and status = CHAT_ERR_GENERIC and payload = "terminated (UserManagerResult_toString r')"])
          (use assms a(1) sp True False j b in \<open>simp_all add: unf service_join_def rep_upd reply_result_sent sm_view_def\<close>)
    qed
  qed
qed

lemma get_group_view:
  assumes "gm_inv (sl_groups S) gm"
  shows "fst (GroupManager_GetGroup (sl_groups S) (Some gm) (Some g) (Some None)) =
    (if gm_view (sl_groups S) gm g = None then GROUP_MANAGER_RESULT_NOT_FOUND else GROUP_MANAGER_RESULT_SUCCESS)"
  using groups.get_group [OF assms, of g None] groups.view_lookup(1) [OF assms, of g] by (auto split: option.splits)

text \<open>Both handlers of a group name refuse an unknown group and a connection without a session.\<close>

lemma refuse_unknown_group:
  assumes "sm_rep S sm" and "env_ok E"
    and "result = map_option (Pair sm) (reply_text E rec CHAT_ERR_GENERIC (GroupManagerResult_toString GROUP_MANAGER_RESULT_NOT_FOUND) (Suc 0))"
    and "\<And>order. service (env_mem E) True order (sm_view S sm) (m_fdConnection rec) req =
      (sm_view S sm, CHAT_ERR_GENERIC, terminated (GroupManagerResult_toString GROUP_MANAGER_RESULT_NOT_FOUND))"
  shows "answers S E sm (m_fdConnection rec) req result"
  by (rule answersI [where sm' = sm and copied = True and status = CHAT_ERR_GENERIC
        and payload = "terminated (GroupManagerResult_toString GROUP_MANAGER_RESULT_NOT_FOUND)"])
    (use assms reply_result_sent(3) [OF assms(2), of rec CHAT_ERR_GENERIC GROUP_MANAGER_RESULT_NOT_FOUND] in auto)

lemma refuse_empty_reply:
  assumes "sm_rep S sm" and "env_ok E"
    and "result = map_option (Pair sm) (ServerManager_SendOrLog E rec st None 0)"
    and "\<And>order. service (env_mem E) True order (sm_view S sm) (m_fdConnection rec) req = (sm_view S sm, st, [])"
  shows "answers S E sm (m_fdConnection rec) req result"
  by (rule answersI [where sm' = sm and copied = True and status = st and payload = "[]"])
    (use assms in \<open>auto simp: send_none\<close>)

lemma bind_Pair: "Option.bind x (\<lambda>out. Some (sm, out)) = map_option (Pair sm) x"
  by (cases x) auto

lemma join_group_answers:
  assumes "sm_rep S sm" and "env_ok E" and "c_string_at (m_value msg) 0 = Some g"
  shows "answers S E sm (m_fdConnection rec) (Req_JoinGroup g) (ServerManager_ActionJoinGroup S E sm rec msg)"
proof -
  let ?fd = "m_fdConnection rec" and ?V = "gm_view (sl_groups S) (sm_groupManager sm)"
  note parts = rep_parts [OF assms(1)]
  note log = users.is_logged_in [OF parts(1), of ?fd False]
  have get: "fst (GroupManager_GetGroup (sl_groups S) (Some (sm_groupManager sm)) (Some g) (Some None)) =
      (if ?V g = None then GROUP_MANAGER_RESULT_NOT_FOUND else GROUP_MANAGER_RESULT_SUCCESS)"
    using get_group_view [OF parts(2)] .
  note unf = ServerManager_ActionJoinGroup_def assms(3) case_prod_beta Let_def get bind_Pair
  show ?thesis
  proof (cases "?V g")
    case None
    then show ?thesis
      by (intro refuse_unknown_group [OF assms(1,2)]) (simp_all add: unf view_parts)
  next
    case (Some grp)
    show ?thesis
    proof (cases "db_session (um_db (sl_users S) (sm_userManager sm)) ?fd")
      case None
      then show ?thesis using Some log
        by (intro refuse_empty_reply [OF assms(1,2), where st = CHAT_ERR_NOT_LOGGED_IN]) (simp_all add: unf view_parts)
    next
      case sess: (Some n)
      obtain copied r um where j: "env_mem E Alloc_List \<and> env_mem E Alloc_GroupNameCopy \<longrightarrow> copied"
          "UserManager_AddUserToGroup (sl_users S) (env_mem E) (Some (sm_userManager sm)) ?fd (Some g) = Some (r, Some um)"
          "um_inv (sl_users S) um"
          "spec_join copied (env_mem E Alloc_ListNode) (sv_users (sm_view S sm)) ?fd g = (r, um_db (sl_users S) um)"
        using join_step [OF assms(1), of E ?fd g] .
      have inc: "fst (spec_increase ?V g) = GROUP_MANAGER_RESULT_SUCCESS" using Some by (simp add: spec_increase_def)
      show ?thesis
      proof (cases "r = USER_MANAGER_RESULT_SUCCESS")
        case True
        obtain gm st pl where e: "GroupManager_IncreaseGroupRefCount (sl_groups S) (Some (sm_groupManager sm)) (Some g) None =
              Some (fst (spec_increase ?V g), None, Some gm)" "sm_rep S (sm\<lparr>sm_userManager := um, sm_groupManager := gm\<rparr>)"
            "sm_view S (sm\<lparr>sm_userManager := um, sm_groupManager := gm\<rparr>) = \<lparr>sv_users = um_db (sl_users S) um, sv_groups = snd (spec_increase ?V g)\<rparr>"
            "endpoint_reply \<lparr>sv_users = um_db (sl_users S) um, sv_groups = snd (spec_increase ?V g)\<rparr> g = (st, pl)"
            "ServerManager_SendGroupEndpoint S E (sm\<lparr>sm_userManager := um, sm_groupManager := gm\<rparr>) rec g = Some (sent E ?fd st pl)"
          using joined [OF assms(1,2) j(3) parts(2), of g rec] .
        show ?thesis
          by (rule answersI [where sm' = "sm\<lparr>sm_userManager := um, sm_groupManager := gm\<rparr>" and copied = copied and status = st and payload = pl])
            (use Some sess log True j inc e in \<open>simp_all add: unf view_parts service_join_def\<close>)
      next
        case False
        show ?thesis
          by (rule answersI [where sm' = "sm\<lparr>sm_userManager := um\<rparr>" and copied = copied and status = CHAT_ERR_GENERIC
                and payload = "terminated (UserManagerResult_toString r)"])
            (use assms Some sess log False j in
              \<open>simp_all add: unf view_parts service_join_def rep_upd view_upd reply_result_sent sm_view_def\<close>)
      qed
    qed
  qed
qed

text \<open>The three updates of a leave by a member of a live group.\<close>

lemma left:
  assumes "sm_rep S sm" and "gm_view (sl_groups S) (sm_groupManager sm) g = Some grp" and "0 < group_refCount grp"
    and "db_session (um_db (sl_users S) (sm_userManager sm)) fd = Some n"
    and "g \<in> set (db_groups (um_db (sl_users S) (sm_userManager sm)) n)"
  obtains um gm1 r gm2 where "UserManager_RemoveUserFromGroup (sl_users S) (Some (sm_userManager sm)) fd (Some g) = Some (USER_MANAGER_RESULT_SUCCESS, Some um)"
    and "GroupManager_DecreaseGroupRefCount (sl_groups S) (Some (sm_groupManager sm)) (Some g) None = Some (GROUP_MANAGER_RESULT_SUCCESS, None, Some gm1)"
    and "GroupManager_RemoveGroupIfEmpty (sl_groups S) (Some gm1) (Some g) = Some (r, Some gm2)"
    and "sm_rep S (sm\<lparr>sm_userManager := um, sm_groupManager := gm2\<rparr>)"
    and "sm_view S (sm\<lparr>sm_userManager := um, sm_groupManager := gm2\<rparr>) =
      \<lparr>sv_users = snd (spec_leave (um_db (sl_users S) (sm_userManager sm)) fd g), sv_groups = spec_leave_one (gm_view (sl_groups S) (sm_groupManager sm)) g\<rparr>"
proof -
  let ?V = "gm_view (sl_groups S) (sm_groupManager sm)" and ?db = "um_db (sl_users S) (sm_userManager sm)"
  note parts = rep_parts [OF assms(1)]
  obtain um where l: "UserManager_RemoveUserFromGroup (sl_users S) (Some (sm_userManager sm)) fd (Some g) =
        Some (fst (spec_leave ?db fd g), Some um)" "um_inv (sl_users S) um" "um_db (sl_users S) um = snd (spec_leave ?db fd g)"
    using users.leave_refines [OF parts(1), of fd g] by blast
  obtain gm1 where d: "GroupManager_DecreaseGroupRefCount (sl_groups S) (Some (sm_groupManager sm)) (Some g) None =
        Some (fst (spec_decrease ?V g), None, Some gm1)" "gm_inv (sl_groups S) gm1" "gm_view (sl_groups S) gm1 = snd (spec_decrease ?V g)"
    using groups.decrease_refines [OF parts(2), of g] by blast
  obtain gm2 where r: "GroupManager_RemoveGroupIfEmpty (sl_groups S) (Some gm1) (Some g) =
        Some (fst (spec_remove_if_empty (gm_view (sl_groups S) gm1) g), Some gm2)" "gm_inv (sl_groups S) gm2"
      "gm_view (sl_groups S) gm2 = snd (spec_remove_if_empty (gm_view (sl_groups S) gm1) g)"
    using remove_step [OF d(2), of g] .
  have "fst (spec_leave ?db fd g) = USER_MANAGER_RESULT_SUCCESS" "fst (spec_decrease ?V g) = GROUP_MANAGER_RESULT_SUCCESS"
    using assms(2-5) by (simp_all add: spec_leave_def spec_decrease_def)
  moreover have "gm_view (sl_groups S) gm2 = spec_leave_one ?V g" by (simp add: r(3) d(3) spec_leave_one_def)
  ultimately show ?thesis using that [of um gm1 _ gm2] l d(1) r(1) rep_upd(3) [OF assms(1) l(2) r(2)] by (simp add: sm_view_def)
qed

lemma leave_group_answers:
  assumes "sm_rep S sm" and "env_ok E" and "c_string_at (m_value msg) 0 = Some g"
    and "\<And>grp. sv_groups (sm_view S sm) g = Some grp \<Longrightarrow> 0 < group_refCount grp"
  shows "answers S E sm (m_fdConnection rec) (Req_LeaveGroup g) (ServerManager_ActionLeaveGroup S E sm rec msg)"
proof -
  let ?fd = "m_fdConnection rec" and ?V = "gm_view (sl_groups S) (sm_groupManager sm)"
  let ?db = "um_db (sl_users S) (sm_userManager sm)"
  note parts = rep_parts [OF assms(1)]
  note log = users.is_logged_in [OF parts(1), of ?fd False] users.is_user_in_group [OF parts(1), of ?fd g False]
  have get: "fst (GroupManager_GetGroup (sl_groups S) (Some (sm_groupManager sm)) (Some g) (Some None)) =
      (if ?V g = None then GROUP_MANAGER_RESULT_NOT_FOUND else GROUP_MANAGER_RESULT_SUCCESS)"
    using get_group_view [OF parts(2)] .
  note unf = ServerManager_ActionLeaveGroup_def assms(3) case_prod_beta Let_def get bind_Pair
  show ?thesis
  proof (cases "?V g")
    case None
    then show ?thesis
      by (intro refuse_unknown_group [OF assms(1,2)]) (simp_all add: unf view_parts)
  next
    case (Some grp)
    show ?thesis
    proof (cases "db_session ?db ?fd")
      case None
      then show ?thesis using Some log
        by (intro refuse_empty_reply [OF assms(1,2), where st = CHAT_ERR_NOT_LOGGED_IN]) (simp_all add: unf view_parts)
    next
      case sess: (Some n)
      show ?thesis
      proof (cases "g \<in> set (db_groups ?db n)")
        case False
        then show ?thesis using Some sess log
          by (intro refuse_empty_reply [OF assms(1,2), where st = CHAT_ERR_NOT_IN_GROUP]) (simp_all add: unf view_parts)
      next
        case True
        obtain um gm1 r gm2 where l:
            "UserManager_RemoveUserFromGroup (sl_users S) (Some (sm_userManager sm)) ?fd (Some g) = Some (USER_MANAGER_RESULT_SUCCESS, Some um)"
            "GroupManager_DecreaseGroupRefCount (sl_groups S) (Some (sm_groupManager sm)) (Some g) None = Some (GROUP_MANAGER_RESULT_SUCCESS, None, Some gm1)"
            "GroupManager_RemoveGroupIfEmpty (sl_groups S) (Some gm1) (Some g) = Some (r, Some gm2)"
            "sm_rep S (sm\<lparr>sm_userManager := um, sm_groupManager := gm2\<rparr>)"
            "sm_view S (sm\<lparr>sm_userManager := um, sm_groupManager := gm2\<rparr>) = \<lparr>sv_users = snd (spec_leave ?db ?fd g), sv_groups = spec_leave_one ?V g\<rparr>"
          using left [OF assms(1) Some assms(4) [unfolded view_parts, OF Some] sess True] .
        show ?thesis
          by (rule answersI [where sm' = "sm\<lparr>sm_userManager := um, sm_groupManager := gm2\<rparr>" and copied = True
                and status = CHAT_OK and payload = "[]"])
            (use assms(2) Some sess log True l in \<open>simp_all add: unf view_parts send_none\<close>)
      qed
    qed
  qed
qed

section \<open>Listings\<close>

lemma send_text_buffer:
  assumes "env_ok E" and "holds_text buf n s" and "n \<le> CHAT_MAX_VALUE"
  shows "ServerManager_SendOrLog E rec st (Some buf) (length s + 1) = Some (sent E (m_fdConnection rec) st (terminated s))"
  using assms send_bytes [OF assms(1), of "length s + 1" buf rec st] by (simp add: holds_text_def terminated_def)

lemma list_users_answers:
  assumes "sm_rep S sm" and "env_ok E" and "db_wire (sv_users (sm_view S sm))"
  shows "answers S E sm (m_fdConnection rec) Req_ListUsers (ServerManager_ActionListUsers S E sm rec msg)"
proof -
  let ?um = "sm_userManager sm" and ?db = "um_db (sl_users S) (sm_userManager sm)"
  let ?order = "map fst (HashMap_Items (lib_byName (sl_users S)) (um_usersByName ?um))"
  let ?s = "take (CHAT_MAX_VALUE - 1) (join [CHR 0x0A] (listed_lines ?db ?order))"
  note um = rep_parts(1) [OF assms(1)]
  have wire: "db_wire ?db" using assms(3) by (simp add: view_parts)
  have sz: "0 < CHAT_MAX_VALUE" "CHAT_MAX_VALUE \<le> length (env_uninit E CHAT_MAX_VALUE)"
    using assms(2) by (simp_all add: env_ok_def size_defs)
  obtain buf where b: "UserManager_FormatAllUsersAndGroups (sl_users S) (Some ?um) (Some (env_uninit E CHAT_MAX_VALUE)) CHAT_MAX_VALUE
        = Some (USER_MANAGER_RESULT_SUCCESS, Some buf)" "holds_text buf CHAT_MAX_VALUE ?s"
    using users.format_all_users [OF um wire sz] .
  have "distinct ?order" using users.by_name.items_distinct users.inv_ok [OF um] by blast
  moreover have "set ?order = dom (db_password ?db)"
  proof -
    have "set ?order = dom (hm_lookup (lib_byName (sl_users S)) (um_usersByName ?um))"
      by (simp add: hm_lookup_def dom_map_of_conv_image_fst)
    also have "\<dots> = dom (db_password ?db)" using users.password_iff [OF um] by (auto simp: dom_def)
    finally show ?thesis .
  qed
  ultimately have "order_ok (sm_view S sm) Req_ListUsers ?order" by (simp add: order_ok_def view_parts)
  moreover have "ServerManager_ActionListUsers S E sm rec msg = Some (sm, sent E (m_fdConnection rec) CHAT_OK (terminated ?s))"
    using users.print_all_users [OF um wire] b holds_text_c_string [OF b(2)] send_text_buffer [OF assms(2) b(2) order_refl, of rec CHAT_OK]
    by (simp add: ServerManager_ActionListUsers_def)
  moreover have "service (env_mem E) True ?order (sm_view S sm) (m_fdConnection rec) Req_ListUsers = (sm_view S sm, CHAT_OK, terminated ?s)"
    by (simp add: view_parts CHAT_MAX_VALUE_def)
  ultimately show ?thesis using assms(1) unfolding answers_def by blast
qed

lemma list_groups_answers:
  assumes "sm_rep S sm" and "env_ok E" and "\<And>g. sv_groups (sm_view S sm) g \<noteq> None \<Longrightarrow> wire_name g"
  shows "answers S E sm (m_fdConnection rec) Req_ListGroups (ServerManager_ActionListGroups S E sm rec msg)"
proof -
  let ?gm = "sm_groupManager sm" and ?V = "gm_view (sl_groups S) (sm_groupManager sm)"
  let ?order = "map fst (HashMap_Items (sl_groups S) (gm_groups ?gm))"
  let ?s = "take (CHAT_MAX_VALUE - 1) (join '', '' ?order)"
  note gm = rep_parts(2) [OF assms(1)]
  have sz: "0 < CHAT_MAX_VALUE" "CHAT_MAX_VALUE \<le> length (env_uninit E CHAT_MAX_VALUE)"
    using assms(2) by (simp_all add: env_ok_def size_defs)
  have dom: "set ?order = dom ?V"
    using groups.dom_view [OF gm] by (simp add: hm_lookup_def dom_map_of_conv_image_fst)
  have "\<forall>k \<in> fst ` set (HashMap_Items (sl_groups S) (gm_groups ?gm)). NUL \<notin> set k \<and> length k < 1000000"
  proof
    fix k assume "k \<in> fst ` set (HashMap_Items (sl_groups S) (gm_groups ?gm))"
    then have "wire_name k" using dom assms(3) [of k] by (auto simp: view_parts)
    then show "NUL \<notin> set k \<and> length k < 1000000" by (simp add: wire_name_def)
  qed
  then obtain buf where b: "GroupManager_FormatGroupList (sl_groups S) (Some ?gm) (Some (env_uninit E CHAT_MAX_VALUE)) CHAT_MAX_VALUE
        = Some (GROUP_MANAGER_RESULT_SUCCESS, Some buf)" "holds_text buf CHAT_MAX_VALUE ?s"
    using format_group_list [OF sz] by blast
  have "distinct ?order" using groups.items_distinct groups.gm_inv_ok [OF gm] by blast
  with dom have "order_ok (sm_view S sm) Req_ListGroups ?order" by (simp add: order_ok_def view_parts)
  moreover have "ServerManager_ActionListGroups S E sm rec msg = Some (sm, sent E (m_fdConnection rec) CHAT_OK (terminated ?s))"
    using b holds_text_c_string [OF b(2)] send_text_buffer [OF assms(2) b(2) order_refl, of rec CHAT_OK]
    by (simp add: ServerManager_ActionListGroups_def)
  moreover have "service (env_mem E) True ?order (sm_view S sm) (m_fdConnection rec) Req_ListGroups = (sm_view S sm, CHAT_OK, terminated ?s)"
    by (simp add: CHAT_MAX_VALUE_def)
  ultimately show ?thesis using assms(1) unfolding answers_def by blast
qed

section \<open>Messages\<close>

lemma find_action:
  "FindAction (s_actions S E) op =
     (if op = OPCODE_REGISTER then Some (''register'', ServerManager_ActionRegister S E)
      else if op = OPCODE_LOGIN then Some (''login'', ServerManager_ActionLogin S E)
      else if op = OPCODE_LOGOUT then Some (''logout'', ServerManager_ActionLogout S E)
      else if op = OPCODE_EXIT then Some (''exit'', ServerManager_ActionExit S E)
      else if op = OPCODE_CREATE_GROUP then Some (''create_group'', ServerManager_ActionCreateGroup S E)
      else if op = OPCODE_JOIN_GROUP then Some (''join_group'', ServerManager_ActionJoinGroup S E)
      else if op = OPCODE_LEAVE_GROUP then Some (''leave_group'', ServerManager_ActionLeaveGroup S E)
      else if op = OPCODE_LIST_USERS then Some (''list_users'', ServerManager_ActionListUsers S E)
      else if op = OPCODE_LIST_GROUPS then Some (''list_groups'', ServerManager_ActionListGroups S E)
      else None)"
  by (auto simp: s_actions_def)

text \<open>What a handler has to do with a message, and the three kinds of handlers: login, with a group name, without a payload.\<close>

abbreviation action_ok where
  "action_ok E sm rec msg result \<equiv>
     (case request_of msg of
        None \<Rightarrow> result = None
      | Some req \<Rightarrow>
          if reply_fits (env_mem E) (sm_view S sm) (m_fdConnection rec) req
          then answers S E sm (m_fdConnection rec) req result else result = None)"

lemma login_action:
  assumes "sm_rep S sm" and "env_ok E" and "unat (m_length msg) \<le> CHAT_MAX_VALUE" and "m_opcode msg = OPCODE_LOGIN"
  shows "action_ok E sm rec msg (ServerManager_ActionLogin S E sm rec msg)"
proof (cases "request_of msg")
  case None
  then show ?thesis using assms(4)
    by (auto simp: request_of_def Let_def opcode_defs ServerManager_ActionLogin_def split: bind_splits option.splits)
next
  case (Some req)
  then obtain n pw where n: "c_string_at (m_value msg) 0 = Some n" "c_string_at (m_value msg) (length n + 1) = Some pw"
      "req = Req_Login n pw (unat (m_length msg))"
    using assms(4) by (auto simp: request_of_def Let_def opcode_defs split: bind_splits)
  from login_answers [OF assms(1,2) n(1,2) assms(3)] show ?thesis using Some n(3) by simp
qed

lemma group_action:
  assumes "m_opcode msg = OPCODE_CREATE_GROUP \<and> req = Req_CreateGroup \<or> m_opcode msg = OPCODE_JOIN_GROUP \<and> req = Req_JoinGroup
      \<or> m_opcode msg = OPCODE_LEAVE_GROUP \<and> req = Req_LeaveGroup"
    and "\<And>g. c_string_at (m_value msg) 0 = Some g \<Longrightarrow> answers S E sm (m_fdConnection rec) (req g) result"
    and "c_string_at (m_value msg) 0 = None \<Longrightarrow> result = None"
  shows "action_ok E sm rec msg result"
  using assms by (cases "c_string_at (m_value msg) 0") (auto simp: request_of_def Let_def opcode_defs reply_fits_def)

lemma plain_action:
  assumes "m_opcode msg = OPCODE_LOGOUT \<and> req = Req_Logout \<or> m_opcode msg = OPCODE_EXIT \<and> req = Req_Exit
      \<or> m_opcode msg = OPCODE_LIST_USERS \<and> req = Req_ListUsers \<or> m_opcode msg = OPCODE_LIST_GROUPS \<and> req = Req_ListGroups"
    and "answers S E sm (m_fdConnection rec) req result"
  shows "action_ok E sm rec msg result"
  using assms by (auto simp: request_of_def Let_def opcode_defs reply_fits_def)

lemma action_answers:
  assumes "sm_rep S sm" and "env_ok E" and "view_ok exact (sm_view S sm)" and "msg_ok msg"
    and "unat (m_length msg) \<le> CHAT_MAX_VALUE" and "FindAction (s_actions S E) (m_opcode msg) = Some (name, fn)"
  shows "action_ok E sm rec msg (fn sm rec msg)"
proof -
  have groups: "\<And>g grp. sv_groups (sm_view S sm) g = Some grp \<Longrightarrow> 0 < group_refCount grp"
      "\<And>g. sv_groups (sm_view S sm) g \<noteq> None \<Longrightarrow> wire_name g"
    using view_okD(4) [OF assms(3)] by (auto simp: group_ok_def)
  note defs = ServerManager_ActionCreateGroup_def ServerManager_ActionJoinGroup_def ServerManager_ActionLeaveGroup_def
  consider "m_opcode msg = OPCODE_REGISTER \<and> fn = ServerManager_ActionRegister S E"
    | "m_opcode msg = OPCODE_LOGIN \<and> fn = ServerManager_ActionLogin S E"
    | "m_opcode msg = OPCODE_LOGOUT \<and> fn = ServerManager_ActionLogout S E"
    | "m_opcode msg = OPCODE_EXIT \<and> fn = ServerManager_ActionExit S E"
    | "m_opcode msg = OPCODE_CREATE_GROUP \<and> fn = ServerManager_ActionCreateGroup S E"
    | "m_opcode msg = OPCODE_JOIN_GROUP \<and> fn = ServerManager_ActionJoinGroup S E"
    | "m_opcode msg = OPCODE_LEAVE_GROUP \<and> fn = ServerManager_ActionLeaveGroup S E"
    | "m_opcode msg = OPCODE_LIST_USERS \<and> fn = ServerManager_ActionListUsers S E"
    | "m_opcode msg = OPCODE_LIST_GROUPS \<and> fn = ServerManager_ActionListGroups S E"
    using assms(6) unfolding find_action by (auto split: if_splits)
  then show ?thesis
  proof cases
    case 1
    then show ?thesis using register_answers [OF assms(1,2), of msg]
      by (auto simp: request_of_def Let_def reply_fits_def ServerManager_ActionRegister_def split: bind_splits option.splits)
  next
    case 2
    then have "m_opcode msg = OPCODE_LOGIN" and fn: "fn = ServerManager_ActionLogin S E" by blast+
    from login_action [OF assms(1,2,5) this(1), of rec] show ?thesis unfolding fn .
  next
    case 3 then show ?thesis using logout_answers [OF assms(1,2)] by (intro plain_action [of _ Req_Logout]) simp_all
  next
    case 4 then show ?thesis using exit_answers [OF assms(1,2)] by (intro plain_action [of _ Req_Exit]) simp_all
  next
    case 5 then show ?thesis using create_group_answers [OF assms(1,2)] by (intro group_action [of _ Req_CreateGroup]) (simp_all add: defs)
  next
    case 6 then show ?thesis using join_group_answers [OF assms(1,2)] by (intro group_action [of _ Req_JoinGroup]) (simp_all add: defs)
  next
    case 7 then show ?thesis using leave_group_answers [OF assms(1,2) _ groups(1)] by (intro group_action [of _ Req_LeaveGroup]) (simp_all add: defs)
  next
    case 8 then show ?thesis using list_users_answers [OF assms(1,2) view_okD(2) [OF assms(3)]] by (intro plain_action [of _ Req_ListUsers]) simp_all
  next
    case 9 then show ?thesis using list_groups_answers [OF assms(1,2) groups(2)] by (intro plain_action [of _ Req_ListGroups]) simp_all
  qed
qed

end

end
