(* ===== verification/Data_Structures_Ref.thy ===== *)
theory Data_Structures_Ref
  imports Data_Structures_Api
begin

text \<open>
  A reference implementation of the library's interface: a hash table with separate chaining and a
  list with positions as iterators.  It shows that the contracts \<open>hash_map\<close> and \<open>dlist\<close> can be met
  by ordinary data structures, and it makes the whole server executable: the examples of the
  development run on it.
\<close>

section \<open>Hash table\<close>

record ('k, 'v) chain_map =
  cm_buckets :: "('k \<times> 'v) list list"
  cm_hash :: "'k \<Rightarrow> 64 word"
  cm_equal :: "'k \<Rightarrow> 'k \<Rightarrow> bool"

definition cm_index :: "('k, 'v) chain_map \<Rightarrow> 'k \<Rightarrow> nat" where
  "cm_index m k = unat (cm_hash m k) mod length (cm_buckets m)"

definition cm_chain :: "('k, 'v) chain_map \<Rightarrow> 'k \<Rightarrow> ('k \<times> 'v) list" where
  "cm_chain m k = cm_buckets m ! cm_index m k"

fun chain_find :: "('k \<Rightarrow> 'k \<Rightarrow> bool) \<Rightarrow> 'k \<Rightarrow> ('k \<times> 'v) list \<Rightarrow> 'v option" where
  "chain_find eq k [] = None"
| "chain_find eq k ((k', v) # kvs) = (if eq k k' then Some v else chain_find eq k kvs)"

fun chain_delete :: "('k \<Rightarrow> 'k \<Rightarrow> bool) \<Rightarrow> 'k \<Rightarrow> ('k \<times> 'v) list \<Rightarrow> ('k \<times> 'v) list" where
  "chain_delete eq k [] = []"
| "chain_delete eq k ((k', v) # kvs) = (if eq k k' then kvs else (k', v) # chain_delete eq k kvs)"

definition cm_put :: "('k, 'v) chain_map \<Rightarrow> 'k \<Rightarrow> ('k \<times> 'v) list \<Rightarrow> ('k, 'v) chain_map" where
  "cm_put m k kvs = m\<lparr>cm_buckets := (cm_buckets m)[cm_index m k := kvs]\<rparr>"

definition cm_ok :: "('k, 'v) chain_map \<Rightarrow> bool" where
  "cm_ok m \<longleftrightarrow>
     cm_buckets m \<noteq> [] \<and> (\<forall>a b. cm_equal m a b \<longleftrightarrow> a = b)
     \<and> (\<forall>i < length (cm_buckets m). distinct (map fst (cm_buckets m ! i))
          \<and> (\<forall>k \<in> fst ` set (cm_buckets m ! i). cm_index m k = i))"

definition chain_ops :: "(('k, 'v) chain_map, 'k, 'v) HashMap_ops" where
  "chain_ops =
     \<lparr>HashMap_Create = (\<lambda>mem n h eq. if mem
        then Some \<lparr>cm_buckets = replicate (Suc n) [], cm_hash = h, cm_equal = eq\<rparr> else None),
      HashMap_Insert = (\<lambda>mem m k v.
        (case chain_find (cm_equal m) k (cm_chain m k) of
           Some _ \<Rightarrow> (MAP_KEY_DUPLICATE_ERROR, m)
         | None \<Rightarrow> if mem then (MAP_SUCCESS, cm_put m k ((k, v) # cm_chain m k)) else (MAP_ALLOCATION_ERROR, m))),
      HashMap_Remove = (\<lambda>m k.
        (case chain_find (cm_equal m) k (cm_chain m k) of
           None \<Rightarrow> (MAP_KEY_NOT_FOUND_ERROR, None, m)
         | Some v \<Rightarrow> (MAP_SUCCESS, Some (k, v), cm_put m k (chain_delete (cm_equal m) k (cm_chain m k))))),
      HashMap_Find = (\<lambda>m k old.
        (case chain_find (cm_equal m) k (cm_chain m k) of
           None \<Rightarrow> (MAP_KEY_NOT_FOUND_ERROR, None)
         | Some v \<Rightarrow> (MAP_SUCCESS, Some v))),
      HashMap_Size = (\<lambda>m. length (concat (cm_buckets m))),
      HashMap_Items = (\<lambda>m. concat (cm_buckets m)),
      HashMap_Ok = cm_ok\<rparr>"

lemma chain_find_map_of: "(\<And>a b. eq a b \<longleftrightarrow> a = b) \<Longrightarrow> chain_find eq k kvs = map_of kvs k"
  by (induction kvs) auto

lemma chain_delete_set:
  "(\<And>a b. eq a b \<longleftrightarrow> a = b) \<Longrightarrow> distinct (map fst kvs) \<Longrightarrow>
     set (chain_delete eq k kvs) = {kv \<in> set kvs. fst kv \<noteq> k} \<and> distinct (map fst (chain_delete eq k kvs))"
proof (induction kvs)
  case (Cons kv kvs)
  obtain a b where kv: "kv = (a, b)" by fastforce
  have "kv' \<in> set kvs \<Longrightarrow> fst kv' \<noteq> a" for kv' using Cons.prems(2) kv by (auto simp: image_iff)
  then show ?case using Cons kv by (cases "k = a") (auto simp: image_iff)
qed simp

lemma distinct_concat_placed:
  "(\<And>i. i < length bs \<Longrightarrow> distinct (bs ! i) \<and> (\<forall>x \<in> set (bs ! i). f x = off + i)) \<Longrightarrow> distinct (concat bs)"
proof (induction bs arbitrary: off)
  case (Cons b bs)
  have IH: "distinct (concat bs)"
  proof (rule Cons.IH [of "Suc off"])
    fix i assume "i < length bs"
    then show "distinct (bs ! i) \<and> (\<forall>x\<in>set (bs ! i). f x = Suc off + i)" using Cons.prems [of "Suc i"] by simp
  qed
  have "f x > off" if "c \<in> set bs" "x \<in> set c" for c x
  proof -
    from that obtain i where "i < length bs" "c = bs ! i" by (auto simp: in_set_conv_nth)
    with that Cons.prems [of "Suc i"] show ?thesis by simp
  qed
  moreover have "distinct b" "\<forall>x \<in> set b. f x = off" using Cons.prems [of 0] by simp_all
  ultimately show ?case using IH by fastforce
qed simp

lemma cm_distinct: "cm_ok m \<Longrightarrow> distinct (map fst (concat (cm_buckets m)))"
  unfolding map_concat
  by (rule distinct_concat_placed [of _ "cm_index m" 0]) (simp add: cm_ok_def)

lemma cm_index_less: "cm_ok m \<Longrightarrow> cm_index m k < length (cm_buckets m)"
  by (simp add: cm_ok_def cm_index_def)

lemma cm_lookup_chain:
  assumes "cm_ok m" shows "map_of (concat (cm_buckets m)) k = map_of (cm_chain m k) k"
proof -
  have chain: "distinct (map fst (cm_chain m k))"
    using assms cm_index_less [OF assms] by (simp add: cm_ok_def cm_chain_def)
  have "(k, v) \<in> set (concat (cm_buckets m)) \<longleftrightarrow> (k, v) \<in> set (cm_chain m k)" for v
  proof
    assume "(k, v) \<in> set (concat (cm_buckets m))"
    then obtain i where "i < length (cm_buckets m)" "(k, v) \<in> set (cm_buckets m ! i)"
      by (auto simp: in_set_conv_nth) (metis nth_mem)
    with assms show "(k, v) \<in> set (cm_chain m k)" by (fastforce simp: cm_ok_def cm_chain_def)
  next
    assume "(k, v) \<in> set (cm_chain m k)"
    then show "(k, v) \<in> set (concat (cm_buckets m))"
      using cm_index_less [OF assms] by (auto simp: cm_chain_def intro!: bexI [of _ "cm_chain m k"])
  qed
  then show ?thesis using map_of_eq_Some_iff [OF chain] map_of_eq_Some_iff [OF cm_distinct [OF assms]]
    by (metis option.exhaust)
qed

text \<open>Replacing the chain of a key by one with the same placement.\<close>

lemma cm_put_ok:
  assumes "cm_ok m" and "distinct (map fst kvs)" and "\<forall>k' \<in> fst ` set kvs. cm_index m k' = cm_index m k"
  shows "cm_ok (cm_put m k kvs)"
  using assms by (auto simp: cm_ok_def cm_put_def cm_index_def nth_list_update)

lemma cm_put_lookup:
  assumes "cm_ok m" and "distinct (map fst kvs)" and "\<forall>k' \<in> fst ` set kvs. cm_index m k' = cm_index m k"
    and "\<And>k'. k' \<noteq> k \<Longrightarrow> map_of kvs k' = map_of (cm_chain m k) k'"
  shows "map_of (concat (cm_buckets (cm_put m k kvs))) = (map_of (concat (cm_buckets m)))(k := map_of kvs k)"
proof
  fix k'
  have idx: "cm_index (cm_put m k kvs) k' = cm_index m k'" by (simp add: cm_put_def cm_index_def)
  have "cm_chain (cm_put m k kvs) k' = (if cm_index m k' = cm_index m k then kvs else cm_chain m k')"
    using cm_index_less [OF assms(1), of k] by (simp add: cm_chain_def idx) (simp add: cm_put_def cm_chain_def)
  then show "map_of (concat (cm_buckets (cm_put m k kvs))) k' = ((map_of (concat (cm_buckets m)))(k := map_of kvs k)) k'"
    using cm_lookup_chain [OF cm_put_ok [OF assms(1-3)], of k'] cm_lookup_chain [OF assms(1), of k'] assms(4)
    by (auto simp: cm_chain_def)
qed

lemma cm_chain_placed:
  "cm_ok m \<Longrightarrow> distinct (map fst (cm_chain m k)) \<and> (\<forall>k' \<in> fst ` set (cm_chain m k). cm_index m k' = cm_index m k)"
  using cm_index_less [of m k] by (simp add: cm_ok_def cm_chain_def)

lemma cm_find: "cm_ok m \<Longrightarrow> chain_find (cm_equal m) k (cm_chain m k) = map_of (concat (cm_buckets m)) k"
  using chain_find_map_of [of "cm_equal m" k "cm_chain m k"] by (simp add: cm_lookup_chain) (simp add: cm_ok_def)

lemma cm_insert:
  assumes "cm_ok m" and "map_of (concat (cm_buckets m)) k = None"
  shows "cm_ok (cm_put m k ((k, v) # cm_chain m k))"
    and "map_of (concat (cm_buckets (cm_put m k ((k, v) # cm_chain m k)))) = (map_of (concat (cm_buckets m)))(k \<mapsto> v)"
proof -
  have "k \<notin> fst ` set (cm_chain m k)"
    using assms cm_lookup_chain [OF assms(1), of k] by (simp add: map_of_eq_None_iff)
  then have d: "distinct (map fst ((k, v) # cm_chain m k))"
      "\<forall>k' \<in> fst ` set ((k, v) # cm_chain m k). cm_index m k' = cm_index m k"
    using cm_chain_placed [OF assms(1), of k] by auto
  show "cm_ok (cm_put m k ((k, v) # cm_chain m k))" using cm_put_ok [OF assms(1) d] .
  show "map_of (concat (cm_buckets (cm_put m k ((k, v) # cm_chain m k)))) = (map_of (concat (cm_buckets m)))(k \<mapsto> v)"
    using cm_put_lookup [OF assms(1) d] by simp
qed

lemma cm_delete:
  assumes "cm_ok m"
  shows "cm_ok (cm_put m k (chain_delete (cm_equal m) k (cm_chain m k)))" (is "cm_ok ?m")
    and "map_of (concat (cm_buckets (cm_put m k (chain_delete (cm_equal m) k (cm_chain m k)))))
      = (map_of (concat (cm_buckets m)))(k := None)"
proof -
  let ?c = "chain_delete (cm_equal m) k (cm_chain m k)"
  note placed = cm_chain_placed [OF assms, of k]
  have d: "set ?c = {kv \<in> set (cm_chain m k). fst kv \<noteq> k}" "distinct (map fst ?c)"
    using chain_delete_set [of "cm_equal m" "cm_chain m k" k] assms placed by (auto simp: cm_ok_def)
  then have p: "\<forall>k' \<in> fst ` set ?c. cm_index m k' = cm_index m k" using placed by auto
  have "map_of ?c k' = map_of (cm_chain m k) k'" if "k' \<noteq> k" for k'
  proof -
    have "map_of ?c k' = Some v \<longleftrightarrow> map_of (cm_chain m k) k' = Some v" for v
      using that d placed by (simp add: map_of_eq_Some_iff)
    then show ?thesis by (metis option.exhaust)
  qed
  moreover have "map_of ?c k = None" using d(1) by (auto simp: map_of_eq_None_iff)
  ultimately show "map_of (concat (cm_buckets ?m)) = (map_of (concat (cm_buckets m)))(k := None)"
    using cm_put_lookup [OF assms d(2) p] by simp
  show "cm_ok ?m" using cm_put_ok [OF assms d(2) p] .
qed

interpretation chain: hash_map "chain_ops :: (('k, 'v) chain_map, 'k, 'v) HashMap_ops"
proof
  fix eq :: "'k \<Rightarrow> 'k \<Rightarrow> bool" and n :: nat and h :: "'k \<Rightarrow> 64 word"
  assume "\<And>a b. eq a b \<longleftrightarrow> a = b"
  then show "\<exists>m. HashMap_Create chain_ops True n h eq = Some m \<and> HashMap_Ok chain_ops m \<and>
      HashMap_Items chain_ops (m :: ('k, 'v) chain_map) = []"
    by (auto simp: chain_ops_def cm_ok_def cm_index_def nth_append simp del: replicate_Suc)
next
  fix m :: "('k, 'v) chain_map" and k b v
  assume "HashMap_Ok chain_ops m" "hm_lookup chain_ops m k \<noteq> None"
  then show "HashMap_Insert chain_ops b m k v = (MAP_KEY_DUPLICATE_ERROR, m)"
    by (auto simp: chain_ops_def hm_lookup_def cm_find simp del: set_concat split: option.splits)
qed (auto simp: chain_ops_def hm_lookup_def cm_find cm_insert cm_delete cm_distinct)

section \<open>List\<close>

fun first_match :: "('a \<Rightarrow> 'a \<Rightarrow> int) \<Rightarrow> 'a \<Rightarrow> 'a list \<Rightarrow> nat option" where
  "first_match cmp x [] = None"
| "first_match cmp x (y # ys) = (if cmp x y = 0 then Some 0 else map_option Suc (first_match cmp x ys))"

definition array_ops :: "('a list, nat, 'a) List_ops" where
  "array_ops =
     \<lparr>ListCreate = (\<lambda>mem. if mem then Some [] else None),
      ListPushTail = (\<lambda>mem l x. if mem then (Some (length l), l @ [x]) else (None, l)),
      ListFind = (\<lambda>l x cmp. first_match cmp x l),
      ListItrRemove = (\<lambda>l i. if i < length l then (Some (l ! i), take i l @ drop (Suc i) l) else (None, l)),
      ListSize = length, ListItems = (\<lambda>l. l), ListOk = (\<lambda>l. True)\<rparr>"

lemma first_match_None: "first_match cmp x l = None \<longleftrightarrow> (\<forall>y \<in> set l. cmp x y \<noteq> 0)"
  by (induction l) auto

lemma first_match_Some:
  "first_match cmp x l = Some i \<Longrightarrow> i < length l \<and> cmp x (l ! i) = 0 \<and> (\<forall>z \<in> set (take i l). cmp x z \<noteq> 0)"
  by (induction l arbitrary: i) (auto split: if_splits)

interpretation array: dlist "array_ops :: ('a list, nat, 'a) List_ops"
proof
  fix l :: "'a list" and x cmp i
  assume "ListFind array_ops l x cmp = Some i"
  then have m: "i < length l" "cmp x (l ! i) = 0" "\<forall>z \<in> set (take i l). cmp x z \<noteq> 0"
    using first_match_Some [of cmp x l i] by (simp_all add: array_ops_def)
  show "\<exists>ys y zs l'. ListItems array_ops l = ys @ y # zs \<and> (\<forall>z \<in> set ys. cmp x z \<noteq> 0) \<and> cmp x y = 0
      \<and> ListItrRemove array_ops l i = (Some y, l') \<and> ListOk array_ops l' \<and> ListItems array_ops l' = ys @ zs"
    using m id_take_nth_drop [OF m(1)]
    by (intro exI [of _ "take i l"] exI [of _ "l ! i"] exI [of _ "drop (Suc i) l"] exI [of _ "take i l @ drop (Suc i) l"])
      (simp add: array_ops_def)
qed (auto simp: array_ops_def first_match_None)

section \<open>List with stable iterators\<close>

text \<open>A list of numbered nodes; 0 is the end iterator, a node keeps its number for life.\<close>

record 'a node_list =
  nl_nodes :: "(nat \<times> 'a) list"
  nl_next :: nat

definition nl_ok :: "'a node_list \<Rightarrow> bool" where
  "nl_ok l \<longleftrightarrow> distinct (map fst (nl_nodes l)) \<and> 0 \<notin> fst ` set (nl_nodes l)
     \<and> (\<forall>i \<in> fst ` set (nl_nodes l). i < nl_next l) \<and> 0 < nl_next l"

fun successor :: "nat list \<Rightarrow> nat \<Rightarrow> nat" where
  "successor [] i = 0"
| "successor (j # js) i = (if i = j then hd (js @ [0]) else successor js i)"

definition node_ops :: "('a node_list, nat, 'a) List_ops" where
  "node_ops =
     \<lparr>ListCreate = (\<lambda>mem. if mem then Some \<lparr>nl_nodes = [], nl_next = 1\<rparr> else None),
      ListPushTail = (\<lambda>mem l x. if mem
        then (Some (nl_next l), \<lparr>nl_nodes = nl_nodes l @ [(nl_next l, x)], nl_next = Suc (nl_next l)\<rparr>) else (None, l)),
      ListFind = (\<lambda>l x cmp. map_option fst (find (\<lambda>(i, y). cmp x y = 0) (nl_nodes l))),
      ListItrRemove = (\<lambda>l i. (map_of (nl_nodes l) i, l\<lparr>nl_nodes := filter (\<lambda>(j, y). j \<noteq> i) (nl_nodes l)\<rparr>)),
      ListSize = (\<lambda>l. length (nl_nodes l)), ListItems = (\<lambda>l. map snd (nl_nodes l)), ListOk = nl_ok\<rparr>"

definition node_walk :: "('a node_list, nat, 'a) List_walk" where
  "node_walk =
     \<lparr>ListItrBegin = (\<lambda>l. hd (map fst (nl_nodes l) @ [0])), ListItrEnd = (\<lambda>l. 0),
      ListItrNext = (\<lambda>l i. successor (map fst (nl_nodes l)) i), ListItrGet = (\<lambda>l. map_of (nl_nodes l)),
      ListItrs = (\<lambda>l. map fst (nl_nodes l))\<rparr>"

lemma successor_split: "distinct (is @ i # js) \<Longrightarrow> successor (is @ i # js) i = hd (js @ [0])"
  by (induction "is") auto

lemma find_split:
  "find P xs = Some x \<Longrightarrow> \<exists>ys zs. xs = ys @ x # zs \<and> (\<forall>y \<in> set ys. \<not> P y) \<and> P x"
proof (induction xs)
  case (Cons a xs)
  show ?case
  proof (cases "P a")
    case True
    with Cons.prems have "a # xs = [] @ x # xs \<and> P x" by simp
    then show ?thesis by fastforce
  next
    case False
    with Cons obtain ys zs where "xs = ys @ x # zs" "\<forall>y \<in> set ys. \<not> P y" "P x" by auto
    with False have "a # xs = (a # ys) @ x # zs \<and> (\<forall>y \<in> set (a # ys). \<not> P y) \<and> P x" by simp
    then show ?thesis by blast
  qed
qed simp

lemma remove_node:
  assumes "nl_ok l" and "nl_nodes l = ys @ (i, y) # zs"
  shows "ListItrRemove node_ops l i = (Some y, l\<lparr>nl_nodes := ys @ zs\<rparr>)" and "nl_ok (l\<lparr>nl_nodes := ys @ zs\<rparr>)"
proof -
  have "i \<notin> fst ` set (ys @ zs)" using assms by (auto simp: nl_ok_def)
  then have f: "filter (\<lambda>(j, y). j \<noteq> i) (ys @ zs) = ys @ zs" by (intro filter_True) force
  moreover have "map_of (nl_nodes l) i = Some y" using assms by (intro map_of_is_SomeI) (auto simp: nl_ok_def)
  ultimately show "ListItrRemove node_ops l i = (Some y, l\<lparr>nl_nodes := ys @ zs\<rparr>)"
    using assms(2) by (simp add: node_ops_def)
  show "nl_ok (l\<lparr>nl_nodes := ys @ zs\<rparr>)" using assms by (auto simp: nl_ok_def)
qed

interpretation nodes: dlist "node_ops :: ('a node_list, nat, 'a) List_ops"
proof
  fix l :: "'a node_list" and x cmp i
  assume ok: "ListOk node_ops l" and f: "ListFind node_ops l x cmp = Some i"
  then have "nl_ok l" by (simp add: node_ops_def)
  obtain y where "find (\<lambda>(i, y). cmp x y = 0) (nl_nodes l) = Some (i, y)" using f by (auto simp: node_ops_def)
  from find_split [OF this] obtain ys zs where s: "nl_nodes l = ys @ (i, y) # zs" "\<forall>z \<in> set ys. cmp x (snd z) \<noteq> 0" "cmp x y = 0"
    unfolding case_prod_beta fst_conv snd_conv by blast
  show "\<exists>ys y zs l'. ListItems node_ops l = ys @ y # zs \<and> (\<forall>z \<in> set ys. cmp x z \<noteq> 0) \<and> cmp x y = 0
      \<and> ListItrRemove node_ops l i = (Some y, l') \<and> ListOk node_ops l' \<and> ListItems node_ops l' = ys @ zs"
    using remove_node [OF \<open>nl_ok l\<close> s(1)] s
    by (intro exI [of _ "map snd ys"] exI [of _ y] exI [of _ "map snd zs"] exI [of _ "l\<lparr>nl_nodes := ys @ zs\<rparr>"])
      (simp add: node_ops_def)
qed (auto simp: node_ops_def nl_ok_def find_None_iff)

interpretation nodes: dlist_walk "node_ops :: ('a node_list, nat, 'a) List_ops" node_walk
proof
  fix l :: "'a node_list" and "is" i js
  assume "ListOk node_ops l"
  then have ok: "nl_ok l" by (simp add: node_ops_def)
  then show "distinct (ListItrs node_walk l) \<and> ListItrEnd node_walk l \<notin> set (ListItrs node_walk l)"
    by (auto simp: nl_ok_def node_walk_def)
  have "map_of (nl_nodes l) (fst p) = Some (snd p)" if "p \<in> set (nl_nodes l)" for p
    using that ok by (intro map_of_is_SomeI) (auto simp: nl_ok_def)
  then show "map (ListItrGet node_walk l) (ListItrs node_walk l) = map Some (ListItems node_ops l)"
    by (simp add: node_walk_def node_ops_def)
  assume w: "ListItrs node_walk l = is @ i # js"
  then have "distinct (is @ i # js)" using ok by (simp add: nl_ok_def node_walk_def)
  then show "ListItrNext node_walk l i = hd (js @ [ListItrEnd node_walk l])"
    using w successor_split by (simp add: node_walk_def)
  have "map fst (nl_nodes l) = is @ i # js" using w by (simp add: node_walk_def)
  then obtain ys ps where ps: "nl_nodes l = ys @ ps" "is = map fst ys" "i # js = map fst ps"
    by (auto simp: map_eq_append_conv)
  then obtain y zs where s: "nl_nodes l = ys @ (i, y) # zs" "map fst ys = is" "map fst zs = js"
    by (cases ps) auto
  have "map_of (ys @ zs) j = map_of (nl_nodes l) j" if "j \<noteq> i" for j
    using that s(1) by (simp add: map_add_def split: option.splits)
  moreover have "i \<notin> set (is @ js)" using \<open>distinct (is @ i # js)\<close> by simp
  ultimately have "\<forall>j \<in> set (is @ js). map_of (ys @ zs) j = map_of (nl_nodes l) j" by metis
  moreover have "map_of (nl_nodes l) i = Some y" using ok s(1) by (intro map_of_is_SomeI) (auto simp: nl_ok_def)
  ultimately show "\<exists>l'. ListItrRemove node_ops l i = (ListItrGet node_walk l i, l') \<and> ListOk node_ops l'
      \<and> ListItrs node_walk l' = is @ js \<and> ListItrEnd node_walk l' = ListItrEnd node_walk l
      \<and> (\<forall>j \<in> set (is @ js). ListItrGet node_walk l' j = ListItrGet node_walk l j)"
    using remove_node [OF ok s(1)] s
    by (intro exI [of _ "l\<lparr>nl_nodes := ys @ zs\<rparr>"]) (simp add: node_walk_def node_ops_def)
qed (simp add: node_walk_def)

end
