(* ===== verification/Reference_Server.thy ===== *)
theory Reference_Server
  imports Server_Run Data_Structures_Ref
begin

text \<open>
  The server on the reference data structures: the contracts \<open>group_store\<close>, \<open>user_store\<close> and
  \<open>chat_server\<close> are interpreted on it, and a freshly created server serves as the concrete state of
  the examples.
\<close>

definition ref_user_lib ::
  "((string, nat) chain_map, (int, nat) chain_map, string list, nat) user_lib" where
  "ref_user_lib =
     \<lparr>lib_byName = chain_ops, lib_byFd = chain_ops, lib_list = array_ops, uninit_ptr = Some 7,
      uninit_line = replicate CONF_USER_GROUPS_LINE_BUF_SIZE (CHR ''x'')\<rparr>"

definition ref_lib ::
  "((string, nat) chain_map, (int, nat) chain_map, string list, nat, (string, nat) chain_map) server_lib" where
  "ref_lib = \<lparr>sl_users = ref_user_lib, sl_groups = chain_ops\<rparr>"

definition ref_env :: server_env where
  "ref_env = \<lparr>env_mem = mem_ok, env_send = (\<lambda>fd bytes. int (length bytes)),
              env_uninit = (\<lambda>n. replicate n (CHR ''x''))\<rparr>"

definition ref_record :: TcpConnectionRecord where
  "ref_record = \<lparr>m_fdConnection = 5, m_ip = ''127.0.0.1'', m_conn_port = 40000\<rparr>"

definition fresh_users :: "((string, nat) chain_map, (int, nat) chain_map, string list) UserManager" where
  "fresh_users = the (UserManager_Create ref_user_lib mem_ok ServerManagerHashFunctionDJB2 ServerManagerEqualFunction)"

definition fresh_groups :: "(string, nat) chain_map GroupManager" where
  "fresh_groups = the (GroupManager_Create chain_ops mem_ok ServerManagerHashFunctionDJB2 ServerManagerEqualFunction)"

definition fresh_server ::
  "((string, nat) chain_map, (int, nat) chain_map, string list, (string, nat) chain_map) ServerManager" where
  "fresh_server = \<lparr>sm_userManager = fresh_users, sm_groupManager = fresh_groups\<rparr>"

interpretation ref_groups: group_store "chain_ops :: (string, nat) chain_map group_map"
  by unfold_locales

interpretation ref_users: user_store ref_user_lib
proof -
  have "hash_map (lib_byName ref_user_lib)" "hash_map (lib_byFd ref_user_lib)" "dlist (lib_list ref_user_lib)"
    by (simp_all add: ref_user_lib_def chain.hash_map_axioms array.dlist_axioms)
  moreover have "user_store_axioms ref_user_lib" by unfold_locales (simp add: ref_user_lib_def)
  ultimately show "user_store ref_user_lib" by (intro user_store.intro)
qed

interpretation ref_server: chat_server ref_lib
proof (rule chat_server.intro)
  show "user_store (sl_users ref_lib)" by (simp add: ref_lib_def ref_users.user_store_axioms)
  show "group_store (sl_groups ref_lib)" by (simp add: ref_lib_def ref_groups.group_store_axioms)
qed

lemma ref_env_ok [simp]: "env_ok ref_env" "env_mem ref_env = mem_ok"
  by (simp_all add: env_ok_def ref_env_def)

lemma fresh_users_created:
  "UserManager_Create ref_user_lib mem_ok ServerManagerHashFunctionDJB2 ServerManagerEqualFunction = Some fresh_users"
proof -
  have "\<And>a b. ServerManagerEqualFunction a b \<longleftrightarrow> a = b" by (simp add: ServerManagerEqualFunction_def)
  from ref_users.create_refines [OF this, of mem_ok ServerManagerHashFunctionDJB2] show ?thesis by (auto simp: fresh_users_def)
qed

lemma fresh_groups_created:
  "GroupManager_Create chain_ops mem_ok ServerManagerHashFunctionDJB2 ServerManagerEqualFunction = Some fresh_groups"
  by (simp add: fresh_groups_def GroupManager_Create_def chain_ops_def)

lemma fresh_server_run: "server_run ref_lib exact fresh_server"
  unfolding fresh_server_def
  by (rule run_create [of _ mem_ok]) (simp_all add: ref_lib_def fresh_users_created fresh_groups_created)

lemma fresh_server_view [simp]: "sm_view ref_lib fresh_server = empty_view"
  unfolding fresh_server_def
  by (rule ref_server.created_ok(2) [of mem_ok]) (simp_all add: ref_lib_def fresh_users_created fresh_groups_created)

lemma fresh_server_rep: "sm_rep ref_lib fresh_server"
  using ref_server.run_invariant [OF fresh_server_run] by simp

section \<open>A run with a user in a group\<close>

lemma ref_request:
  assumes "server_run ref_lib exact sm" and "request_ok req"
    and "reply_fits mem_ok (sm_view ref_lib sm) (m_fdConnection rec) req"
  obtains sm' order status payload where "server_run ref_lib exact sm'"
    and "ServerManagerCallbackRecv ref_lib ref_env sm rec (request_frame req) (length (request_frame req))
      = Some (sm', [(m_fdConnection rec, frame OPCODE_RESPONSE status payload)])"
    and "service mem_ok True order (sm_view ref_lib sm) (m_fdConnection rec) req = (sm_view ref_lib sm', status, payload)"
proof -
  obtain msg where msg: "decoded ref_env (request_frame req) (length (request_frame req)) = Some msg"
      "known_opcode (m_opcode msg)" "request_of msg = Some req"
    using decoded_request [OF ref_env_ok(1) assms(2)] .
  note inv = ref_server.run_invariant [OF assms(1)]
  have "answers ref_lib ref_env sm (m_fdConnection rec) req
      (ServerManagerCallbackRecv ref_lib ref_env sm rec (request_frame req) (length (request_frame req)))"
    using ref_server.recv_cases [OF inv [THEN conjunct1] ref_env_ok(1) inv [THEN conjunct2] order_refl,
        where rec = rec and bytes = "request_frame req"]
      msg assms(3) by (simp add: recv_outcome_def)
  then obtain sm' order status payload where a:
      "ServerManagerCallbackRecv ref_lib ref_env sm rec (request_frame req) (length (request_frame req))
        = Some (sm', sent ref_env (m_fdConnection rec) status payload)"
      "service mem_ok True order (sm_view ref_lib sm) (m_fdConnection rec) req = (sm_view ref_lib sm', status, payload)"
    by (auto simp: answers_def)
  moreover have "server_run ref_lib exact sm'"
    using run_recv [OF assms(1) ref_env_ok(1) _ order_refl a(1)] by simp
  ultimately show ?thesis using that by (simp add: sent_def)
qed

lemma ref_step:
  assumes "server_run ref_lib exact sm" and "request_ok req" and "reply_fits mem_ok (sm_view ref_lib sm) 5 req"
  shows "\<exists>sm' order. server_run ref_lib exact sm' \<and> sm_view ref_lib sm' = fst (service mem_ok True order (sm_view ref_lib sm) 5 req)"
proof -
  have fd: "m_fdConnection ref_record = 5" by (simp add: ref_record_def)
  show ?thesis using ref_request [of exact sm req ref_record] assms unfolding fd by (metis fst_conv)
qed

definition ann_view :: server_view where
  "ann_view =
     \<lparr>sv_users = \<lparr>db_password = [''ann'' \<mapsto> ''pw''], db_session = [5 \<mapsto> ''ann''],
                  db_groups = (\<lambda>_. [])(''ann'' := [''room''])\<rparr>,
      sv_groups = [''room'' \<mapsto> (new_group ''room'' 0)\<lparr>group_refCount := 1\<rparr>]\<rparr>"

lemma ann_registered:
  obtains sm where "server_run ref_lib exact sm"
    and "sm_view ref_lib sm = \<lparr>sv_users = \<lparr>db_password = [''ann'' \<mapsto> ''pw''], db_session = [5 \<mapsto> ''ann''],
                                          db_groups = (\<lambda>_. [])\<rparr>, sv_groups = Map.empty\<rparr>"
proof -
  have "request_ok (Req_Register ''ann'' ''pw'')" by (simp add: request_ok_def terminated_def NUL_def)
  from ref_step [OF fresh_server_run this] obtain sm' order where
    r: "server_run ref_lib exact sm'"
      "sm_view ref_lib sm' = fst (service mem_ok True order empty_view 5 (Req_Register ''ann'' ''pw''))"
    by (auto simp: reply_fits_def)
  from r(2) have "sm_view ref_lib sm' = \<lparr>sv_users = \<lparr>db_password = [''ann'' \<mapsto> ''pw''], db_session = [5 \<mapsto> ''ann''],
      db_groups = (\<lambda>_. [])\<rparr>, sv_groups = Map.empty\<rparr>"
    by (auto simp: empty_view_def db_empty_def spec_register_def)
  with r(1) show ?thesis by (rule that)
qed

lemma ann_server:
  obtains sm where "server_run ref_lib exact sm" and "sm_view ref_lib sm = ann_view"
proof -
  obtain sm where sm: "server_run ref_lib exact sm" "sm_view ref_lib sm =
      \<lparr>sv_users = \<lparr>db_password = [''ann'' \<mapsto> ''pw''], db_session = [5 \<mapsto> ''ann''], db_groups = (\<lambda>_. [])\<rparr>,
       sv_groups = Map.empty\<rparr>"
    using ann_registered .
  have "request_ok (Req_CreateGroup ''room'')" by (simp add: request_ok_def terminated_def NUL_def)
  from ref_step [OF sm(1) this] obtain sm' order where
    r: "server_run ref_lib exact sm'"
      "sm_view ref_lib sm' = fst (service mem_ok True order (sm_view ref_lib sm) 5 (Req_CreateGroup ''room''))"
    by (auto simp: reply_fits_def)
  from r(2) have "sm_view ref_lib sm' = ann_view"
    by (auto simp: sm(2) ann_view_def spec_add_def service_join_def spec_join_def spec_increase_def config_defs
        new_group_def endpoint_reply_def split: prod.splits)
  with r(1) show ?thesis by (rule that)
qed

end
