(* ===== verification/Registry_Properties.thy ===== *)
theory Registry_Properties
  imports Reference_Server
begin

text \<open>
  The contracts of the two registries, \<open>UserManager.c\<close> and \<open>GroupManager.c\<close>, as theorems over any library
  that keeps its own contract, and the places where the code does not do what it means to.
\<close>

lemma fresh_users_inv: "um_inv ref_user_lib fresh_users" "um_db ref_user_lib fresh_users = db_empty"
proof -
  have "\<And>a b. ServerManagerEqualFunction a b \<longleftrightarrow> a = b" by (simp add: ServerManagerEqualFunction_def)
  from ref_users.create_refines [OF this, of mem_ok ServerManagerHashFunctionDJB2] fresh_users_created
  show "um_inv ref_user_lib fresh_users" "um_db ref_user_lib fresh_users = db_empty" by auto
qed

lemma fresh_groups_inv: "gm_inv chain_ops fresh_groups" "gm_view chain_ops fresh_groups = Map.empty"
  using fresh_server_rep fresh_server_view
  by (simp_all add: sm_rep_def sm_view_def ref_lib_def fresh_server_def empty_view_def)

section \<open>Users\<close>

text \<open>
  C27. Accounts and sessions.  Registration, login and logout never leave the defined behaviour, keep the representation
  of the registry, and do exactly what their specifications say for every outcome of their allocations.
  \<open>UserManager_AddUser\<close> refuses a taken name, a connection that already has a session and a failed
  allocation without a trace (the user object and the name entry are undone), and otherwise registers the name
  and opens its session.  \<open>UserManager_Login\<close> answers an unknown name, a connected user and a wrong password in this
  order, refuses a connection that already has a session, and otherwise opens the session.
  \<open>UserManager_Logout\<close> ends the session and empties the user's group list, and the account stays.
\<close>

theorem session_operations_correct:
  assumes "user_store U" and "um_inv U um"
  shows "(\<exists>um'. UserManager_AddUser U mem (Some um) fd (Some n) (Some pw) =
            Some (fst (spec_register mem (um_db U um) fd n pw), Some um')
          \<and> um_inv U um' \<and> um_db U um' = snd (spec_register mem (um_db U um) fd n pw))
      \<and> (\<exists>um'. UserManager_Login U mem (Some um) fd (Some n) (Some pw) =
            Some (fst (spec_login mem (um_db U um) fd n pw), Some um')
          \<and> um_inv U um' \<and> um_db U um' = snd (spec_login mem (um_db U um) fd n pw))
      \<and> (\<exists>um' out'. UserManager_Logout U mem (Some um) fd out =
            Some (fst (spec_logout (um_db U um) fd), out', Some um')
          \<and> um_inv U um' \<and> um_db U um' = snd (spec_logout (um_db U um) fd))"
  by (intro conjI user_store.register_refines [OF assms] user_store.login_refines [OF assms] user_store.logout_refines [OF assms])

text \<open>A registry in which Ann is connected through descriptor 5.\<close>

lemma ann_connected:
  obtains um where "um_inv ref_user_lib um"
    and "um_db ref_user_lib um = \<lparr>db_password = [''ann'' \<mapsto> ''pw''], db_session = [5 \<mapsto> ''ann''], db_groups = (\<lambda>_. [])\<rparr>"
  using user_store.register_refines [OF ref_users.user_store_axioms fresh_users_inv(1), of mem_ok 5 "''ann''" "''pw''"]
  by (auto simp: fresh_users_inv(2) spec_register_def db_empty_def intro: that)

theorem session_operations_correct_witness:
  "\<exists>um um1 um2 um3 out. um_inv ref_user_lib um
     \<and> UserManager_AddUser ref_user_lib mem_ok (Some um) 5 (Some ''ann'') (Some ''xx'') = Some (USER_MANAGER_RESULT_NAME_TAKEN, Some um1)
     \<and> UserManager_Login ref_user_lib mem_ok (Some um) 5 (Some ''ann'') (Some ''xx'') = Some (USER_MANAGER_RESULT_ALREADY_LOG, Some um2)
     \<and> UserManager_Logout ref_user_lib mem_ok (Some um) 5 None = Some (USER_MANAGER_RESULT_SUCCESS, out, Some um3)
     \<and> db_session (um_db ref_user_lib um3) = Map.empty"
proof -
  obtain um where um: "um_inv ref_user_lib um"
      "um_db ref_user_lib um = \<lparr>db_password = [''ann'' \<mapsto> ''pw''], db_session = [5 \<mapsto> ''ann''], db_groups = (\<lambda>_. [])\<rparr>"
    by (rule ann_connected)
  note ops = session_operations_correct [OF ref_users.user_store_axioms um(1), of mem_ok 5 "''ann''" "''xx''" None, unfolded um(2)]
  obtain um1 where "UserManager_AddUser ref_user_lib mem_ok (Some um) 5 (Some ''ann'') (Some ''xx'') = Some (USER_MANAGER_RESULT_NAME_TAKEN, Some um1)"
    using ops [THEN conjunct1] by (auto simp: spec_register_def)
  moreover obtain um2 where "UserManager_Login ref_user_lib mem_ok (Some um) 5 (Some ''ann'') (Some ''xx'') = Some (USER_MANAGER_RESULT_ALREADY_LOG, Some um2)"
    using ops [THEN conjunct2, THEN conjunct1] by (auto simp: spec_login_def)
  moreover obtain um3 out where "UserManager_Logout ref_user_lib mem_ok (Some um) 5 None = Some (USER_MANAGER_RESULT_SUCCESS, out, Some um3)"
      "db_session (um_db ref_user_lib um3) = Map.empty"
    using ops [THEN conjunct2, THEN conjunct2] by (auto simp: spec_logout_def)
  ultimately show ?thesis using um(1) by blast
qed

text \<open>
  C28. Memberships.  \<open>UserManager_AddUserToGroup\<close> appends the name to the list of the connected user
  unless it is there already or an allocation fails; when only the list node cannot be allocated it still
  reports success without adding the name.  \<open>UserManager_RemoveUserFromGroup\<close> removes the name from the list of the
  connected user and reports a user that is not in the group; nothing else changes.
\<close>

theorem membership_operations_correct:
  assumes "user_store U" and "um_inv U um"
  shows "(\<exists>copied um'. (mem Alloc_List \<and> mem Alloc_GroupNameCopy \<longrightarrow> copied)
      \<and> UserManager_AddUserToGroup U mem (Some um) fd (Some g) =
          Some (fst (spec_join copied (mem Alloc_ListNode) (um_db U um) fd g), Some um')
      \<and> um_inv U um' \<and> um_db U um' = snd (spec_join copied (mem Alloc_ListNode) (um_db U um) fd g))
    \<and> (\<exists>um'. UserManager_RemoveUserFromGroup U (Some um) fd (Some g) =
            Some (fst (spec_leave (um_db U um) fd g), Some um')
          \<and> um_inv U um' \<and> um_db U um' = snd (spec_leave (um_db U um) fd g))"
  by (intro conjI user_store.join_refines [OF assms] user_store.leave_refines [OF assms])

theorem membership_operations_correct_witness:
  "\<exists>um um1 um2. um_inv ref_user_lib um
     \<and> UserManager_AddUserToGroup ref_user_lib mem_ok (Some um) 5 (Some ''room'') = Some (USER_MANAGER_RESULT_SUCCESS, Some um1)
     \<and> db_groups (um_db ref_user_lib um1) ''ann'' = [''room'']
     \<and> UserManager_RemoveUserFromGroup ref_user_lib (Some um) 5 (Some ''room'') = Some (USER_MANAGER_RESULT_NOT_IN_GROUP, Some um2)"
proof -
  obtain um where um: "um_inv ref_user_lib um"
      "um_db ref_user_lib um = \<lparr>db_password = [''ann'' \<mapsto> ''pw''], db_session = [5 \<mapsto> ''ann''], db_groups = (\<lambda>_. [])\<rparr>"
    by (rule ann_connected)
  from membership_operations_correct [OF ref_users.user_store_axioms um(1), of mem_ok 5 "''room''"] um(1)
  show ?thesis by (simp add: um(2) spec_join_def spec_leave_def) fastforce
qed

text \<open>The name of the first user of the map is freed as a key and again with the user.\<close>

lemma first_name_freed_twice:
  assumes "um_heap um p = Some u" and "p \<notin> snd ` set rest"
  shows "(case (do { b1 \<leftarrow> free_block (Blk_Username p) (concat (map (blocks_of_user um \<circ> snd) ((k, p) # rest)));
            UserManager_DestroyUserAdapter um k p b1 }) of None \<Rightarrow> True | Some _ \<Rightarrow> False)"
proof -
  let ?live = "concat (map (blocks_of_user um \<circ> snd) ((k, p) # rest))"
  let ?b1 = "remove1 (Blk_Username p) ?live"
  have other: "Blk_Username p \<notin> set (blocks_of_user um q)" if "q \<noteq> p" for q
    using that by (auto simp: blocks_of_user_def split: option.splits)
  then have rest: "Blk_Username p \<notin> set (concat (map (blocks_of_user um \<circ> snd) rest))" using assms(2) by fastforce
  then have gone: "Blk_Username p \<notin> set ?b1" by (simp add: blocks_of_user_def assms(1))
  have "UserManager_DestroyUserAdapter um k p ?b1 = None"
    using gone assms(1)
    by (auto simp: UserManager_DestroyUserAdapter_def user_at_def free_block_def dest: notin_set_remove1 split: Option.bind_splits)
  then show ?thesis by (simp add: free_block_def blocks_of_user_def assms(1))
qed

text \<open>
  C34. The registry cannot be destroyed once a user has registered.  \<open>UserManager_Destroy\<close> passes \<open>free\<close> as the destructor
  of the keys of the map by name, whose keys are the name strings the users own and free themselves: the name
  of every user is freed twice.  (The keys of the map by descriptor, freed next, point into the users and
  were never allocated.)  So every orderly shutdown of a server with at least one registered user is undefined.
\<close>

theorem user_manager_destroy_undefined:
  assumes "user_store U" and "um_inv U um" and "db_password (um_db U um) n = Some pw"
  shows "UserManager_Destroy U (Some um) = None"
proof -
  let ?items = "HashMap_Items (lib_byName U) (um_usersByName um)"
  have d: "distinct (map fst ?items)"
    using hash_map.items_distinct [OF user_store.axioms(1) [OF assms(1)]] assms(2) by (simp add: um_inv_def)
  have "?items \<noteq> []" using assms(3) by (auto simp: um_db_def user_named_def hm_lookup_def)
  then obtain k p rest where items: "?items = (k, p) # rest" by (metis neq_Nil_conv surj_pair)
  have look: "hm_lookup (lib_byName U) (um_usersByName um) k' = Some q" if "(k', q) \<in> set ?items" for k' q
    using that d by (simp add: hm_lookup_def)
  have named: "\<exists>u. um_heap um q = Some u \<and> user_username u = k'" if "(k', q) \<in> set ?items" for k' q
    using look [OF that] user_store.namesD [OF assms(1,2)] by blast
  have "(k, p) \<in> set ?items" by (simp add: items)
  from named [OF this] obtain u where u: "um_heap um p = Some u" "user_username u = k" by blast
  have "p \<notin> snd ` set rest"
  proof
    assume "p \<in> snd ` set rest"
    then obtain k' where k': "(k', p) \<in> set rest" by force
    then have "(k', p) \<in> set ?items" by (simp add: items)
    from named [OF this] u have "k' = k" by simp
    then show False using k' d by (force simp: items)
  qed
  from first_name_freed_twice [OF u(1) this, of k] show ?thesis
    by (auto simp: UserManager_Destroy_def HashMap_Destroy_def HashMap_ForEach_def items split: Option.bind_splits option.splits)
qed

theorem user_manager_destroy_undefined_witness:
  "\<exists>um'. UserManager_AddUser ref_user_lib mem_ok (Some fresh_users) 5 (Some ''ann'') (Some ''pw'')
       = Some (USER_MANAGER_RESULT_SUCCESS, Some um') \<and> UserManager_Destroy ref_user_lib (Some um') = None"
proof -
  obtain um' where um': "UserManager_AddUser ref_user_lib mem_ok (Some fresh_users) 5 (Some ''ann'') (Some ''pw'')
        = Some (USER_MANAGER_RESULT_SUCCESS, Some um')" "um_inv ref_user_lib um'" "db_password (um_db ref_user_lib um') ''ann'' = Some ''pw''"
    using ref_users.register_refines [OF fresh_users_inv(1), of mem_ok 5 "''ann''" "''pw''"]
    by (auto simp: fresh_users_inv(2) spec_register_def db_empty_def)
  then show ?thesis using user_manager_destroy_undefined [OF ref_users.user_store_axioms um'(2,3)] by blast
qed

section \<open>Groups\<close>

text \<open>
  C26. The registry of groups.  Adding a group, taking and dropping a reference and removing an empty group never leave the
  defined behaviour, keep the representation of the registry (hash map, pointers and heap) and do, with
  their result codes, exactly what the specification says on the map from names to groups: a new group gets the
  base address, the next port and no references; a group is removed only without references; and no
  operation touches another group.
\<close>

theorem group_operations_correct:
  assumes "group_store G" and "gm_inv G gm"
  shows "(\<exists>gm'. GroupManager_AddGroup G mem (Some gm) (Some n) = Some (fst (spec_add mem (gm_view G gm) n), Some gm')
            \<and> gm_inv G gm' \<and> gm_view G gm' = snd (spec_add mem (gm_view G gm) n))
    \<and> (\<exists>gm'. GroupManager_IncreaseGroupRefCount G (Some gm) (Some n) None = Some (fst (spec_increase (gm_view G gm) n), None, Some gm')
            \<and> gm_inv G gm' \<and> gm_view G gm' = snd (spec_increase (gm_view G gm) n))
    \<and> (\<exists>gm'. GroupManager_DecreaseGroupRefCount G (Some gm) (Some n) None = Some (fst (spec_decrease (gm_view G gm) n), None, Some gm')
            \<and> gm_inv G gm' \<and> gm_view G gm' = snd (spec_decrease (gm_view G gm) n))
    \<and> (\<exists>gm'. GroupManager_RemoveGroupIfEmpty G (Some gm) (Some n) = Some (fst (spec_remove_if_empty (gm_view G gm) n), Some gm')
            \<and> gm_inv G gm' \<and> gm_view G gm' = snd (spec_remove_if_empty (gm_view G gm) n))"
  by (intro conjI group_store.add_refines [OF assms] group_store.increase_refines [OF assms]
      group_store.decrease_refines [OF assms] group_store.remove_refines [OF assms])

theorem group_operations_correct_witness:
  "\<exists>gm'. GroupManager_AddGroup chain_ops mem_ok (Some fresh_groups) (Some ''room'') = Some (GROUP_MANAGER_RESULT_SUCCESS, Some gm')
     \<and> gm_view chain_ops gm' = [''room'' \<mapsto> new_group ''room'' 0]"
  using group_operations_correct [OF ref_groups.group_store_axioms fresh_groups_inv(1), of mem_ok "''room''"]
  by (auto simp: fresh_groups_inv(2) spec_add_def config_defs)

text \<open>
  C35. Two live groups can share a port.  The port of a new group is the base port plus the number of live groups.  After
  two groups were created and the first one was removed, the next group gets the port (and the
  address) of the second, which is still alive: messages of either are printed in the windows of both.
\<close>

theorem live_groups_share_endpoint:
  assumes "group_store G" and "gm_inv G gm" and "gm_view G gm = Map.empty" and "distinct [a, b, c]"
    and "\<forall>n \<in> {a, b, c}. length n \<le> CONF_GROUP_MANAGER_MAX_NAME_LENGTH"
  shows "\<exists>g1 g2 g3 g4 x y. GroupManager_AddGroup G mem_ok (Some gm) (Some a) = Some (GROUP_MANAGER_RESULT_SUCCESS, Some g1)
    \<and> GroupManager_AddGroup G mem_ok (Some g1) (Some b) = Some (GROUP_MANAGER_RESULT_SUCCESS, Some g2)
    \<and> GroupManager_RemoveGroupIfEmpty G (Some g2) (Some a) = Some (GROUP_MANAGER_RESULT_SUCCESS, Some g3)
    \<and> GroupManager_AddGroup G mem_ok (Some g3) (Some c) = Some (GROUP_MANAGER_RESULT_SUCCESS, Some g4)
    \<and> gm_view G g4 b = Some x \<and> gm_view G g4 c = Some y \<and> group_endpoint x = group_endpoint y"
proof -
  let ?a = "new_group a 0" and ?b = "new_group b 1" and ?c = "new_group c 1"
  note add = group_store.add_refines [OF assms(1), of _ mem_ok]
  obtain g1 where 1: "GroupManager_AddGroup G mem_ok (Some gm) (Some a) = Some (GROUP_MANAGER_RESULT_SUCCESS, Some g1)"
      "gm_inv G g1" "gm_view G g1 = [a \<mapsto> ?a]"
    using add [OF assms(2), of a] assms(3,5) by (auto simp: spec_add_def config_defs)
  obtain g2 where 2: "GroupManager_AddGroup G mem_ok (Some g1) (Some b) = Some (GROUP_MANAGER_RESULT_SUCCESS, Some g2)"
      "gm_inv G g2" "gm_view G g2 = [a \<mapsto> ?a, b \<mapsto> ?b]"
    using add [OF 1(2), of b] 1(3) assms(4,5) by (auto simp: spec_add_def config_defs)
  obtain g3 where 3: "GroupManager_RemoveGroupIfEmpty G (Some g2) (Some a) = Some (GROUP_MANAGER_RESULT_SUCCESS, Some g3)"
      "gm_inv G g3" "gm_view G g3 = [b \<mapsto> ?b]"
    using group_store.remove_refines [OF assms(1) 2(2), of a] 2(3) assms(4)
    by (auto simp: spec_remove_if_empty_def new_group_def fun_eq_iff)
  obtain g4 where 4: "GroupManager_AddGroup G mem_ok (Some g3) (Some c) = Some (GROUP_MANAGER_RESULT_SUCCESS, Some g4)"
      "gm_view G g4 = [b \<mapsto> ?b, c \<mapsto> ?c]"
    using add [OF 3(2), of c] 3(3) assms(4,5) by (auto simp: spec_add_def config_defs)
  show ?thesis using 1(1) 2(1) 3(1) 4 assms(4) by (auto simp: new_group_def)
qed

theorem live_groups_share_endpoint_witness:
  "\<exists>g1 g2 g3 g4 x y. GroupManager_AddGroup chain_ops mem_ok (Some fresh_groups) (Some ''a'') = Some (GROUP_MANAGER_RESULT_SUCCESS, Some g1)
    \<and> GroupManager_AddGroup chain_ops mem_ok (Some g1) (Some ''b'') = Some (GROUP_MANAGER_RESULT_SUCCESS, Some g2)
    \<and> GroupManager_RemoveGroupIfEmpty chain_ops (Some g2) (Some ''a'') = Some (GROUP_MANAGER_RESULT_SUCCESS, Some g3)
    \<and> GroupManager_AddGroup chain_ops mem_ok (Some g3) (Some ''c'') = Some (GROUP_MANAGER_RESULT_SUCCESS, Some g4)
    \<and> gm_view chain_ops g4 ''b'' = Some x \<and> gm_view chain_ops g4 ''c'' = Some y \<and> group_endpoint x = group_endpoint y"
  using live_groups_share_endpoint [OF ref_groups.group_store_axioms fresh_groups_inv, of "''a''" "''b''" "''c''"]
  by (simp add: config_defs)

end
