(* ===== verification/Tcp_Server.thy ===== *)
theory Tcp_Server
  imports Tcp_Connection Data_Structures_Api Chat_Config
begin

text \<open>
  \<open>src/ServerNet\<close>: \<open>TcpConnectionHandler.c\<close>, \<open>TcpConnectionAcceptor.c\<close> and \<open>TcpServerController.c\<close>.
  Three threads work on one controller: the owner (create, start, stop, destroy), the acceptor
  thread and the handler thread.  The record \<open>TcpServerController\<close> is the whole shared state, with the two
  subsystems and the descriptors and connection records (\<open>tc_net\<close>) inside it; an operation maps it to
  its new value, and \<^term>\<open>None\<close> is undefined behaviour (a dangling record, a double close, a join
  without a thread, a mutex locked twice, an \<open>fd_set\<close> index out of range).

  A worker thread stands at the test of its loop (\<open>At_Test\<close>), blocked in its system call
  (\<open>In_Call\<close>) or has returned (\<open>Returned\<close>); the loop functions make one step between these points.
  The only data the threads share are the atomic state flags, which are read at the test, and the
  pipe, to which the acceptor only appends, so these steps can be interleaved freely.
  \<open>pthread_join\<close> lets the worker take the steps it needs to return after its flag was cleared.

  What the system calls return is given by the environment records \<open>accept_env\<close>, \<open>io_env\<close> and
  \<open>create_env\<close>.  The callbacks get a value of type \<^typ>\<open>'e\<close> from it, for what the environment
  decides while they run.  \<open>m_x\<close> of a struct is \<open>ta_x\<close>, \<open>th_x\<close> or \<open>tc_x\<close>.
\<close>

section \<open>State\<close>

definition FD_SETSIZE :: int where "FD_SETSIZE = 1024"

definition sizeof_pointer :: int where "sizeof_pointer = 8"

datatype HandlerState = HANDLER_STATE_STOPPED | HANDLER_STATE_RUNNING

datatype AcceptorState = ACCEPTOR_STATE_STOPPED | ACCEPTOR_STATE_RUNNING

datatype ServerState = SERVER_STATE_STOPPED | SERVER_STATE_RUNNING

datatype TcpResult =
    TCP_RESULT_SUCCESS | TCP_RESULT_NULL_PTR | TCP_RESULT_INVALID_ARGUMENT
  | TCP_RESULT_ALLOCATION_FAILED | TCP_RESULT_SOCKET_ERROR | TCP_RESULT_BIND_ERROR
  | TCP_RESULT_LISTEN_ERROR | TCP_RESULT_ACCEPT_ERROR | TCP_RESULT_CONNECTION_CLOSED
  | TCP_RESULT_THREAD_CREATION_FAILED

fun TcpResult_ToString :: "TcpResult \<Rightarrow> string" where
  "TcpResult_ToString TCP_RESULT_SUCCESS = ''success''"
| "TcpResult_ToString TCP_RESULT_NULL_PTR = ''null pointer''"
| "TcpResult_ToString TCP_RESULT_ALLOCATION_FAILED = ''allocation failed''"
| "TcpResult_ToString TCP_RESULT_SOCKET_ERROR = ''socket error''"
| "TcpResult_ToString TCP_RESULT_BIND_ERROR = ''bind error''"
| "TcpResult_ToString TCP_RESULT_LISTEN_ERROR = ''listen error''"
| "TcpResult_ToString TCP_RESULT_ACCEPT_ERROR = ''accept error''"
| "TcpResult_ToString TCP_RESULT_CONNECTION_CLOSED = ''connection closed''"
| "TcpResult_ToString TCP_RESULT_THREAD_CREATION_FAILED = ''thread creation failed''"
| "TcpResult_ToString TCP_RESULT_INVALID_ARGUMENT = ''unknown''"

datatype worker_point = At_Test | In_Call | Returned

datatype thread = No_Thread | Worker worker_point | Joined

record TcpConnectionAcceptor =
  ta_thread :: thread
  ta_listenFd :: int
  ta_state :: AcceptorState

text \<open>\<open>th_pipe\<close> is what has been written to the wake-up pipe and not yet read; \<^term>\<open>None\<close> is the \<open>NULL\<close> pointer.\<close>

record 'l TcpConnectionHandler =
  th_thread :: thread
  th_state :: HandlerState
  th_connectionsDB :: 'l
  th_maxFd :: int
  th_activeFdSet :: "int set"
  th_activeFdSetCopy :: "int set"
  th_wakeupPipe :: "int \<times> int"
  th_pipe :: "nat option list"

type_synonym ('e, 'c) record_callback = "'e \<Rightarrow> 'c \<Rightarrow> TcpConnectionRecord \<Rightarrow> 'c option"
type_synonym ('e, 'c) message_callback = "'e \<Rightarrow> 'c \<Rightarrow> TcpConnectionRecord \<Rightarrow> string \<Rightarrow> nat \<Rightarrow> 'c option"

record ('l, 'e, 'c) TcpServerController =
  tc_name :: string
  tc_connectionAcceptor :: "TcpConnectionAcceptor option"
  tc_connectionHandler :: "'l TcpConnectionHandler option"
  tc_ip :: "32 word"
  tc_port :: "16 word"
  tc_state :: ServerState
  tc_lock :: bool
  tc_callbackContext :: 'c
  tc_callbackNewConnection :: "('e, 'c) record_callback option"
  tc_callbackDisconnect :: "('e, 'c) record_callback option"
  tc_callbackMessageReceived :: "('e, 'c) message_callback option"
  tc_net :: net

record accept_env =
  ae_accept :: "(int \<times> 32 word \<times> 16 word) option"
  ae_ipBuffer :: string
  ae_mem :: bool
  ae_written :: int

record 'e io_env =
  io_select :: "int list option"
  io_eintr :: bool
  io_read :: bool
  io_node :: bool
  io_recv :: "int \<Rightarrow> int \<times> string"
  io_callback :: "int \<Rightarrow> 'e"

record create_env =
  ce_controller :: bool
  ce_name :: bool
  ce_mutex :: bool
  ce_acceptor :: bool
  ce_socket :: int
  ce_setsockopt :: bool
  ce_bind :: "32 word \<Rightarrow> 16 word \<Rightarrow> bool"
  ce_listen :: bool
  ce_handler :: bool
  ce_list :: bool
  ce_pipe :: "(int \<times> int) option"

abbreviation put_handler :: "'l TcpConnectionHandler \<Rightarrow> ('l, 'e, 'c) TcpServerController \<Rightarrow> ('l, 'e, 'c) TcpServerController" where
  "put_handler h C \<equiv> C\<lparr>tc_connectionHandler := Some h\<rparr>"

abbreviation put_acceptor :: "TcpConnectionAcceptor \<Rightarrow> ('l, 'e, 'c) TcpServerController \<Rightarrow> ('l, 'e, 'c) TcpServerController" where
  "put_acceptor a C \<equiv> C\<lparr>tc_connectionAcceptor := Some a\<rparr>"

definition fd_set_index :: "int \<Rightarrow> bool" where
  "fd_set_index fd \<longleftrightarrow> 0 \<le> fd \<and> fd < FD_SETSIZE"

section \<open>Callbacks of the controller\<close>

definition TcpServerController_NotifyNewConnection ::
  "'e \<Rightarrow> ('l, 'e, 'c) TcpServerController \<Rightarrow> nat option \<Rightarrow> ('l, 'e, 'c) TcpServerController option" where
  "TcpServerController_NotifyNewConnection e C a_record =
     (case a_record of
        None \<Rightarrow> Some C
      | Some p \<Rightarrow> do {
          rec \<leftarrow> net_heap (tc_net C) p;
          case tc_callbackNewConnection C of
            None \<Rightarrow> Some C
          | Some f \<Rightarrow> do { ctx \<leftarrow> f e (tc_callbackContext C) rec; Some (C\<lparr>tc_callbackContext := ctx\<rparr>) }
        })"

definition TcpServerController_ProcessMessage ::
  "'e \<Rightarrow> ('l, 'e, 'c) TcpServerController \<Rightarrow> nat option \<Rightarrow> string option \<Rightarrow> nat
     \<Rightarrow> (TcpResult \<times> ('l, 'e, 'c) TcpServerController) option" where
  "TcpServerController_ProcessMessage e C a_record a_message a_length =
     (case (a_record, a_message) of
        (Some p, Some msg) \<Rightarrow> do {
          rec \<leftarrow> net_heap (tc_net C) p;
          if a_length = 0 then Some (TCP_RESULT_INVALID_ARGUMENT, C)
          else (case tc_callbackMessageReceived C of
                  None \<Rightarrow> Some (TCP_RESULT_SUCCESS, C)
                | Some f \<Rightarrow> do {
                    ctx \<leftarrow> f e (tc_callbackContext C) rec msg a_length;
                    Some (TCP_RESULT_SUCCESS, C\<lparr>tc_callbackContext := ctx\<rparr>)
                  })
        }
      | _ \<Rightarrow> Some (TCP_RESULT_NULL_PTR, C))"

definition TcpServerController_ProcessDisconnect ::
  "'e \<Rightarrow> ('l, 'e, 'c) TcpServerController \<Rightarrow> nat option
     \<Rightarrow> (TcpResult \<times> ('l, 'e, 'c) TcpServerController) option" where
  "TcpServerController_ProcessDisconnect e C a_record = do {
     p \<leftarrow> a_record;
     rec \<leftarrow> net_heap (tc_net C) p;
     C1 \<leftarrow> (case tc_callbackDisconnect C of
              None \<Rightarrow> Some C
            | Some f \<Rightarrow> do { ctx \<leftarrow> f e (tc_callbackContext C) rec; Some (C\<lparr>tc_callbackContext := ctx\<rparr>) });
     (_, n) \<leftarrow> TcpConnectionRecord_Destroy (Some p) (tc_net C1);
     Some (TCP_RESULT_SUCCESS, C1\<lparr>tc_net := n\<rparr>)
   }"

section \<open>The handler thread\<close>

definition ProcessNewConnection ::
  "('l, 'i, nat) List_ops \<Rightarrow> 'e io_env \<Rightarrow> ('l, 'e, 'c) TcpServerController \<Rightarrow> ('l, 'e, 'c) TcpServerController option" where
  "ProcessNewConnection L e C = do {
     h \<leftarrow> tc_connectionHandler C;
     if \<not> io_read e then Some C
     else (case th_pipe h of
             [] \<Rightarrow> Some C
           | record # rest \<Rightarrow>
               (let h1 = h\<lparr>th_pipe := rest\<rparr>
                in case record of
                     None \<Rightarrow> Some (put_handler h1 C)
                   | Some p \<Rightarrow> do {
                       rec \<leftarrow> net_heap (tc_net C) p;
                       let fd = m_fdConnection rec;
                       if fd \<ge> FD_SETSIZE
                       then do {
                         (_, C1) \<leftarrow> TcpServerController_ProcessDisconnect (io_callback e fd) (put_handler h1 C) (Some p);
                         Some C1
                       }
                       else if \<not> fd_set_index fd then None
                       else TcpServerController_NotifyNewConnection (io_callback e fd)
                              (put_handler (h1\<lparr>th_connectionsDB := snd (ListPushTail L (io_node e) (th_connectionsDB h1) p),
                                              th_activeFdSet := insert fd (th_activeFdSet h1),
                                              th_maxFd := max (th_maxFd h1) fd\<rparr>) C)
                              (Some p)
                     }))
   }"

definition ProcessClientData ::
  "('l, 'i, nat) List_ops \<Rightarrow> 'e io_env \<Rightarrow> ('l, 'e, 'c) TcpServerController \<Rightarrow> nat \<Rightarrow> 'i
     \<Rightarrow> ('l, 'e, 'c) TcpServerController option" where
  "ProcessClientData L e C record currentItr = do {
     h \<leftarrow> tc_connectionHandler C;
     rec \<leftarrow> net_heap (tc_net C) record;
     let fd = m_fdConnection rec;
     let (n, buf) = io_recv e fd;
     if n \<le> 0
     then do {
       (_, C1) \<leftarrow> TcpServerController_ProcessDisconnect (io_callback e fd)
                   (put_handler (h\<lparr>th_activeFdSet := th_activeFdSet h - {fd},
                                   th_connectionsDB := snd (ListItrRemove L (th_connectionsDB h) currentItr)\<rparr>) C)
                   (Some record);
       Some C1
     }
     else do {
       (_, C1) \<leftarrow> TcpServerController_ProcessMessage (io_callback e fd) C (Some record) (Some buf) (nat n);
       Some C1
     }
   }"

text \<open>The loop of \<open>ServiceExistingConnections\<close>; the next iterator is read before the current one may be removed.\<close>

partial_function (option) service_loop ::
  "('l, 'i, nat) List_ops \<Rightarrow> ('l, 'i, nat) List_walk \<Rightarrow> 'e io_env \<Rightarrow> 'i \<Rightarrow> 'i \<Rightarrow> int
     \<Rightarrow> ('l, 'e, 'c) TcpServerController \<Rightarrow> ('l, 'e, 'c) TcpServerController option" where
  "service_loop L W e itr end_itr nReady C =
     (if itr = end_itr \<or> nReady \<le> 0 then Some C
      else Option.bind (tc_connectionHandler C) (\<lambda>h.
           Option.bind (ListItrGet W (th_connectionsDB h) itr) (\<lambda>record.
           Option.bind (net_heap (tc_net C) record) (\<lambda>rec.
             if \<not> fd_set_index (m_fdConnection rec) then None
             else if m_fdConnection rec \<in> th_activeFdSetCopy h
             then Option.bind (ProcessClientData L e C record itr)
                    (service_loop L W e (ListItrNext W (th_connectionsDB h) itr) end_itr (nReady - 1))
             else service_loop L W e (ListItrNext W (th_connectionsDB h) itr) end_itr nReady C))))"

definition ServiceExistingConnections ::
  "('l, 'i, nat) List_ops \<Rightarrow> ('l, 'i, nat) List_walk \<Rightarrow> 'e io_env \<Rightarrow> ('l, 'e, 'c) TcpServerController \<Rightarrow> int
     \<Rightarrow> ('l, 'e, 'c) TcpServerController option" where
  "ServiceExistingConnections L W e C nReady = do {
     h \<leftarrow> tc_connectionHandler C;
     service_loop L W e (ListItrBegin W (th_connectionsDB h)) (ListItrEnd W (th_connectionsDB h)) nReady C
   }"

text \<open>\<open>select\<close> leaves in the copy those descriptors of the set below \<open>m_maxFd + 1\<close> that are ready and returns their number.\<close>

definition WaitForActivity :: "'e io_env \<Rightarrow> 'l TcpConnectionHandler \<Rightarrow> int \<times> 'l TcpConnectionHandler" where
  "WaitForActivity e h =
     (case io_select e of
        None \<Rightarrow> (if io_eintr e then 0 else - 1, h\<lparr>th_activeFdSetCopy := th_activeFdSet h\<rparr>)
      | Some ready \<Rightarrow>
          (let copy = set (filter (\<lambda>fd. fd \<in> th_activeFdSet h \<and> fd \<le> th_maxFd h) ready)
           in (int (card copy), h\<lparr>th_activeFdSetCopy := copy\<rparr>)))"

definition RegisterNewConnectionsFromAcceptor ::
  "('l, 'i, nat) List_ops \<Rightarrow> 'e io_env \<Rightarrow> ('l, 'e, 'c) TcpServerController \<Rightarrow> int
     \<Rightarrow> (('l, 'e, 'c) TcpServerController \<times> int) option" where
  "RegisterNewConnectionsFromAcceptor L e C nReady = do {
     h \<leftarrow> tc_connectionHandler C;
     if fst (th_wakeupPipe h) \<in> th_activeFdSetCopy h
     then do { C1 \<leftarrow> ProcessNewConnection L e C; Some (C1, nReady - 1) }
     else Some (C, nReady)
   }"

text \<open>The body of the loop; the Boolean says whether it breaks out.\<close>

definition handler_iteration ::
  "('l, 'i, nat) List_ops \<Rightarrow> ('l, 'i, nat) List_walk \<Rightarrow> 'e io_env \<Rightarrow> ('l, 'e, 'c) TcpServerController
     \<Rightarrow> (bool \<times> ('l, 'e, 'c) TcpServerController) option" where
  "handler_iteration L W e C = do {
     h \<leftarrow> tc_connectionHandler C;
     let (nReady, h1) = WaitForActivity e h;
     if nReady < 0 then Some (True, put_handler h1 C)
     else if nReady = 0 then Some (False, put_handler h1 C)
     else do {
       (C2, nLeft) \<leftarrow> RegisterNewConnectionsFromAcceptor L e (put_handler h1 C) nReady;
       C3 \<leftarrow> (if nLeft > 0 then ServiceExistingConnections L W e C2 nLeft else Some C2);
       Some (False, C3)
     }
   }"

text \<open>Where the worker stands; the handler is there while its thread runs.\<close>

definition handler_at :: "worker_point \<Rightarrow> ('l, 'e, 'c) TcpServerController \<Rightarrow> ('l, 'e, 'c) TcpServerController" where
  "handler_at pt C = C\<lparr>tc_connectionHandler := map_option (\<lambda>h. h\<lparr>th_thread := Worker pt\<rparr>) (tc_connectionHandler C)\<rparr>"

definition ClientHandlerIOLoop ::
  "('l, 'i, nat) List_ops \<Rightarrow> ('l, 'i, nat) List_walk \<Rightarrow> 'e io_env \<Rightarrow> ('l, 'e, 'c) TcpServerController
     \<Rightarrow> ('l, 'e, 'c) TcpServerController option" where
  "ClientHandlerIOLoop L W e C = do {
     h \<leftarrow> tc_connectionHandler C;
     (case th_thread h of
        Worker At_Test \<Rightarrow> Some (handler_at (if th_state h = HANDLER_STATE_RUNNING then In_Call else Returned) C)
      | Worker In_Call \<Rightarrow> do {
          (break, C1) \<leftarrow> handler_iteration L W e C;
          Some (handler_at (if break then Returned else At_Test) C1)
        }
      | _ \<Rightarrow> Some C)
   }"

section \<open>Life cycle of the handler\<close>

text \<open>Creating the handler also opens the wake-up pipe; \<^term>\<open>None\<close> for \<open>NULL\<close>.\<close>

definition TcpConnectionHandler_Create ::
  "('l, 'i, nat) List_ops \<Rightarrow> create_env \<Rightarrow> net \<Rightarrow> ('l TcpConnectionHandler option \<times> net) option" where
  "TcpConnectionHandler_Create L ce n =
     (case ListCreate L (ce_list ce) of
        None \<Rightarrow> Some (None, n)
      | Some db \<Rightarrow>
          if \<not> ce_handler ce then Some (None, n)
          else (case ce_pipe ce of
                  None \<Rightarrow> Some (None, n)
                | Some (rd, wr) \<Rightarrow>
                    if \<not> fd_set_index rd then None
                    else Some (Some \<lparr>th_thread = No_Thread, th_state = HANDLER_STATE_STOPPED, th_connectionsDB = db,
                                     th_maxFd = rd, th_activeFdSet = {rd}, th_activeFdSetCopy = {},
                                     th_wakeupPipe = (rd, wr), th_pipe = []\<rparr>,
                               open_fd wr (open_fd rd n))))"

definition TcpConnectionHandler_Start ::
  "bool \<Rightarrow> ('l, 'e, 'c) TcpServerController \<Rightarrow> TcpResult \<times> ('l, 'e, 'c) TcpServerController" where
  "TcpConnectionHandler_Start thread_ok C =
     (case tc_connectionHandler C of
        None \<Rightarrow> (TCP_RESULT_NULL_PTR, C)
      | Some h \<Rightarrow>
          if th_state h = HANDLER_STATE_RUNNING then (TCP_RESULT_SUCCESS, C)
          else if \<not> thread_ok
          then (TCP_RESULT_THREAD_CREATION_FAILED, put_handler (h\<lparr>th_state := HANDLER_STATE_STOPPED\<rparr>) C)
          else (TCP_RESULT_SUCCESS,
                put_handler (h\<lparr>th_state := HANDLER_STATE_RUNNING, th_thread := Worker At_Test\<rparr>) C))"

text \<open>
  \<open>pthread_join\<close> of the handler thread.  Its flag has been cleared, so it returns after the iteration it
  is in, if any: two steps of the loop function.  Joining without a thread, or twice, is undefined.
\<close>

definition join_handler ::
  "('l, 'i, nat) List_ops \<Rightarrow> ('l, 'i, nat) List_walk \<Rightarrow> 'e io_env \<Rightarrow> ('l, 'e, 'c) TcpServerController
     \<Rightarrow> ('l, 'e, 'c) TcpServerController option" where
  "join_handler L W e C = do {
     C1 \<leftarrow> ClientHandlerIOLoop L W e C;
     C2 \<leftarrow> ClientHandlerIOLoop L W e C1;
     h \<leftarrow> tc_connectionHandler C2;
     if th_thread h = Worker Returned then Some (put_handler (h\<lparr>th_thread := Joined\<rparr>) C2) else None
   }"

definition TcpConnectionHandler_Stop ::
  "('l, 'i, nat) List_ops \<Rightarrow> ('l, 'i, nat) List_walk \<Rightarrow> 'e io_env \<Rightarrow> ('l, 'e, 'c) TcpServerController
     \<Rightarrow> ('l, 'e, 'c) TcpServerController option" where
  "TcpConnectionHandler_Stop L W e C =
     (case tc_connectionHandler C of
        None \<Rightarrow> Some C
      | Some h \<Rightarrow>
          (let C1 = put_handler (h\<lparr>th_state := HANDLER_STATE_STOPPED\<rparr>) C
           in if th_state h \<noteq> HANDLER_STATE_RUNNING then Some C1
              else join_handler L W e
                     (put_handler (h\<lparr>th_state := HANDLER_STATE_STOPPED, th_pipe := th_pipe h @ [None]\<rparr>) C)))"

fun destroy_records :: "nat list \<Rightarrow> net \<Rightarrow> net option" where
  "destroy_records [] n = Some n"
| "destroy_records (p # ps) n = do { (_, n1) \<leftarrow> TcpConnectionRecord_Destroy (Some p) n; destroy_records ps n1 }"

definition TcpConnectionHandler_Destroy ::
  "('l, 'i, nat) List_ops \<Rightarrow> ('l, 'i, nat) List_walk \<Rightarrow> 'e io_env \<Rightarrow> ('l, 'e, 'c) TcpServerController
     \<Rightarrow> ('l, 'e, 'c) TcpServerController option" where
  "TcpConnectionHandler_Destroy L W e C =
     (case tc_connectionHandler C of
        None \<Rightarrow> Some C
      | Some _ \<Rightarrow> do {
          C1 \<leftarrow> TcpConnectionHandler_Stop L W e C;
          h \<leftarrow> tc_connectionHandler C1;
          n1 \<leftarrow> destroy_records (ListItems L (th_connectionsDB h)) (tc_net C1);
          n2 \<leftarrow> close_fd (fst (th_wakeupPipe h)) n1;
          n3 \<leftarrow> close_fd (snd (th_wakeupPipe h)) n2;
          Some (C1\<lparr>tc_connectionHandler := None, tc_net := n3\<rparr>)
        })"

section \<open>Handing a connection over\<close>

definition TcpConnectionHandler_AddConnection ::
  "int \<Rightarrow> ('l, 'e, 'c) TcpServerController \<Rightarrow> nat option \<Rightarrow> TcpResult \<times> ('l, 'e, 'c) TcpServerController" where
  "TcpConnectionHandler_AddConnection written C a_record =
     (case (tc_connectionHandler C, a_record) of
        (Some h, Some p) \<Rightarrow>
          if written = sizeof_pointer
          then (TCP_RESULT_SUCCESS, put_handler (h\<lparr>th_pipe := th_pipe h @ [Some p]\<rparr>) C)
          else (TCP_RESULT_SOCKET_ERROR, C)
      | _ \<Rightarrow> (TCP_RESULT_NULL_PTR, C))"

definition TcpServerController_ProcessConnection ::
  "int \<Rightarrow> ('l, 'e, 'c) TcpServerController \<Rightarrow> nat option \<Rightarrow> TcpResult \<times> ('l, 'e, 'c) TcpServerController" where
  "TcpServerController_ProcessConnection written C a_record =
     (if a_record = None then (TCP_RESULT_NULL_PTR, C)
      else (case TcpConnectionHandler_AddConnection written C a_record of
              (resultHandlerDb, C1) \<Rightarrow>
                if resultHandlerDb \<noteq> TCP_RESULT_SUCCESS then (resultHandlerDb, C1) else (TCP_RESULT_SUCCESS, C1)))"

section \<open>The acceptor\<close>

definition TcpServerController_GetPort :: "('l, 'e, 'c) TcpServerController \<Rightarrow> 16 word" where
  "TcpServerController_GetPort C = tc_port C"

definition TcpServerController_GetIp :: "('l, 'e, 'c) TcpServerController \<Rightarrow> 32 word" where
  "TcpServerController_GetIp C = tc_ip C"

definition TcpConnectionAcceptor_Create ::
  "create_env \<Rightarrow> ('l, 'e, 'c) TcpServerController \<Rightarrow> net \<Rightarrow> (TcpConnectionAcceptor option \<times> net) option" where
  "TcpConnectionAcceptor_Create ce a_tcpCtrl n =
     (if \<not> ce_acceptor ce then Some (None, n)
      else let fd = ce_socket ce
        in if fd < 0 then Some (None, n)
           else (let n1 = open_fd fd n
             in if \<not> ce_setsockopt ce then do { n2 \<leftarrow> close_fd fd n1; Some (None, n2) }
                else if \<not> ce_bind ce (TcpServerController_GetIp a_tcpCtrl) (htons (TcpServerController_GetPort a_tcpCtrl))
                then do { n2 \<leftarrow> close_fd fd n1; Some (None, n2) }
                else if \<not> ce_listen ce then do { n2 \<leftarrow> close_fd fd n1; Some (None, n2) }
                else Some (Some \<lparr>ta_thread = No_Thread, ta_listenFd = fd, ta_state = ACCEPTOR_STATE_STOPPED\<rparr>, n1)))"

text \<open>The part of the loop body after a successful \<open>accept\<close>.\<close>

definition accepted_connection ::
  "accept_env \<Rightarrow> int \<Rightarrow> 32 word \<Rightarrow> 16 word \<Rightarrow> ('l, 'e, 'c) TcpServerController \<Rightarrow> ('l, 'e, 'c) TcpServerController option" where
  "accepted_connection ae fd addr port C = do {
     let n = open_fd fd (tc_net C);
     (_, ipBuffer) \<leftarrow> network_convert_ip_n_to_p addr (Some (ae_ipBuffer ae));
     ip \<leftarrow> c_string_at ipBuffer 0;
     (record, n1) \<leftarrow> TcpConnectionRecord_Create (ae_mem ae) fd ip port n;
     (case record of
        None \<Rightarrow> do { n2 \<leftarrow> close_fd fd n1; Some (C\<lparr>tc_net := n2\<rparr>) }
      | Some p \<Rightarrow>
          (case TcpServerController_ProcessConnection (ae_written ae) (C\<lparr>tc_net := n1\<rparr>) record of
             (result, C1) \<Rightarrow>
               if result \<noteq> TCP_RESULT_SUCCESS
               then do { (_, n2) \<leftarrow> TcpConnectionRecord_Destroy record (tc_net C1); Some (C1\<lparr>tc_net := n2\<rparr>) }
               else Some C1))
   }"

definition acceptor_at :: "worker_point \<Rightarrow> ('l, 'e, 'c) TcpServerController \<Rightarrow> ('l, 'e, 'c) TcpServerController" where
  "acceptor_at pt C = C\<lparr>tc_connectionAcceptor := map_option (\<lambda>a. a\<lparr>ta_thread := Worker pt\<rparr>) (tc_connectionAcceptor C)\<rparr>"

text \<open>\<open>accept\<close> fails on a listening descriptor that has been closed.\<close>

definition TcpConnectionAcceptor_AcceptLoop ::
  "accept_env \<Rightarrow> ('l, 'e, 'c) TcpServerController \<Rightarrow> ('l, 'e, 'c) TcpServerController option" where
  "TcpConnectionAcceptor_AcceptLoop ae C = do {
     a \<leftarrow> tc_connectionAcceptor C;
     (case ta_thread a of
        Worker At_Test \<Rightarrow> Some (acceptor_at (if ta_state a = ACCEPTOR_STATE_RUNNING then In_Call else Returned) C)
      | Worker In_Call \<Rightarrow>
          (case (if ta_listenFd a \<in> net_fds (tc_net C) then ae_accept ae else None) of
             None \<Rightarrow> Some (acceptor_at (if ta_state a = ACCEPTOR_STATE_STOPPED then Returned else At_Test) C)
           | Some (fd, addr, port) \<Rightarrow> do {
               C1 \<leftarrow> accepted_connection ae fd addr port C;
               Some (acceptor_at At_Test C1)
             })
      | _ \<Rightarrow> Some C)
   }"

definition join_acceptor ::
  "accept_env \<Rightarrow> ('l, 'e, 'c) TcpServerController \<Rightarrow> ('l, 'e, 'c) TcpServerController option" where
  "join_acceptor ae C = do {
     C1 \<leftarrow> TcpConnectionAcceptor_AcceptLoop ae C;
     C2 \<leftarrow> TcpConnectionAcceptor_AcceptLoop ae C1;
     a \<leftarrow> tc_connectionAcceptor C2;
     if ta_thread a = Worker Returned then Some (put_acceptor (a\<lparr>ta_thread := Joined\<rparr>) C2) else None
   }"

definition TcpConnectionAcceptor_Stop ::
  "accept_env \<Rightarrow> ('l, 'e, 'c) TcpServerController \<Rightarrow> ('l, 'e, 'c) TcpServerController option" where
  "TcpConnectionAcceptor_Stop ae C =
     (case tc_connectionAcceptor C of
        None \<Rightarrow> Some C
      | Some a \<Rightarrow>
          (let C1 = put_acceptor (a\<lparr>ta_state := ACCEPTOR_STATE_STOPPED\<rparr>) C
           in if ta_state a \<noteq> ACCEPTOR_STATE_RUNNING then Some C1
              else do {
                C2 \<leftarrow> join_acceptor ae C1;
                n \<leftarrow> close_fd (ta_listenFd a) (tc_net C2);
                Some (C2\<lparr>tc_net := n\<rparr>)
              }))"

definition TcpConnectionAcceptor_Destroy ::
  "accept_env \<Rightarrow> ('l, 'e, 'c) TcpServerController \<Rightarrow> ('l, 'e, 'c) TcpServerController option" where
  "TcpConnectionAcceptor_Destroy ae C =
     (case tc_connectionAcceptor C of
        None \<Rightarrow> Some C
      | Some _ \<Rightarrow> do {
          C1 \<leftarrow> TcpConnectionAcceptor_Stop ae C;
          Some (C1\<lparr>tc_connectionAcceptor := None\<rparr>)
        })"

definition TcpConnectionAcceptor_Start ::
  "bool \<Rightarrow> ('l, 'e, 'c) TcpServerController \<Rightarrow> TcpResult \<times> ('l, 'e, 'c) TcpServerController" where
  "TcpConnectionAcceptor_Start thread_ok C =
     (case tc_connectionAcceptor C of
        None \<Rightarrow> (TCP_RESULT_NULL_PTR, C)
      | Some a \<Rightarrow>
          if ta_state a = ACCEPTOR_STATE_RUNNING then (TCP_RESULT_SUCCESS, C)
          else if \<not> thread_ok
          then (TCP_RESULT_THREAD_CREATION_FAILED, put_acceptor (a\<lparr>ta_state := ACCEPTOR_STATE_STOPPED\<rparr>) C)
          else (TCP_RESULT_SUCCESS,
                put_acceptor (a\<lparr>ta_state := ACCEPTOR_STATE_RUNNING, ta_thread := Worker At_Test\<rparr>) C))"

section \<open>The controller\<close>

text \<open>\<open>m_lock\<close> is not recursive: locking it again on the owner's thread would never return.\<close>

definition lock :: "('l, 'e, 'c) TcpServerController \<Rightarrow> ('l, 'e, 'c) TcpServerController option" where
  "lock C = (if tc_lock C then None else Some (C\<lparr>tc_lock := True\<rparr>))"

definition unlock :: "('l, 'e, 'c) TcpServerController \<Rightarrow> ('l, 'e, 'c) TcpServerController" where
  "unlock C = C\<lparr>tc_lock := False\<rparr>"

definition StopUnlocked ::
  "('l, 'i, nat) List_ops \<Rightarrow> ('l, 'i, nat) List_walk \<Rightarrow> accept_env \<Rightarrow> 'e io_env
     \<Rightarrow> ('l, 'e, 'c) TcpServerController \<Rightarrow> ('l, 'e, 'c) TcpServerController option" where
  "StopUnlocked L W ae e C =
     (if tc_state C = SERVER_STATE_STOPPED then Some C
      else do {
        C1 \<leftarrow> TcpConnectionAcceptor_Stop ae C;
        C2 \<leftarrow> TcpConnectionHandler_Stop L W e C1;
        Some (C2\<lparr>tc_state := SERVER_STATE_STOPPED\<rparr>)
      })"

definition TcpServerController_Stop ::
  "('l, 'i, nat) List_ops \<Rightarrow> ('l, 'i, nat) List_walk \<Rightarrow> accept_env \<Rightarrow> 'e io_env
     \<Rightarrow> ('l, 'e, 'c) TcpServerController option \<Rightarrow> ('l, 'e, 'c) TcpServerController option option" where
  "TcpServerController_Stop L W ae e a_ctrl =
     (case a_ctrl of
        None \<Rightarrow> Some None
      | Some C \<Rightarrow> do {
          C1 \<leftarrow> lock C;
          if tc_state C1 = SERVER_STATE_STOPPED then Some (Some (unlock C1))
          else do { C2 \<leftarrow> StopUnlocked L W ae e C1; Some (Some (unlock C2)) }
        })"

text \<open>
  The controller is a valid pointer here, as in its callers.  The result is the freed controller, with the callback
  context and the descriptors and records that were not released.
\<close>

definition TcpServerController_Destroy ::
  "('l, 'i, nat) List_ops \<Rightarrow> ('l, 'i, nat) List_walk \<Rightarrow> accept_env \<Rightarrow> 'e io_env
     \<Rightarrow> ('l, 'e, 'c) TcpServerController \<Rightarrow> ('l, 'e, 'c) TcpServerController option" where
  "TcpServerController_Destroy L W ae e C = do {
     C1 \<leftarrow> lock C;
     C2 \<leftarrow> StopUnlocked L W ae e C1;
     C3 \<leftarrow> TcpConnectionAcceptor_Destroy ae C2;
     C4 \<leftarrow> TcpConnectionHandler_Destroy L W e C3;
     Some (unlock C4)
   }"

text \<open>The result of \<open>TcpServerController_Create\<close>: \<open>Inl\<close> for \<open>NULL\<close>, with what was left open.\<close>

definition TcpServerController_Create ::
  "('l, 'i, nat) List_ops \<Rightarrow> ('l, 'i, nat) List_walk \<Rightarrow> create_env \<Rightarrow> accept_env \<Rightarrow> 'e io_env \<Rightarrow> 'c
     \<Rightarrow> string \<Rightarrow> string \<Rightarrow> 16 word \<Rightarrow> net \<Rightarrow> (net + ('l, 'e, 'c) TcpServerController) option" where
  "TcpServerController_Create L W ce ae e null_context a_name a_ip a_port n =
     (if \<not> ce_controller ce then Some (Inl n)
      else (case networkCopyString (ce_name ce) a_name of
              None \<Rightarrow> Some (Inl n)
            | Some name \<Rightarrow>
                let C = \<lparr>tc_name = name, tc_connectionAcceptor = None, tc_connectionHandler = None,
                         tc_ip = network_convert_ip_p_to_n (Some a_ip), tc_port = a_port,
                         tc_state = SERVER_STATE_STOPPED, tc_lock = False, tc_callbackContext = null_context,
                         tc_callbackNewConnection = None, tc_callbackDisconnect = None,
                         tc_callbackMessageReceived = None, tc_net = n\<rparr>
                in if \<not> ce_mutex ce then Some (Inl n)
                   else do {
                     (acceptor, n1) \<leftarrow> TcpConnectionAcceptor_Create ce C n;
                     (handler, n2) \<leftarrow> TcpConnectionHandler_Create L ce n1;
                     let C1 = C\<lparr>tc_connectionAcceptor := acceptor, tc_connectionHandler := handler, tc_net := n2\<rparr>;
                     if acceptor = None \<or> handler = None
                     then do { C2 \<leftarrow> TcpServerController_Destroy L W ae e C1; Some (Inl (tc_net C2)) }
                     else Some (Inr C1)
                   }))"

definition TcpServerController_Start ::
  "('l, 'i, nat) List_ops \<Rightarrow> ('l, 'i, nat) List_walk \<Rightarrow> bool \<Rightarrow> bool \<Rightarrow> accept_env \<Rightarrow> 'e io_env
     \<Rightarrow> ('l, 'e, 'c) TcpServerController option \<Rightarrow> (TcpResult \<times> ('l, 'e, 'c) TcpServerController option) option" where
  "TcpServerController_Start L W acceptor_thread handler_thread ae e a_ctrl =
     (case a_ctrl of
        None \<Rightarrow> Some (TCP_RESULT_NULL_PTR, None)
      | Some C \<Rightarrow> do {
          C1 \<leftarrow> lock C;
          if tc_state C1 = SERVER_STATE_RUNNING then Some (TCP_RESULT_SUCCESS, Some (unlock C1))
          else
            let (r1, C2) = TcpConnectionAcceptor_Start acceptor_thread C1;
                (r2, C3) = (if r1 \<noteq> TCP_RESULT_SUCCESS then (r1, C2) else TcpConnectionHandler_Start handler_thread C2)
            in if r1 \<noteq> TCP_RESULT_SUCCESS \<or> r2 \<noteq> TCP_RESULT_SUCCESS
               then do {
                 C4 \<leftarrow> TcpConnectionAcceptor_Stop ae C3;
                 C5 \<leftarrow> TcpConnectionHandler_Stop L W e C4;
                 Some (TCP_RESULT_THREAD_CREATION_FAILED, Some (unlock C5))
               }
               else Some (TCP_RESULT_SUCCESS, Some (unlock (C3\<lparr>tc_state := SERVER_STATE_RUNNING\<rparr>)))
        })"

definition TcpServerController_SetCallbacks ::
  "('l, 'e, 'c) TcpServerController option \<Rightarrow> 'c \<Rightarrow> ('e, 'c) record_callback option \<Rightarrow> ('e, 'c) record_callback option
     \<Rightarrow> ('e, 'c) message_callback option \<Rightarrow> (TcpResult \<times> ('l, 'e, 'c) TcpServerController option) option" where
  "TcpServerController_SetCallbacks a_controller a_context a_callbackNewConnection a_callbackDisconnect a_callbackMessageReceived =
     (case a_controller of
        None \<Rightarrow> Some (TCP_RESULT_NULL_PTR, None)
      | Some C \<Rightarrow> do {
          C1 \<leftarrow> lock C;
          if tc_state C1 = SERVER_STATE_RUNNING then Some (TCP_RESULT_INVALID_ARGUMENT, Some (unlock C1))
          else Some (TCP_RESULT_SUCCESS,
                 Some (unlock (C1\<lparr>tc_callbackContext := a_context, tc_callbackNewConnection := a_callbackNewConnection,
                                   tc_callbackDisconnect := a_callbackDisconnect,
                                   tc_callbackMessageReceived := a_callbackMessageReceived\<rparr>)))
        })"

definition TcpServerController_SendMessage ::
  "(int \<Rightarrow> string \<Rightarrow> int) \<Rightarrow> ('l, 'e, 'c) TcpServerController option \<Rightarrow> int \<Rightarrow> string option \<Rightarrow> nat
     \<Rightarrow> (TcpResult \<times> (int \<times> string) list) option" where
  "TcpServerController_SendMessage send_result a_controller a_fd a_message a_length =
     (case (a_controller, a_message) of
        (Some C, Some msg) \<Rightarrow>
          if a_length = 0 \<or> a_fd < 0 then Some (TCP_RESULT_INVALID_ARGUMENT, [])
          else do {
            bytes \<leftarrow> mem_read msg 0 a_length;
            if send_result a_fd bytes < 0 then Some (TCP_RESULT_SOCKET_ERROR, [(a_fd, bytes)])
            else Some (TCP_RESULT_SUCCESS, [(a_fd, bytes)])
          }
      | _ \<Rightarrow> Some (TCP_RESULT_NULL_PTR, []))"

definition TcpServerController_Display :: "('l, 'e, 'c) TcpServerController option \<Rightarrow> TcpResult" where
  "TcpServerController_Display a_ctrl = (if a_ctrl = None then TCP_RESULT_NULL_PTR else TCP_RESULT_SUCCESS)"

end
