(* ===== verification/Tcp_Invariant.thy ===== *)
theory Tcp_Invariant
  imports Tcp_Server
begin

text \<open>
  The invariant of the TCP layer and what its client, the owner of the callbacks, can rely on.

  \<open>conn_inv\<close> says of the connection records and descriptors: every pointer in the handler's list and in
  the pipe is a live record, no two records share a descriptor, every record's descriptor is open,
  and the \<open>fd_set\<close> holds only the pipe and registered connections.  With \<open>exact\<close> (no list node
  allocation fails) no record is lost.

  The locale \<open>tcp_client\<close> is the contract between the layer and its callbacks: an invariant \<open>I\<close> of
  the callback context that may speak about the set of registered descriptors.  \<open>tot\<close> says whether
  the callbacks always return; when they do, no step of the layer has an undefined result.
\<close>

section \<open>Results that satisfy a predicate\<close>

definition outcome :: "bool \<Rightarrow> 'a option \<Rightarrow> ('a \<Rightarrow> bool) \<Rightarrow> bool" where
  "outcome tot r P \<longleftrightarrow> (case r of None \<Rightarrow> \<not> tot | Some x \<Rightarrow> P x)"

lemma outcome_Some [simp]: "outcome tot (Some x) P \<longleftrightarrow> P x"
  and outcome_None [simp]: "outcome tot None P \<longleftrightarrow> \<not> tot"
  by (simp_all add: outcome_def)

lemma outcome_bind:
  "outcome tot r P \<Longrightarrow> (\<And>x. r = Some x \<Longrightarrow> P x \<Longrightarrow> outcome tot (f x) Q) \<Longrightarrow> outcome tot (Option.bind r f) Q"
  by (cases r) simp_all

lemma outcome_mono: "outcome tot r P \<Longrightarrow> (\<And>x. P x \<Longrightarrow> Q x) \<Longrightarrow> outcome tot r Q"
  by (cases r) simp_all

lemma outcomeD: "outcome tot r P \<Longrightarrow> r = Some x \<Longrightarrow> P x"
  by simp

section \<open>Records and descriptors\<close>

definition fd_of :: "net \<Rightarrow> nat \<Rightarrow> int option" where
  "fd_of n p = map_option m_fdConnection (net_heap n p)"

text \<open>\<open>reserved\<close> holds the open descriptors that belong to no connection: nothing but these and the connections is open.\<close>

definition net_ok :: "int set \<Rightarrow> net \<Rightarrow> bool" where
  "net_ok reserved n \<longleftrightarrow>
     (\<forall>p \<in> dom (net_heap n). p < net_next n)
   \<and> (\<forall>p fd. fd_of n p = Some fd \<longrightarrow> 0 \<le> fd \<and> fd \<in> net_fds n \<and> fd \<notin> reserved)
   \<and> (\<forall>p q fd. fd_of n p = Some fd \<longrightarrow> fd_of n q = Some fd \<longrightarrow> p = q)
   \<and> reserved \<subseteq> net_fds n
   \<and> net_fds n \<subseteq> reserved \<union> {fd. \<exists>p. fd_of n p = Some fd}"

definition piped :: "'l TcpConnectionHandler \<Rightarrow> nat list" where
  "piped h = concat (map (\<lambda>x. case x of None \<Rightarrow> [] | Some p \<Rightarrow> [p]) (th_pipe h))"

abbreviation listed :: "('l, 'i, nat) List_ops \<Rightarrow> 'l TcpConnectionHandler \<Rightarrow> nat list" where
  "listed L h \<equiv> ListItems L (th_connectionsDB h)"

definition registered :: "'l TcpConnectionHandler \<Rightarrow> int set" where
  "registered h = th_activeFdSet h - {fst (th_wakeupPipe h)}"

definition handler_ok :: "bool \<Rightarrow> ('l, 'i, nat) List_ops \<Rightarrow> net \<Rightarrow> 'l TcpConnectionHandler \<Rightarrow> bool" where
  "handler_ok exact L n h \<longleftrightarrow>
     ListOk L (th_connectionsDB h)
   \<and> distinct (listed L h @ piped h)
   \<and> set (listed L h @ piped h) \<subseteq> dom (net_heap n)
   \<and> (\<forall>p \<in> set (listed L h). \<forall>fd. fd_of n p = Some fd \<longrightarrow> fd < FD_SETSIZE \<and> fd \<in> registered h \<and> fd \<le> th_maxFd h)
   \<and> (\<forall>fd \<in> registered h. \<exists>p. fd_of n p = Some fd \<and> p \<notin> set (piped h))
   \<and> fst (th_wakeupPipe h) \<in> th_activeFdSet h
   \<and> (exact \<longrightarrow> dom (net_heap n) \<subseteq> set (listed L h @ piped h))"

definition reserved :: "('l, 'e, 'c) TcpServerController \<Rightarrow> int set" where
  "reserved C =
     (case tc_connectionHandler C of None \<Rightarrow> {} | Some h \<Rightarrow> {fst (th_wakeupPipe h), snd (th_wakeupPipe h)})
   \<union> (case tc_connectionAcceptor C of None \<Rightarrow> {} | Some a \<Rightarrow> if ta_thread a = Joined then {} else {ta_listenFd a})"

definition conn_inv ::
  "int set \<Rightarrow> bool \<Rightarrow> ('l, 'i, nat) List_ops \<Rightarrow> ('c \<Rightarrow> int set \<Rightarrow> bool) \<Rightarrow> ('l, 'e, 'c) TcpServerController \<Rightarrow> bool" where
  "conn_inv base exact L I C \<longleftrightarrow>
     (\<exists>h. tc_connectionHandler C = Some h \<and> net_ok (base \<union> reserved C) (tc_net C) \<and> handler_ok exact L (tc_net C) h
        \<and> I (tc_callbackContext C) (registered h))"

text \<open>What a step of the handler thread does not touch.\<close>

definition handler_frame :: "('l, 'e, 'c) TcpServerController \<Rightarrow> ('l, 'e, 'c) TcpServerController \<Rightarrow> bool" where
  "handler_frame C C' \<longleftrightarrow>
     (\<exists>h h'. tc_connectionHandler C = Some h \<and> tc_connectionHandler C' = Some h'
        \<and> th_thread h' = th_thread h \<and> th_state h' = th_state h \<and> th_wakeupPipe h' = th_wakeupPipe h)
   \<and> tc_name C' = tc_name C \<and> tc_connectionAcceptor C' = tc_connectionAcceptor C \<and> tc_ip C' = tc_ip C \<and> tc_port C' = tc_port C
   \<and> tc_state C' = tc_state C \<and> tc_lock C' = tc_lock C
   \<and> tc_callbackNewConnection C' = tc_callbackNewConnection C \<and> tc_callbackDisconnect C' = tc_callbackDisconnect C
   \<and> tc_callbackMessageReceived C' = tc_callbackMessageReceived C
   \<and> net_fds (tc_net C') \<subseteq> net_fds (tc_net C)"

lemma handler_frame_trans: "handler_frame A B \<Longrightarrow> handler_frame B C \<Longrightarrow> handler_frame A C"
  by (auto simp: handler_frame_def)

lemma handler_frame_refl: "tc_connectionHandler C = Some h \<Longrightarrow> handler_frame C C"
  by (simp add: handler_frame_def)

lemma handler_frame_reserved: "handler_frame C C' \<Longrightarrow> reserved C' = reserved C"
  by (auto simp: handler_frame_def reserved_def)

lemma fd_of_simps [simp]:
  "fd_of (n\<lparr>net_fds := F\<rparr>) = fd_of n" "fd_of (n\<lparr>net_next := k\<rparr>) = fd_of n"
  "fd_of (n\<lparr>net_heap := (net_heap n)(p := r)\<rparr>) = (fd_of n)(p := map_option m_fdConnection r)"
  "fd_of (n\<lparr>net_heap := m, net_fds := F\<rparr>) = fd_of (n\<lparr>net_heap := m\<rparr>)"
  by (auto simp: fd_of_def)

lemma fd_of_Some: "fd_of n p = Some fd \<longleftrightarrow> (\<exists>rec. net_heap n p = Some rec \<and> m_fdConnection rec = fd)"
  by (auto simp: fd_of_def)

lemma piped_simps [simp]:
  "piped (h\<lparr>th_thread := t\<rparr>) = piped h" "piped (h\<lparr>th_state := s\<rparr>) = piped h" "piped (h\<lparr>th_connectionsDB := d\<rparr>) = piped h"
  "piped (h\<lparr>th_activeFdSet := A\<rparr>) = piped h" "piped (h\<lparr>th_activeFdSetCopy := A\<rparr>) = piped h" "piped (h\<lparr>th_maxFd := m\<rparr>) = piped h"
  "piped (h\<lparr>th_pipe := xs @ [None]\<rparr>) = piped (h\<lparr>th_pipe := xs\<rparr>)"
  "piped (h\<lparr>th_pipe := xs @ [Some p]\<rparr>) = piped (h\<lparr>th_pipe := xs\<rparr>) @ [p]"
  "piped (h\<lparr>th_pipe := th_pipe h\<rparr>) = piped h"
  by (simp_all add: piped_def)

lemma handler_ok_cong [simp]:
  "handler_ok exact L n (h\<lparr>th_thread := t\<rparr>) = handler_ok exact L n h"
  "handler_ok exact L n (h\<lparr>th_state := s\<rparr>) = handler_ok exact L n h"
  "handler_ok exact L n (h\<lparr>th_activeFdSetCopy := A\<rparr>) = handler_ok exact L n h"
  by (simp_all add: handler_ok_def registered_def)

lemma registered_simps [simp]:
  "registered (h\<lparr>th_thread := t\<rparr>) = registered h" "registered (h\<lparr>th_state := s\<rparr>) = registered h"
  "registered (h\<lparr>th_activeFdSetCopy := A\<rparr>) = registered h" "registered (h\<lparr>th_pipe := ps\<rparr>) = registered h"
  "registered (h\<lparr>th_connectionsDB := d\<rparr>) = registered h" "registered (h\<lparr>th_maxFd := m\<rparr>) = registered h"
  by (simp_all add: registered_def)

lemma reserved_put_handler [simp]:
  "tc_connectionHandler C = Some h \<Longrightarrow> th_wakeupPipe h' = th_wakeupPipe h \<Longrightarrow> reserved (put_handler h' C) = reserved C"
  by (simp add: reserved_def)

lemma reserved_simps [simp]:
  "reserved (C\<lparr>tc_net := n\<rparr>) = reserved C" "reserved (C\<lparr>tc_callbackContext := c\<rparr>) = reserved C"
  "reserved (C\<lparr>tc_lock := b\<rparr>) = reserved C" "reserved (C\<lparr>tc_state := s\<rparr>) = reserved C"
  by (simp_all add: reserved_def)

section \<open>Registering and dropping a record\<close>

text \<open>A record leaves the heap and its descriptor is closed.\<close>

lemma net_ok_drop:
  assumes "net_ok R n" and "fd_of n p = Some fd"
  shows "net_ok R (n\<lparr>net_heap := (net_heap n)(p := None), net_fds := net_fds n - {fd}\<rparr>)"
proof -
  have "\<exists>q. ((fd_of n)(p := None)) q = Some x" if "x \<in> net_fds n" "x \<noteq> fd" "x \<notin> R" for x
  proof -
    obtain q where "fd_of n q = Some x" using assms(1) \<open>x \<in> net_fds n\<close> \<open>x \<notin> R\<close> by (auto simp: net_ok_def)
    with assms(2) \<open>x \<noteq> fd\<close> show ?thesis by (intro exI [of _ q]) auto
  qed
  then have "net_fds n - {fd} \<subseteq> R \<union> {x. \<exists>q. ((fd_of n)(p := None)) q = Some x}" by blast
  with assms show ?thesis unfolding net_ok_def by (simp del: fun_upd_apply) auto
qed

lemma destroy_record:
  assumes "net_ok R n" and "fd_of n p = Some fd"
  shows "TcpConnectionRecord_Destroy (Some p) n =
    Some (None, n\<lparr>net_heap := (net_heap n)(p := None), net_fds := net_fds n - {fd}\<rparr>)"
proof -
  obtain rec where rec: "net_heap n p = Some rec" "m_fdConnection rec = fd" using assms(2) by (auto simp: fd_of_Some)
  then show ?thesis using assms record_destroy [OF rec(1)] by (auto simp: net_ok_def)
qed

text \<open>A record that is neither listed nor in the pipe any more may go, its descriptor unregistered.\<close>

lemma handler_ok_drop:
  assumes ok: "handler_ok exact' L n h" and net: "net_ok R n" and fd: "fd_of n p = Some fd"
    and notin: "p \<notin> set (listed L h @ piped h)" and dom: "exact \<longrightarrow> dom (net_heap n) \<subseteq> insert p (set (listed L h @ piped h))"
    and pipe: "fd \<noteq> fst (th_wakeupPipe h)"
  shows "handler_ok exact L (n\<lparr>net_heap := (net_heap n)(p := None), net_fds := net_fds n - {fd}\<rparr>)
    (h\<lparr>th_activeFdSet := th_activeFdSet h - {fd}\<rparr>)"
proof -
  have uniq: "q = p" if "fd_of n q = Some fd" for q using net fd that by (auto simp: net_ok_def)
  have reg: "registered (h\<lparr>th_activeFdSet := th_activeFdSet h - {fd}\<rparr>) = registered h - {fd}"
    by (auto simp: registered_def)
  have "\<exists>q. fd_of n q = Some f \<and> q \<noteq> p \<and> q \<notin> set (piped h)" if "f \<in> registered h - {fd}" for f
    using that ok fd by (fastforce simp: handler_ok_def)
  then show ?thesis using ok notin dom pipe uniq unfolding handler_ok_def reg
    by (auto simp: fd_of_def)
qed

text \<open>A record that was taken from the pipe enters the list and its descriptor the \<open>fd_set\<close>.\<close>

lemma handler_ok_push:
  assumes ok: "handler_ok False L n h" and fd: "fd_of n p = Some fd" "fd < FD_SETSIZE" "fd \<noteq> fst (th_wakeupPipe h)"
    and notin: "p \<notin> set (listed L h @ piped h)" and dom: "exact \<longrightarrow> dom (net_heap n) \<subseteq> insert p (set (listed L h @ piped h))"
    and d: "ListOk L d" "ListItems L d = listed L h @ (if b then [p] else [])" and b: "exact \<longrightarrow> b"
  shows "handler_ok exact L n (h\<lparr>th_connectionsDB := d, th_activeFdSet := insert fd (th_activeFdSet h), th_maxFd := max (th_maxFd h) fd\<rparr>)"
    (is "handler_ok exact L n ?h")
proof -
  have reg: "registered ?h = insert fd (registered h)" using fd(3) by (auto simp: registered_def)
  have dom_p: "p \<in> dom (net_heap n)" using fd(1) by (auto simp: fd_of_def)
  have h: "distinct (listed L h @ piped h)" "set (listed L h @ piped h) \<subseteq> dom (net_heap n)"
      "\<forall>p \<in> set (listed L h). \<forall>fd. fd_of n p = Some fd \<longrightarrow> fd < FD_SETSIZE \<and> fd \<in> registered h \<and> fd \<le> th_maxFd h"
      "\<forall>fd \<in> registered h. \<exists>p. fd_of n p = Some fd \<and> p \<notin> set (piped h)" "fst (th_wakeupPipe h) \<in> th_activeFdSet h"
    using ok by (simp_all add: handler_ok_def)
  have "distinct (ListItems L d @ piped h)" "set (ListItems L d @ piped h) \<subseteq> dom (net_heap n)"
    using h(1,2) notin dom_p d(2) by auto
  moreover have "\<forall>q \<in> set (ListItems L d). \<forall>f. fd_of n q = Some f \<longrightarrow> f < FD_SETSIZE \<and> f \<in> registered ?h \<and> f \<le> max (th_maxFd h) fd"
  proof (intro ballI allI impI)
    fix q f assume q: "q \<in> set (ListItems L d)" "fd_of n q = Some f"
    show "f < FD_SETSIZE \<and> f \<in> registered ?h \<and> f \<le> max (th_maxFd h) fd"
    proof (cases "q \<in> set (listed L h)")
      case True
      then show ?thesis using h(3) q(2) unfolding reg by fastforce
    next
      case False
      then have "q = p" using q(1) d(2) by (auto split: if_splits)
      then show ?thesis using q(2) fd unfolding reg by simp
    qed
  qed
  moreover have "\<forall>f \<in> registered ?h. \<exists>q. fd_of n q = Some f \<and> q \<notin> set (piped h)"
    using h(4) fd(1) notin unfolding reg by auto
  moreover have "exact \<longrightarrow> dom (net_heap n) \<subseteq> set (ListItems L d @ piped h)" using dom b d(2) by auto
  ultimately show ?thesis using d(1) h(5) by (simp add: handler_ok_def)
qed

section \<open>The contract with the callbacks\<close>

definition callbacks_set ::
  "('e, 'c) record_callback \<Rightarrow> ('e, 'c) record_callback \<Rightarrow> ('e, 'c) message_callback \<Rightarrow> ('l, 'e, 'c) TcpServerController \<Rightarrow> bool" where
  "callbacks_set onNew onDisc onMsg C \<longleftrightarrow>
     tc_callbackNewConnection C = Some onNew \<and> tc_callbackDisconnect C = Some onDisc \<and> tc_callbackMessageReceived C = Some onMsg"

text \<open>\<open>recv\<close> returns at most the size of the buffer.\<close>

definition io_ok :: "bool \<Rightarrow> ('e \<Rightarrow> bool) \<Rightarrow> 'e io_env \<Rightarrow> bool" where
  "io_ok exact env e \<longleftrightarrow>
     (\<forall>fd. fst (io_recv e fd) \<le> int (length (snd (io_recv e fd))) \<and> env (io_callback e fd)) \<and> (exact \<longrightarrow> io_node e)"

locale tcp_client = dlist_walk L W
  for L :: "('l, 'i, nat) List_ops" and W :: "('l, 'i, nat) List_walk" +
  fixes onNew onDisc :: "('e, 'c) record_callback" and onMsg :: "('e, 'c) message_callback"
    and I :: "'c \<Rightarrow> int set \<Rightarrow> bool" and env :: "'e \<Rightarrow> bool" and tot exact :: bool and base :: "int set"
  assumes new_cb: "I c F \<Longrightarrow> env e \<Longrightarrow> m_fdConnection rec \<notin> F \<Longrightarrow>
        outcome tot (onNew e c rec) (\<lambda>c'. I c' (insert (m_fdConnection rec) F))"
    and msg_cb: "I c F \<Longrightarrow> env e \<Longrightarrow> m_fdConnection rec \<in> F \<Longrightarrow> 0 < n \<Longrightarrow> n \<le> length buf \<Longrightarrow>
        outcome tot (onMsg e c rec buf n) (\<lambda>c'. I c' F)"
    and disc_cb: "I c F \<Longrightarrow> env e \<Longrightarrow> m_fdConnection rec \<in> F \<or> FD_SETSIZE \<le> m_fdConnection rec \<Longrightarrow>
        outcome tot (onDisc e c rec) (\<lambda>c'. I c' (F - {m_fdConnection rec}))"
begin

abbreviation inv :: "('l, 'e, 'c) TcpServerController \<Rightarrow> bool" where
  "inv C \<equiv> conn_inv base exact L I C \<and> callbacks_set onNew onDisc onMsg C"

lemma process_disconnect:
  assumes "callbacks_set onNew onDisc onMsg C" and "tc_connectionHandler C = Some h" and "net_ok (base \<union> reserved C) (tc_net C)"
    and "fd_of (tc_net C) p = Some fd" and "I (tc_callbackContext C) F" and "registered h = F - {fd}"
    and "fd \<in> F \<or> FD_SETSIZE \<le> fd" and "env e"
    and "handler_ok exact L ((tc_net C)\<lparr>net_heap := (net_heap (tc_net C))(p := None), net_fds := net_fds (tc_net C) - {fd}\<rparr>) h"
  shows "outcome tot (TcpServerController_ProcessDisconnect e C (Some p))
    (\<lambda>(r, C'). inv C' \<and> handler_frame C C' \<and> tc_connectionHandler C' = Some h)"
proof -
  obtain rec where rec: "net_heap (tc_net C) p = Some rec" "m_fdConnection rec = fd" using assms(4) by (auto simp: fd_of_Some)
  have cb: "tc_callbackDisconnect C = Some onDisc" using assms(1) by (simp add: callbacks_set_def)
  have "outcome tot (onDisc e (tc_callbackContext C) rec) (\<lambda>c'. I c' (registered h))"
    using disc_cb [OF assms(5,8), of rec] assms(6,7) rec(2) by simp
  then show ?thesis using rec cb destroy_record [OF assms(3,4)] net_ok_drop [OF assms(3,4)] assms(1,2,9)
    unfolding TcpServerController_ProcessDisconnect_def
    by (auto simp: conn_inv_def callbacks_set_def handler_frame_def outcome_def split: option.splits bind_splits)
qed

lemma notify_new:
  assumes "callbacks_set onNew onDisc onMsg C" and "tc_connectionHandler C = Some h" and "net_ok (base \<union> reserved C) (tc_net C)"
    and "handler_ok exact L (tc_net C) h" and "fd_of (tc_net C) p = Some fd" and "I (tc_callbackContext C) F"
    and "registered h = insert fd F" and "fd \<notin> F" and "env e"
  shows "outcome tot (TcpServerController_NotifyNewConnection e C (Some p)) (\<lambda>C'. inv C' \<and> handler_frame C C')"
proof -
  obtain rec where rec: "net_heap (tc_net C) p = Some rec" "m_fdConnection rec = fd" using assms(5) by (auto simp: fd_of_Some)
  have "outcome tot (onNew e (tc_callbackContext C) rec) (\<lambda>c'. I c' (registered h))"
    using new_cb [OF assms(6,9), of rec] assms(7,8) rec(2) by simp
  then show ?thesis using rec assms(1-4)
    by (auto simp: TcpServerController_NotifyNewConnection_def conn_inv_def callbacks_set_def handler_frame_def
        outcome_def split: option.splits bind_splits)
qed

lemma process_message:
  assumes "inv C" and "tc_connectionHandler C = Some h" and "p \<in> set (listed L h)" and "env e" and "0 < n" and "n \<le> length buf"
  shows "outcome tot (TcpServerController_ProcessMessage e C (Some p) (Some buf) n)
    (\<lambda>(r, C'). inv C' \<and> handler_frame C C' \<and> tc_connectionHandler C' = Some h)"
proof -
  have h: "handler_ok exact L (tc_net C) h" "I (tc_callbackContext C) (registered h)" and cb: "tc_callbackMessageReceived C = Some onMsg"
    using assms(1,2) by (auto simp: conn_inv_def callbacks_set_def)
  have "p \<in> dom (net_heap (tc_net C))" using h(1) assms(3) by (auto simp: handler_ok_def)
  then obtain rec where rec: "net_heap (tc_net C) p = Some rec" by auto
  then have "fd_of (tc_net C) p = Some (m_fdConnection rec)" by (simp add: fd_of_def)
  then have "m_fdConnection rec \<in> registered h" using h(1) assms(3) by (simp add: handler_ok_def)
  from msg_cb [OF h(2) assms(4) this assms(5,6)]
  have "outcome tot (onMsg e (tc_callbackContext C) rec buf n) (\<lambda>c'. I c' (registered h))" .
  then show ?thesis using rec cb assms(1,2,5)
    by (auto simp: TcpServerController_ProcessMessage_def conn_inv_def callbacks_set_def handler_frame_def
        outcome_def split: option.splits bind_splits)
qed

lemma piped_Cons:
  "th_pipe h = None # rest \<Longrightarrow> piped h = piped (h\<lparr>th_pipe := rest\<rparr>)"
  "th_pipe h = Some p # rest \<Longrightarrow> piped h = p # piped (h\<lparr>th_pipe := rest\<rparr>)"
  by (simp_all add: piped_def)

text \<open>A record taken from the pipe belongs to no list any more and its descriptor is not registered.\<close>

lemma taken_from_pipe:
  assumes "handler_ok exact L n h" and "net_ok R n" and "fst (th_wakeupPipe h) \<in> R" and "th_pipe h = Some p # rest"
  obtains fd where "fd_of n p = Some fd" and "0 \<le> fd" and "fd \<notin> registered h" and "fd \<notin> th_activeFdSet h"
    and "fd \<noteq> fst (th_wakeupPipe h)" and "p \<notin> set (listed L h @ piped (h\<lparr>th_pipe := rest\<rparr>))"
    and "handler_ok False L n (h\<lparr>th_pipe := rest\<rparr>)"
    and "exact \<longrightarrow> dom (net_heap n) \<subseteq> insert p (set (listed L h @ piped (h\<lparr>th_pipe := rest\<rparr>)))"
proof -
  have pip: "piped h = p # piped (h\<lparr>th_pipe := rest\<rparr>)" by (rule piped_Cons(2) [OF assms(4)])
  have "p \<in> dom (net_heap n)" using assms(1) by (auto simp: handler_ok_def pip)
  then obtain fd where fd: "fd_of n p = Some fd" by (auto simp: fd_of_def)
  have uniq: "q = p" if "fd_of n q = Some fd" for q using assms(2) fd that unfolding net_ok_def by blast
  have nreg: "fd \<notin> registered h"
  proof
    assume "fd \<in> registered h"
    then obtain q where "fd_of n q = Some fd" "q \<notin> set (piped h)" using assms(1) by (auto simp: handler_ok_def)
    with uniq pip show False by simp
  qed
  have r: "0 \<le> fd" "fd \<noteq> fst (th_wakeupPipe h)" using assms(2,3) fd by (auto simp: net_ok_def)
  show ?thesis
  proof (rule that [OF fd r(1) nreg _ r(2)])
    show "fd \<notin> th_activeFdSet h" using nreg r(2) by (simp add: registered_def)
    show "p \<notin> set (listed L h @ piped (h\<lparr>th_pipe := rest\<rparr>))" using assms(1) by (auto simp: handler_ok_def pip)
    show "handler_ok False L n (h\<lparr>th_pipe := rest\<rparr>)" using assms(1) unfolding handler_ok_def pip by auto
    show "exact \<longrightarrow> dom (net_heap n) \<subseteq> insert p (set (listed L h @ piped (h\<lparr>th_pipe := rest\<rparr>)))"
      using assms(1) by (auto simp: handler_ok_def pip)
  qed
qed

text \<open>A record is taken from the pipe: a descriptor too large for the sets is closed again, any other is registered.\<close>

lemma process_piped_record:
  assumes "inv C" and "io_ok exact env e" and "io_read e" and hd: "tc_connectionHandler C = Some h" and Cons: "th_pipe h = Some p # rest"
  shows "outcome tot (ProcessNewConnection L e C) (\<lambda>C'. inv C' \<and> handler_frame C C')"
proof -
  have h: "net_ok (base \<union> reserved C) (tc_net C)" "handler_ok exact L (tc_net C) h" "I (tc_callbackContext C) (registered h)"
    and cb: "callbacks_set onNew onDisc onMsg C" using assms(1) hd by (auto simp: conn_inv_def)
  have envs: "\<And>fd. env (io_callback e fd)" and node: "exact \<longrightarrow> io_node e" using assms(2) by (auto simp: io_ok_def)
  let ?h1 = "h\<lparr>th_pipe := rest\<rparr>"
  have "fst (th_wakeupPipe h) \<in> base \<union> reserved C" using hd by (simp add: reserved_def)
  from taken_from_pipe [OF h(2,1) this Cons] obtain fd where
    fd: "fd_of (tc_net C) p = Some fd" "0 \<le> fd" "fd \<notin> registered h" "fd \<notin> th_activeFdSet h"
      "fd \<noteq> fst (th_wakeupPipe h)" and p: "p \<notin> set (listed L h @ piped ?h1)"
      "handler_ok False L (tc_net C) ?h1" "exact \<longrightarrow> dom (net_heap (tc_net C)) \<subseteq> insert p (set (listed L h @ piped ?h1))" .
  from fd(1) obtain rec where rec: "net_heap (tc_net C) p = Some rec" "m_fdConnection rec = fd" by (auto simp: fd_of_Some)
  let ?C1 = "put_handler ?h1 C"
  have C1: "callbacks_set onNew onDisc onMsg ?C1" "reserved ?C1 = reserved C" "handler_frame C ?C1"
    using cb hd by (simp_all add: callbacks_set_def handler_frame_def)
  show ?thesis
  proof (cases "fd \<ge> FD_SETSIZE")
    case big: True
    have "?h1\<lparr>th_activeFdSet := th_activeFdSet ?h1 - {fd}\<rparr> = ?h1" using fd(4) by simp
    with handler_ok_drop [OF p(2) h(1) fd(1), where exact = exact] p(1,3) fd(5)
    have "handler_ok exact L ((tc_net C)\<lparr>net_heap := (net_heap (tc_net C))(p := None), net_fds := net_fds (tc_net C) - {fd}\<rparr>) ?h1"
      by simp
    with process_disconnect [of ?C1 ?h1 p fd "registered h" "io_callback e fd"] C1 h fd big envs
    have "outcome tot (TcpServerController_ProcessDisconnect (io_callback e fd) ?C1 (Some p))
        (\<lambda>(r, C'). inv C' \<and> handler_frame ?C1 C' \<and> tc_connectionHandler C' = Some ?h1)" by simp
    then show ?thesis using hd Cons assms(3) rec big handler_frame_trans [OF C1(3)]
      by (auto simp: ProcessNewConnection_def intro!: outcome_bind)
  next
    case False
    let ?h2 = "?h1\<lparr>th_connectionsDB := snd (ListPushTail L (io_node e) (th_connectionsDB ?h1) p),
      th_activeFdSet := insert fd (th_activeFdSet ?h1), th_maxFd := max (th_maxFd ?h1) fd\<rparr>"
    let ?C2 = "put_handler ?h2 C"
    have ok: "ListOk L (th_connectionsDB h)" using h(2) by (simp add: handler_ok_def)
    note push = push_items [OF ok, of "io_node e" p]
    have reg: "registered ?h2 = insert fd (registered h)" using fd(5) by (auto simp: registered_def)
    have "handler_ok exact L (tc_net C) ?h2"
      using handler_ok_push [OF p(2) fd(1), where exact = exact and b = "io_node e"] p(1,3) fd(5) False node push by simp
    with notify_new [of ?C2 ?h2 p fd "registered h" "io_callback e fd"] hd h cb reg fd envs
    have "outcome tot (TcpServerController_NotifyNewConnection (io_callback e fd) ?C2 (Some p))
        (\<lambda>C'. inv C' \<and> handler_frame ?C2 C')" by (simp add: callbacks_set_def)
    moreover have "handler_frame C ?C2" using hd by (simp add: handler_frame_def)
    ultimately show ?thesis using hd Cons assms(3) rec False fd(2) handler_frame_trans
      by (auto simp: ProcessNewConnection_def fd_set_index_def Let_def elim!: outcome_mono)
  qed
qed

lemma process_new_connection:
  assumes "inv C" and "io_ok exact env e"
  shows "outcome tot (ProcessNewConnection L e C) (\<lambda>C'. inv C' \<and> handler_frame C C')"
proof -
  obtain h where h: "tc_connectionHandler C = Some h" "handler_ok exact L (tc_net C) h" using assms(1) by (auto simp: conn_inv_def)
  note fr = handler_frame_refl [OF h(1)]
  consider "\<not> io_read e" | "th_pipe h = []" | rest where "io_read e" "th_pipe h = None # rest" | p rest where "io_read e" "th_pipe h = Some p # rest"
    by (metis list.exhaust option.exhaust)
  then show ?thesis
  proof cases
    case (3 rest)
    have "handler_ok exact L (tc_net C) (h\<lparr>th_pipe := rest\<rparr>)" using h(2) piped_Cons(1) [OF 3(2)] by (simp add: handler_ok_def)
    then show ?thesis using assms(1) h 3
      by (auto simp: ProcessNewConnection_def conn_inv_def callbacks_set_def handler_frame_def)
  next
    case (4 p rest)
    then show ?thesis using process_piped_record [OF assms 4(1) h(1)] by blast
  qed (use h(1) assms(1) fr in \<open>simp_all add: ProcessNewConnection_def split: list.split\<close>)
qed

text \<open>Serving a connection keeps the list or removes exactly the current iterator, so the walk can go on.\<close>

text \<open>The handler after a connection was closed: its record is out of the list and its descriptor out of the set.\<close>

lemma handler_ok_removed:
  assumes "handler_ok exact L n h" and "net_ok R n" and "fd_of n p = Some fd" and "fd \<in> registered h"
    and "listed L h = ys @ p # zs" and "ListItems L l' = ys @ zs" and "ListOk L l'"
  shows "handler_ok exact L (n\<lparr>net_heap := (net_heap n)(p := None), net_fds := net_fds n - {fd}\<rparr>)
      (h\<lparr>th_activeFdSet := th_activeFdSet h - {fd}, th_connectionsDB := l'\<rparr>)"
proof -
  let ?h0 = "h\<lparr>th_connectionsDB := l'\<rparr>"
  have d: "distinct (listed L h @ piped h)" using assms(1) by (simp add: handler_ok_def)
  with assms(5,6) have sub: "set (ListItems L l') \<subseteq> set (listed L h)" and dist: "distinct (ListItems L l' @ piped h)"
    and pn: "p \<notin> set (ListItems L l' @ piped h)" and all: "set (listed L h) = insert p (set (ListItems L l'))"
    by auto
  have "handler_ok False L n ?h0" using assms(1,7) sub dist unfolding handler_ok_def by auto
  moreover have "fd \<noteq> fst (th_wakeupPipe h)" using assms(4) by (simp add: registered_def)
  moreover have "exact \<longrightarrow> dom (net_heap n) \<subseteq> insert p (set (listed L ?h0 @ piped ?h0))"
    using assms(1) all by (auto simp: handler_ok_def)
  ultimately have "handler_ok exact L (n\<lparr>net_heap := (net_heap n)(p := None), net_fds := net_fds n - {fd}\<rparr>)
      (?h0\<lparr>th_activeFdSet := th_activeFdSet ?h0 - {fd}\<rparr>)"
    using handler_ok_drop [of False L n ?h0 R p fd exact] assms(2,3) pn by simp
  also have "?h0\<lparr>th_activeFdSet := th_activeFdSet ?h0 - {fd}\<rparr> = h\<lparr>th_activeFdSet := th_activeFdSet h - {fd}, th_connectionsDB := l'\<rparr>" by simp
  finally show ?thesis .
qed

lemma process_client_data:
  assumes "inv C" and "io_ok exact env e" and "tc_connectionHandler C = Some h" and "ListItrs W (th_connectionsDB h) = is @ i # js"
    and "ListItrGet W (th_connectionsDB h) i = Some p"
  shows "outcome tot (ProcessClientData L e C p i) (\<lambda>C'. inv C' \<and> handler_frame C C'
    \<and> (\<exists>h' is'. tc_connectionHandler C' = Some h' \<and> ListItrs W (th_connectionsDB h') = is' @ js
          \<and> ListItrEnd W (th_connectionsDB h') = ListItrEnd W (th_connectionsDB h)))"
proof -
  have h: "net_ok (base \<union> reserved C) (tc_net C)" "handler_ok exact L (tc_net C) h" "I (tc_callbackContext C) (registered h)"
    and cb: "callbacks_set onNew onDisc onMsg C" using assms(1,3) by (auto simp: conn_inv_def)
  have ok: "ListOk L (th_connectionsDB h)" using h(2) by (simp add: handler_ok_def)
  obtain l' where l': "ListItrRemove L (th_connectionsDB h) i = (Some p, l')" "ListOk L l'" "ListItrs W l' = is @ js"
      "ListItrEnd W l' = ListItrEnd W (th_connectionsDB h)"
      "ListItems L l' = take (length is) (listed L h) @ drop (Suc (length is)) (listed L h)"
      "listed L h = take (length is) (listed L h) @ p # drop (Suc (length is)) (listed L h)"
    using itr_remove_items [OF ok assms(4)] assms(5) by (metis option.inject)
  have p: "p \<in> set (listed L h)" by (subst l'(6)) simp
  then have "p \<in> dom (net_heap (tc_net C))" using h(2) by (auto simp: handler_ok_def)
  then obtain rec where rec: "net_heap (tc_net C) p = Some rec" by auto
  define fd where "fd = m_fdConnection rec"
  have fd: "fd_of (tc_net C) p = Some fd" using rec by (simp add: fd_of_def fd_def)
  have reg: "fd \<in> registered h" using h(2) p fd by (simp add: handler_ok_def)
  have envs: "env (io_callback e fd)" "fst (io_recv e fd) \<le> int (length (snd (io_recv e fd)))" using assms(2) by (auto simp: io_ok_def)
  show ?thesis
  proof (cases "fst (io_recv e fd) \<le> 0")
    case True
    let ?h1 = "h\<lparr>th_activeFdSet := th_activeFdSet h - {fd}, th_connectionsDB := snd (ListItrRemove L (th_connectionsDB h) i)\<rparr>"
    let ?C1 = "put_handler ?h1 C"
    have "handler_ok exact L ((tc_net C)\<lparr>net_heap := (net_heap (tc_net C))(p := None), net_fds := net_fds (tc_net C) - {fd}\<rparr>) ?h1"
      using handler_ok_removed [OF h(2,1) fd reg l'(6,5,2)] l'(1) by simp
    moreover have "registered ?h1 = registered h - {fd}" by (auto simp: registered_def)
    ultimately have "outcome tot (TcpServerController_ProcessDisconnect (io_callback e fd) ?C1 (Some p))
        (\<lambda>(r, C'). inv C' \<and> handler_frame ?C1 C' \<and> tc_connectionHandler C' = Some ?h1)"
      using process_disconnect [of ?C1 ?h1 p fd "registered h" "io_callback e fd"] assms(3) h cb fd reg envs
      by (simp add: callbacks_set_def)
    moreover have "handler_frame C ?C1" using assms(3) by (simp add: handler_frame_def)
    ultimately show ?thesis using assms(3) rec True l' handler_frame_trans
      by (auto simp: ProcessClientData_def fd_def [symmetric] case_prod_beta intro!: outcome_bind)
  next
    case False
    have "outcome tot (TcpServerController_ProcessMessage (io_callback e fd) C (Some p) (Some (snd (io_recv e fd))) (nat (fst (io_recv e fd))))
        (\<lambda>(r, C'). inv C' \<and> handler_frame C C' \<and> tc_connectionHandler C' = Some h)"
      using False envs by (intro process_message [OF assms(1,3) p]) auto
    then show ?thesis using assms(3,4) rec False
      by (auto simp: ProcessClientData_def fd_def [symmetric] case_prod_beta intro!: outcome_bind)
  qed
qed

lemma service_loop:
  assumes "inv C" and "io_ok exact env e" and "tc_connectionHandler C = Some h" and "ListItrs W (th_connectionsDB h) = is @ js"
    and "en = ListItrEnd W (th_connectionsDB h)"
  shows "outcome tot (service_loop L W e (hd (js @ [en])) en nReady C) (\<lambda>C'. inv C' \<and> handler_frame C C')"
  using assms
proof (induction js arbitrary: C h "is" nReady)
  case Nil
  then show ?case by (subst service_loop.simps) (simp add: handler_frame_def)
next
  case (Cons i js)
  have h: "handler_ok exact L (tc_net C) h" using Cons.prems(1,3) by (auto simp: conn_inv_def)
  then have ok: "ListOk L (th_connectionsDB h)" by (simp add: handler_ok_def)
  obtain p where p: "ListItrGet W (th_connectionsDB h) i = Some p" "p \<in> set (listed L h)"
    using itr_get_item [OF ok Cons.prems(4)] by (metis in_set_conv_decomp)
  have "p \<in> dom (net_heap (tc_net C))" using h p(2) by (auto simp: handler_ok_def)
  then obtain rec where rec: "net_heap (tc_net C) p = Some rec" by auto
  then have fd: "fd_of (tc_net C) p = Some (m_fdConnection rec)" by (simp add: fd_of_def)
  have idx: "fd_set_index (m_fdConnection rec)"
    using h p(2) fd Cons.prems(1,3) by (auto simp: handler_ok_def fd_set_index_def conn_inv_def net_ok_def)
  have nxt: "ListItrNext W (th_connectionsDB h) i = hd (js @ [en])" using itr_next [OF ok Cons.prems(4)] Cons.prems(5) by simp
  note eq = service_loop.simps [of L W e i en nReady C]
  note IH = Cons.IH [OF _ Cons.prems(2)]
  show ?case
  proof (cases "m_fdConnection rec \<in> th_activeFdSetCopy h")
    case True
    have "outcome tot (Option.bind (ProcessClientData L e C p i) (service_loop L W e (hd (js @ [en])) en (nReady - 1)))
        (\<lambda>C'. inv C' \<and> handler_frame C C')"
    proof (rule outcome_bind [OF process_client_data [OF Cons.prems(1,2,3,4) p(1)]])
      fix C1 assume "inv C1 \<and> handler_frame C C1 \<and> (\<exists>h' is'. tc_connectionHandler C1 = Some h'
        \<and> ListItrs W (th_connectionsDB h') = is' @ js \<and> ListItrEnd W (th_connectionsDB h') = ListItrEnd W (th_connectionsDB h))"
      then obtain h' is' where 1: "inv C1" "handler_frame C C1" "tc_connectionHandler C1 = Some h'"
          "ListItrs W (th_connectionsDB h') = is' @ js" "ListItrEnd W (th_connectionsDB h') = ListItrEnd W (th_connectionsDB h)"
        by blast
      then show "outcome tot (service_loop L W e (hd (js @ [en])) en (nReady - 1) C1) (\<lambda>C'. inv C' \<and> handler_frame C C')"
        using IH [OF 1(1,3,4), of "nReady - 1"] Cons.prems(5) handler_frame_trans [OF 1(2)] by (auto elim!: outcome_mono)
    qed
    then show ?thesis using True p(1) rec idx nxt Cons.prems(1,3) handler_frame_refl [OF Cons.prems(3)]
      by (simp add: eq)
  next
    case False
    then show ?thesis using p(1) rec idx nxt Cons.prems(1,3,4,5) handler_frame_refl [OF Cons.prems(3)]
      IH [OF Cons.prems(1,3), of "is @ [i]" nReady] by (simp add: eq [unfolded Cons.prems(5)])
  qed
qed

lemma service_existing:
  assumes "inv C" and "io_ok exact env e"
  shows "outcome tot (ServiceExistingConnections L W e C nReady) (\<lambda>C'. inv C' \<and> handler_frame C C')"
proof -
  obtain h where h: "tc_connectionHandler C = Some h" "handler_ok exact L (tc_net C) h" using assms(1) by (auto simp: conn_inv_def)
  then have "ListItrBegin W (th_connectionsDB h) = hd (ListItrs W (th_connectionsDB h) @ [ListItrEnd W (th_connectionsDB h)])"
    by (simp add: itr_begin handler_ok_def)
  then show ?thesis using service_loop [OF assms h(1), of "[]"] h(1) by (simp add: ServiceExistingConnections_def)
qed

lemma handler_iteration:
  assumes "inv C" and "io_ok exact env e"
  shows "outcome tot (handler_iteration L W e C) (\<lambda>(b, C'). inv C' \<and> handler_frame C C')"
proof -
  obtain h where h: "tc_connectionHandler C = Some h" using assms(1) by (auto simp: conn_inv_def)
  obtain n h1 where w: "WaitForActivity e h = (n, h1)" by (cases "WaitForActivity e h")
  then obtain A where h1: "h1 = h\<lparr>th_activeFdSetCopy := A\<rparr>"
    by (auto simp: WaitForActivity_def Let_def split: option.splits)
  have 1: "inv (put_handler h1 C)" "handler_frame C (put_handler h1 C)"
    using assms(1) h by (auto simp: h1 conn_inv_def callbacks_set_def handler_frame_def)
  have r: "outcome tot (RegisterNewConnectionsFromAcceptor L e (put_handler h1 C) n) (\<lambda>(C', k). inv C' \<and> handler_frame C C')"
    using 1 process_new_connection [OF 1(1) assms(2)] handler_frame_trans [OF 1(2)]
    by (auto simp: RegisterNewConnectionsFromAcceptor_def intro!: outcome_bind)
  have s: "outcome tot (if k > 0 then ServiceExistingConnections L W e C2 k else Some C2) (\<lambda>C'. inv C' \<and> handler_frame C C')"
    if "inv C2 \<and> handler_frame C C2" for C2 k
    using that service_existing [OF _ assms(2), of C2 k] handler_frame_trans by (auto elim!: outcome_mono)
  have "outcome tot (Option.bind (RegisterNewConnectionsFromAcceptor L e (put_handler h1 C) n)
      (\<lambda>(C2, k). Option.bind (if k > 0 then ServiceExistingConnections L W e C2 k else Some C2) (\<lambda>C3. Some (False, C3))))
      (\<lambda>(b, C'). inv C' \<and> handler_frame C C')"
    by (rule outcome_bind [OF r]) (auto intro!: outcome_bind [OF s])
  then show ?thesis using h 1 by (simp add: handler_iteration_def w)
qed

lemma conn_inv_handler_at [simp]: "conn_inv base exact L I (handler_at pt C) = conn_inv base exact L I C"
  by (auto simp: conn_inv_def handler_at_def reserved_def split: option.splits)

lemma callbacks_set_at [simp]:
  "callbacks_set onNew onDisc onMsg (handler_at pt C) = callbacks_set onNew onDisc onMsg C"
  "callbacks_set onNew onDisc onMsg (acceptor_at pt C) = callbacks_set onNew onDisc onMsg C"
  by (simp_all add: callbacks_set_def handler_at_def acceptor_at_def)

lemma handler_at_simps [simp]:
  "tc_connectionHandler (handler_at pt C) = map_option (\<lambda>h. h\<lparr>th_thread := Worker pt\<rparr>) (tc_connectionHandler C)"
  "tc_connectionAcceptor (handler_at pt C) = tc_connectionAcceptor C" "tc_state (handler_at pt C) = tc_state C"
  "tc_lock (handler_at pt C) = tc_lock C" "tc_net (handler_at pt C) = tc_net C"
  by (simp_all add: handler_at_def)

lemma handler_loop:
  assumes "inv C" and "io_ok exact env e"
  shows "outcome tot (ClientHandlerIOLoop L W e C) inv"
proof -
  obtain h where h: "tc_connectionHandler C = Some h" using assms(1) by (auto simp: conn_inv_def)
  have "outcome tot (Option.bind (handler_iteration L W e C) (\<lambda>(b, C1). Some (handler_at (if b then Returned else At_Test) C1))) inv"
    by (rule outcome_bind [OF handler_iteration [OF assms]]) auto
  then show ?thesis using h assms(1)
    by (auto simp: ClientHandlerIOLoop_def split: thread.split worker_point.split)
qed

text \<open>
  After its flag was cleared the worker returns within two steps, so the join completes; the
  handler is left joined.
\<close>

lemma handler_loop_returns:
  assumes "inv C" and "io_ok exact env e" and "tc_connectionHandler C = Some h" and "th_state h = HANDLER_STATE_STOPPED"
    and "th_thread h = Worker pt"
  shows "outcome tot (join_handler L W e C) (\<lambda>C'. inv C' \<and> (\<exists>h'. tc_connectionHandler C' = Some h'
      \<and> th_thread h' = Joined \<and> th_state h' = HANDLER_STATE_STOPPED \<and> th_wakeupPipe h' = th_wakeupPipe h)
    \<and> tc_connectionAcceptor C' = tc_connectionAcceptor C \<and> tc_state C' = tc_state C \<and> tc_lock C' = tc_lock C
    \<and> net_fds (tc_net C') \<subseteq> net_fds (tc_net C))"
proof -
  let ?P = "\<lambda>C'. inv C' \<and> (\<exists>h'. tc_connectionHandler C' = Some h' \<and> th_state h' = HANDLER_STATE_STOPPED
      \<and> th_wakeupPipe h' = th_wakeupPipe h \<and> (th_thread h' = Worker At_Test \<or> th_thread h' = Worker Returned))
    \<and> tc_connectionAcceptor C' = tc_connectionAcceptor C \<and> tc_state C' = tc_state C \<and> tc_lock C' = tc_lock C
    \<and> net_fds (tc_net C') \<subseteq> net_fds (tc_net C)"
  let ?Q = "\<lambda>C'. ?P C' \<and> th_thread (the (tc_connectionHandler C')) = Worker Returned"
  have first: "outcome tot (ClientHandlerIOLoop L W e C) ?P"
  proof (cases pt)
    case In_Call
    have "outcome tot (Option.bind (handler_iteration L W e C) (\<lambda>(b, C1). Some (handler_at (if b then Returned else At_Test) C1))) ?P"
      by (rule outcome_bind [OF handler_iteration [OF assms(1,2)]]) (use assms(3,4) in \<open>auto simp: handler_frame_def\<close>)
    then show ?thesis using assms(3,5) In_Call by (simp add: ClientHandlerIOLoop_def)
  qed (use assms in \<open>auto simp: ClientHandlerIOLoop_def\<close>)
  have second: "outcome tot (ClientHandlerIOLoop L W e C1) ?Q" if "?P C1" for C1
    using that by (auto simp: ClientHandlerIOLoop_def)
  show ?thesis unfolding join_handler_def
    by (rule outcome_bind [OF first], rule outcome_bind [OF second], assumption)
      (auto simp: conn_inv_def callbacks_set_def reserved_def)
qed

end

end
