(* ===== verification/Tcp_Lifecycle.thy ===== *)
theory Tcp_Lifecycle
  imports Tcp_Invariant
begin

text \<open>
  The acceptor thread, the life cycle of the controller and the runs of the TCP layer.  \<open>life_ok\<close> ties the
  three state flags to the two worker threads: a flag is set exactly while its thread exists, so a
  thread is joined exactly once.  The runs start a controller at most once; what happens to a second
  start is the last theorem of the section.
\<close>

section \<open>Accepting a connection\<close>

definition accept_ok :: "('l, 'e, 'c) TcpServerController \<Rightarrow> accept_env \<Rightarrow> bool" where
  "accept_ok C ae \<longleftrightarrow> length (ae_ipBuffer ae) = INET_ADDRSTRLEN
     \<and> (case ae_accept ae of None \<Rightarrow> True | Some (fd, addr, port) \<Rightarrow> 0 \<le> fd \<and> fd \<notin> net_fds (tc_net C))"

lemma accept_ok_net: "tc_net C' = tc_net C \<Longrightarrow> accept_ok C' ae = accept_ok C ae"
  by (simp add: accept_ok_def split: option.split)

text \<open>How one step moves the acceptor thread, by its state flag.\<close>

definition acceptor_moves :: "AcceptorState \<Rightarrow> thread \<Rightarrow> thread \<Rightarrow> bool" where
  "acceptor_moves s t t' \<longleftrightarrow>
     (case t of
        Worker At_Test \<Rightarrow> t' = Worker (if s = ACCEPTOR_STATE_RUNNING then In_Call else Returned)
      | Worker In_Call \<Rightarrow> t' = Worker At_Test \<or> s = ACCEPTOR_STATE_STOPPED \<and> t' = Worker Returned
      | _ \<Rightarrow> t' = t)"

definition acceptor_frame :: "('l, 'e, 'c) TcpServerController \<Rightarrow> ('l, 'e, 'c) TcpServerController \<Rightarrow> bool" where
  "acceptor_frame C C' \<longleftrightarrow>
     (\<exists>h ps. tc_connectionHandler C = Some h \<and> tc_connectionHandler C' = Some (h\<lparr>th_pipe := th_pipe h @ ps\<rparr>))
   \<and> tc_connectionAcceptor C' = tc_connectionAcceptor C \<and> tc_state C' = tc_state C \<and> tc_lock C' = tc_lock C"

lemma acceptor_frame_refl: "tc_connectionHandler C = Some h \<Longrightarrow> acceptor_frame C C"
  by (auto simp: acceptor_frame_def intro!: exI [of _ "[]"])

lemma net_ok_add:
  assumes "net_ok R n" and "0 \<le> fd" and "fd \<notin> net_fds n" and "m_fdConnection rec = fd"
  shows "net_ok R (n\<lparr>net_heap := (net_heap n)(net_next n \<mapsto> rec), net_next := Suc (net_next n), net_fds := insert fd (net_fds n)\<rparr>)"
    (is "net_ok R ?n")
proof -
  have fresh: "fd_of n (net_next n) = None" using assms(1) by (auto simp: net_ok_def fd_of_def)
  have f: "fd_of ?n = (fd_of n)(net_next n \<mapsto> fd)" using assms(4) by (auto simp: fd_of_def)
  have "\<forall>p \<in> dom (net_heap ?n). p < net_next ?n" using assms(1) by (auto simp: net_ok_def less_Suc_eq)
  moreover have "\<forall>p f. fd_of ?n p = Some f \<longrightarrow> 0 \<le> f \<and> f \<in> net_fds ?n \<and> f \<notin> R"
    using assms(1-3) unfolding f by (auto simp: net_ok_def)
  moreover have "\<forall>p q f. fd_of ?n p = Some f \<longrightarrow> fd_of ?n q = Some f \<longrightarrow> p = q"
    using assms(1,3) unfolding f by (auto simp: net_ok_def)
  moreover have "net_fds ?n \<subseteq> R \<union> {f. \<exists>p. fd_of ?n p = Some f}"
  proof
    fix x assume "x \<in> net_fds ?n"
    then consider "x = fd" | "x \<in> net_fds n" by auto
    then show "x \<in> R \<union> {f. \<exists>p. fd_of ?n p = Some f}"
    proof cases
      case 1
      then show ?thesis unfolding f by auto
    next
      case 2
      then consider "x \<in> R" | q where "fd_of n q = Some x" using assms(1) by (auto simp: net_ok_def)
      then show ?thesis
      proof cases
        case (2 q)
        then have "q \<noteq> net_next n" using fresh by auto
        with 2 have "fd_of ?n q = Some x" unfolding f by simp
        then show ?thesis by blast
      qed simp
    qed
  qed
  moreover have "R \<subseteq> net_fds ?n" using assms(1) by (auto simp: net_ok_def)
  ultimately show ?thesis unfolding net_ok_def by blast
qed

context tcp_client
begin

text \<open>A record that was just created and written to the pipe.\<close>

lemma handler_ok_piped:
  assumes "handler_ok exact L n h" and "p \<notin> dom (net_heap n)" and "net_heap n1 = (net_heap n)(p \<mapsto> rec)"
  shows "handler_ok exact L n1 (h\<lparr>th_pipe := th_pipe h @ [Some p]\<rparr>)"
proof -
  let ?h1 = "h\<lparr>th_pipe := th_pipe h @ [Some p]\<rparr>"
  have f: "fd_of n1 = (fd_of n)(p \<mapsto> m_fdConnection rec)" using assms(3) by (auto simp: fd_of_def)
  have reg: "registered ?h1 = registered h" and pip: "piped ?h1 = piped h @ [p]" by simp_all
  have ho: "ListOk L (th_connectionsDB h)" "distinct (listed L h @ piped h)" "set (listed L h @ piped h) \<subseteq> dom (net_heap n)"
      "\<forall>q \<in> set (listed L h). \<forall>f. fd_of n q = Some f \<longrightarrow> f < FD_SETSIZE \<and> f \<in> registered h \<and> f \<le> th_maxFd h"
      "\<forall>f \<in> registered h. \<exists>q. fd_of n q = Some f \<and> q \<notin> set (piped h)" "fst (th_wakeupPipe h) \<in> th_activeFdSet h"
      "exact \<longrightarrow> dom (net_heap n) \<subseteq> set (listed L h @ piped h)"
    using assms(1) by (simp_all add: handler_ok_def)
  have "\<forall>q \<in> set (listed L h). \<forall>f. fd_of n1 q = Some f \<longrightarrow> f < FD_SETSIZE \<and> f \<in> registered ?h1 \<and> f \<le> th_maxFd ?h1"
    using ho(3,4) assms(2) unfolding f by auto
  moreover have "\<exists>q. fd_of n1 q = Some f' \<and> q \<notin> set (piped ?h1)" if r: "f' \<in> registered ?h1" for f'
  proof -
    obtain q where q: "fd_of n q = Some f'" "q \<notin> set (piped h)" using ho(5) r by auto
    then have "q \<noteq> p" using assms(2) by (auto simp: fd_of_def)
    with q show ?thesis unfolding f pip by auto
  qed
  ultimately show ?thesis unfolding handler_ok_def pip using ho assms(2,3) by auto
qed

text \<open>A record that could not be handed over is destroyed: only its address is used up.\<close>

lemma created_destroyed:
  assumes "net_ok R n" and "0 \<le> fd" and "fd \<notin> net_fds n" and "m_fdConnection rec = fd"
  shows "TcpConnectionRecord_Destroy (Some (net_next n)) (n\<lparr>net_heap := (net_heap n)(net_next n \<mapsto> rec), net_next := Suc (net_next n), net_fds := insert fd (net_fds n)\<rparr>)
    = Some (None, n\<lparr>net_next := Suc (net_next n)\<rparr>)"
proof -
  have "net_next n \<notin> dom (net_heap n)" using assms(1) by (auto simp: net_ok_def)
  then show ?thesis using assms(2-4) by (simp add: TcpConnectionRecord_Destroy_def domIff fun_upd_idem)
qed

lemma accepted_connection:
  assumes "inv C" and "0 \<le> fd" and "fd \<notin> net_fds (tc_net C)" and "length (ae_ipBuffer ae) = INET_ADDRSTRLEN"
  shows "\<exists>C'. accepted_connection ae fd addr port C = Some C' \<and> inv C' \<and> acceptor_frame C C'"
proof -
  obtain h where h: "tc_connectionHandler C = Some h" "net_ok (base \<union> reserved C) (tc_net C)"
      "handler_ok exact L (tc_net C) h" "I (tc_callbackContext C) (registered h)" and cb: "callbacks_set onNew onDisc onMsg C"
    using assms(1) by (auto simp: conn_inv_def)
  let ?rec = "\<lparr>m_fdConnection = fd, m_ip = ip_text addr, m_conn_port = int (unat port)\<rparr>"
  let ?n = "tc_net C"
  let ?p = "net_next ?n"
  let ?n1 = "?n\<lparr>net_heap := (net_heap ?n)(?p \<mapsto> ?rec), net_next := Suc ?p, net_fds := insert fd (net_fds ?n)\<rparr>"
  have short: "length (ip_text addr) < INET_ADDRSTRLEN"
    using addr_text_bounds(1) [of addr] by (simp add: INET_ADDRSTRLEN_def)
  note conv = convert_ip [OF assms(4), of addr]
  have ok1: "net_ok (base \<union> reserved C) ?n1" using net_ok_add [OF h(2) assms(2,3)] by simp
  have fr: "acceptor_frame C C" by (rule acceptor_frame_refl [OF h(1)])
  have fresh: "?p \<notin> dom (net_heap ?n)" using h(2) by (auto simp: net_ok_def)
  show ?thesis
  proof (cases "ae_mem ae")
    case False
    have "?n\<lparr>net_fds := insert fd (net_fds ?n) - {fd}\<rparr> = ?n" using assms(3) by simp
    then show ?thesis using False assms(1) fr
      by (simp add: accepted_connection_def conv converted_ip TcpConnectionRecord_Create_def open_fd_def)
  next
    case mem: True
    have cr: "TcpConnectionRecord_Create (ae_mem ae) fd (ip_text addr) port (open_fd fd ?n) = Some (Some ?p, ?n1)"
      using mem short by (simp add: TcpConnectionRecord_Create_def open_fd_def)
    show ?thesis
    proof (cases "ae_written ae = sizeof_pointer")
      case True
      let ?h1 = "h\<lparr>th_pipe := th_pipe h @ [Some ?p]\<rparr>"
      let ?C1 = "C\<lparr>tc_net := ?n1, tc_connectionHandler := Some ?h1\<rparr>"
      have "handler_ok exact L ?n1 ?h1" by (rule handler_ok_piped [OF h(3) fresh]) simp
      moreover have "reserved ?C1 = reserved C" using h(1) by (simp add: reserved_def)
      ultimately have "inv ?C1" using ok1 h(4) cb by (simp add: conn_inv_def callbacks_set_def)
      moreover have "accepted_connection ae fd addr port C = Some ?C1"
        using cr True h(1)
        by (simp add: accepted_connection_def conv converted_ip TcpServerController_ProcessConnection_def TcpConnectionHandler_AddConnection_def)
      moreover have "acceptor_frame C ?C1" using h(1) by (auto simp: acceptor_frame_def)
      ultimately show ?thesis by blast
    next
      case False
      have d: "TcpConnectionRecord_Destroy (Some ?p) ?n1 = Some (None, ?n\<lparr>net_next := Suc ?p\<rparr>)"
        using created_destroyed [OF h(2) assms(2,3), of ?rec] by simp
      have "net_ok (base \<union> reserved C) (?n\<lparr>net_next := Suc ?p\<rparr>)" using h(2) by (auto simp: net_ok_def less_Suc_eq)
      then have "inv (C\<lparr>tc_net := ?n\<lparr>net_next := Suc ?p\<rparr>\<rparr>)" using h cb by (simp add: conn_inv_def callbacks_set_def handler_ok_def)
      moreover have "accepted_connection ae fd addr port C = Some (C\<lparr>tc_net := ?n\<lparr>net_next := Suc ?p\<rparr>\<rparr>)"
        using cr d False h(1)
        by (simp add: accepted_connection_def conv converted_ip TcpServerController_ProcessConnection_def TcpConnectionHandler_AddConnection_def)
      moreover have "acceptor_frame C (C\<lparr>tc_net := ?n\<lparr>net_next := Suc ?p\<rparr>\<rparr>)" using fr by (simp add: acceptor_frame_def)
      ultimately show ?thesis by blast
    qed
  qed
qed

section \<open>Steps and end of the acceptor thread\<close>

lemma acceptor_at_simps [simp]:
  "tc_connectionAcceptor (acceptor_at pt C) = map_option (\<lambda>a. a\<lparr>ta_thread := Worker pt\<rparr>) (tc_connectionAcceptor C)"
  "tc_connectionHandler (acceptor_at pt C) = tc_connectionHandler C" "tc_state (acceptor_at pt C) = tc_state C"
  "tc_lock (acceptor_at pt C) = tc_lock C" "tc_net (acceptor_at pt C) = tc_net C"
  "tc_callbackContext (acceptor_at pt C) = tc_callbackContext C"
  by (simp_all add: acceptor_at_def)

lemma inv_acceptor_at:
  "tc_connectionAcceptor C = Some a \<Longrightarrow> ta_thread a \<noteq> Joined \<Longrightarrow> inv (acceptor_at pt C) = inv C"
  by (simp add: conn_inv_def reserved_def)

lemma acceptor_loop:
  assumes "inv C" and "tc_connectionAcceptor C = Some a" and "accept_ok C ae"
  shows "\<exists>C' h ps t. TcpConnectionAcceptor_AcceptLoop ae C = Some C' \<and> inv C'
    \<and> tc_connectionHandler C = Some h \<and> tc_connectionHandler C' = Some (h\<lparr>th_pipe := th_pipe h @ ps\<rparr>)
    \<and> tc_connectionAcceptor C' = Some (a\<lparr>ta_thread := t\<rparr>) \<and> tc_state C' = tc_state C \<and> tc_lock C' = tc_lock C
    \<and> acceptor_moves (ta_state a) (ta_thread a) t"
proof -
  obtain h where h: "tc_connectionHandler C = Some h" using assms(1) by (auto simp: conn_inv_def)
  show ?thesis
  proof (cases "ta_thread a = Worker In_Call")
    case True
    note at = inv_acceptor_at [OF assms(2)]
    show ?thesis
    proof (cases "if ta_listenFd a \<in> net_fds (tc_net C) then ae_accept ae else None")
      case None
      then show ?thesis using True h assms at
        by (intro exI [of _ "acceptor_at (if ta_state a = ACCEPTOR_STATE_STOPPED then Returned else At_Test) C"] exI [of _ h] exI [of _ "[]"]
            exI [of _ "Worker (if ta_state a = ACCEPTOR_STATE_STOPPED then Returned else At_Test)"])
          (simp add: TcpConnectionAcceptor_AcceptLoop_def acceptor_moves_def)
    next
      case (Some conn)
      then obtain fd addr port where c: "ae_accept ae = Some (fd, addr, port)" "ta_listenFd a \<in> net_fds (tc_net C)"
        by (cases conn) (auto split: if_splits)
      then have "0 \<le> fd" "fd \<notin> net_fds (tc_net C)" "length (ae_ipBuffer ae) = INET_ADDRSTRLEN"
        using assms(3) by (simp_all add: accept_ok_def)
      from accepted_connection [OF assms(1) this] obtain C1 where
        C1: "accepted_connection ae fd addr port C = Some C1" "inv C1" "acceptor_frame C C1" by blast
      have a1: "tc_connectionAcceptor C1 = Some a" using C1(3) assms(2) by (simp add: acceptor_frame_def)
      obtain ps where ps: "tc_connectionHandler C1 = Some (h\<lparr>th_pipe := th_pipe h @ ps\<rparr>)" using C1(3) h by (auto simp: acceptor_frame_def)
      show ?thesis using True h assms(2) c C1 a1 ps inv_acceptor_at [OF a1]
        by (intro exI [of _ "acceptor_at At_Test C1"] exI [of _ h] exI [of _ ps] exI [of _ "Worker At_Test"])
          (simp add: TcpConnectionAcceptor_AcceptLoop_def acceptor_frame_def acceptor_moves_def)
    qed
  next
    case other: False
    show ?thesis
    proof (cases "ta_thread a = Worker At_Test")
      case True
      let ?pt = "if ta_state a = ACCEPTOR_STATE_RUNNING then In_Call else Returned"
      show ?thesis using True h assms inv_acceptor_at [OF assms(2), of ?pt]
        by (intro exI [of _ "acceptor_at ?pt C"] exI [of _ h] exI [of _ "[]"] exI [of _ "Worker ?pt"])
          (simp add: TcpConnectionAcceptor_AcceptLoop_def acceptor_moves_def)
    next
      case False
      have "acceptor_moves (ta_state a) (ta_thread a) (ta_thread a)" using other False
        by (simp add: acceptor_moves_def split: thread.split worker_point.split)
      moreover from False other have "TcpConnectionAcceptor_AcceptLoop ae C = Some C" using assms(2)
        by (auto simp: TcpConnectionAcceptor_AcceptLoop_def split: thread.split worker_point.split)
      ultimately show ?thesis using h assms(1,2)
        by (intro exI [of _ C] exI [of _ h] exI [of _ "[]"] exI [of _ "ta_thread a"]) simp
    qed
  qed
qed

lemma acceptor_loop_idle:
  assumes "tc_connectionAcceptor C = Some a" and "ta_state a = ACCEPTOR_STATE_STOPPED" and "ta_thread a = Worker At_Test \<or> ta_thread a = Worker Returned"
  shows "TcpConnectionAcceptor_AcceptLoop ae C = Some (acceptor_at Returned C)"
  using assms by (auto simp: TcpConnectionAcceptor_AcceptLoop_def acceptor_at_def)

text \<open>
  Stopping the acceptor always completes: the thread returns, is joined, and the listening
  descriptor is closed once.
\<close>

lemma acceptor_stop:
  assumes "inv C" and "tc_connectionAcceptor C = Some a" and "accept_ok C ae" and "tc_connectionHandler C = Some h"
    and "ta_state a = ACCEPTOR_STATE_RUNNING" and "ta_thread a \<in> {Worker At_Test, Worker In_Call}"
    and "ta_listenFd a \<notin> base \<union> {fst (th_wakeupPipe h), snd (th_wakeupPipe h)}"
  shows "\<exists>C' ps. TcpConnectionAcceptor_Stop ae C = Some C' \<and> inv C'
    \<and> tc_connectionHandler C' = Some (h\<lparr>th_pipe := th_pipe h @ ps\<rparr>)
    \<and> tc_connectionAcceptor C' = Some (a\<lparr>ta_state := ACCEPTOR_STATE_STOPPED, ta_thread := Joined\<rparr>)
    \<and> tc_state C' = tc_state C \<and> tc_lock C' = tc_lock C \<and> ta_listenFd a \<notin> net_fds (tc_net C')"
proof -
  let ?a = "a\<lparr>ta_state := ACCEPTOR_STATE_STOPPED\<rparr>"
  let ?C1 = "put_acceptor ?a C"
  have nj: "ta_thread a \<noteq> Joined" using assms(6) by auto
  have 1: "inv ?C1" "accept_ok ?C1 ae" using assms(1-3) nj accept_ok_net [of ?C1 C]
    by (auto simp: conn_inv_def callbacks_set_def reserved_def)
  have a1: "tc_connectionAcceptor ?C1 = Some ?a" by simp
  obtain C2 ps t where C2: "TcpConnectionAcceptor_AcceptLoop ae ?C1 = Some C2" "inv C2"
      "tc_connectionHandler C2 = Some (h\<lparr>th_pipe := th_pipe h @ ps\<rparr>)" "tc_connectionAcceptor C2 = Some (?a\<lparr>ta_thread := t\<rparr>)"
      "tc_state C2 = tc_state C" "tc_lock C2 = tc_lock C" "acceptor_moves (ta_state ?a) (ta_thread ?a) t"
    using acceptor_loop [OF 1(1) a1 1(2)] assms(4) by auto
  have t: "t = Worker At_Test \<or> t = Worker Returned" using C2(7) assms(6) by (auto simp: acceptor_moves_def)
  let ?C3 = "acceptor_at Returned C2"
  have s: "TcpConnectionAcceptor_AcceptLoop ae C2 = Some ?C3" using C2(4) t by (intro acceptor_loop_idle) auto
  have i3: "inv ?C3" using inv_acceptor_at [OF C2(4), of Returned] C2(2) t by auto
  let ?aj = "?a\<lparr>ta_thread := Joined\<rparr>"
  let ?n = "tc_net ?C3"
  let ?C4 = "(put_acceptor ?aj ?C3)\<lparr>tc_net := ?n\<lparr>net_fds := net_fds ?n - {ta_listenFd a}\<rparr>\<rparr>"
  have R3: "reserved ?C3 = insert (ta_listenFd a) {fst (th_wakeupPipe h), snd (th_wakeupPipe h)}" using C2(3,4) by (auto simp: reserved_def)
  have R4: "reserved ?C4 = {fst (th_wakeupPipe h), snd (th_wakeupPipe h)}" using C2(3) by (simp add: reserved_def)
  have n3: "net_ok (base \<union> reserved ?C3) ?n" using i3 by (auto simp: conn_inv_def)
  then have "ta_listenFd a \<in> net_fds ?n" unfolding R3 by (auto simp: net_ok_def)
  moreover have "net_ok (base \<union> reserved ?C4) (?n\<lparr>net_fds := net_fds ?n - {ta_listenFd a}\<rparr>)"
    using n3 assms(7) unfolding R3 R4 by (auto simp: net_ok_def)
  then have "inv ?C4" using i3 C2(3) unfolding conn_inv_def callbacks_set_def by (auto simp: handler_ok_def)
  moreover have "join_acceptor ae ?C1 = Some (put_acceptor ?aj ?C3)" using C2 s by (simp add: join_acceptor_def)
  ultimately show ?thesis using assms(2,5) C2
    by (intro exI [of _ ?C4] exI [of _ ps]) (simp add: TcpConnectionAcceptor_Stop_def)
qed

lemma handler_stop:
  assumes "inv C" and "io_ok exact env e" and "tc_connectionHandler C = Some h" and "th_state h = HANDLER_STATE_RUNNING"
    and "th_thread h = Worker pt"
  shows "outcome tot (TcpConnectionHandler_Stop L W e C) (\<lambda>C'. inv C' \<and> (\<exists>h'. tc_connectionHandler C' = Some h'
      \<and> th_thread h' = Joined \<and> th_state h' = HANDLER_STATE_STOPPED \<and> th_wakeupPipe h' = th_wakeupPipe h)
    \<and> tc_connectionAcceptor C' = tc_connectionAcceptor C \<and> tc_state C' = tc_state C \<and> tc_lock C' = tc_lock C
    \<and> net_fds (tc_net C') \<subseteq> net_fds (tc_net C))"
proof -
  let ?h = "h\<lparr>th_state := HANDLER_STATE_STOPPED, th_pipe := th_pipe h @ [None]\<rparr>"
  have "piped ?h = piped h" by (simp add: piped_def)
  then have "inv (put_handler ?h C)" using assms(1,3)
    by (auto simp: conn_inv_def callbacks_set_def handler_ok_def)
  from handler_loop_returns [OF this assms(2), of ?h pt] assms(3-5) show ?thesis
    by (simp add: TcpConnectionHandler_Stop_def)
qed

end

end
