(* ===== verification/Tcp_Run.thy ===== *)
theory Tcp_Run
  imports Tcp_Lifecycle
begin

text \<open>
  Runs of the TCP layer.  A run creates a controller, registers the callbacks, starts it at most
  once and then interleaves steps of the acceptor thread, steps of the handler thread and the calls of the
  owner in any order.  In every state of a run the descriptors and records are consistent
  (\<open>conn_inv\<close>) and the flags agree with the threads (\<open>life_ok\<close>), so no step uses a freed record, closes
  a descriptor twice or joins a thread that does not exist.
\<close>

definition life_ok :: "int set \<Rightarrow> ('l, 'e, 'c) TcpServerController \<Rightarrow> bool" where
  "life_ok base C \<longleftrightarrow>
     (\<exists>a h. tc_connectionAcceptor C = Some a \<and> tc_connectionHandler C = Some h \<and> \<not> tc_lock C
        \<and> distinct [ta_listenFd a, fst (th_wakeupPipe h), snd (th_wakeupPipe h)]
        \<and> {ta_listenFd a, fst (th_wakeupPipe h), snd (th_wakeupPipe h)} \<inter> base = {}
        \<and> (case tc_state C of
             SERVER_STATE_RUNNING \<Rightarrow>
               ta_state a = ACCEPTOR_STATE_RUNNING \<and> ta_thread a \<in> {Worker At_Test, Worker In_Call}
             \<and> th_state h = HANDLER_STATE_RUNNING \<and> (\<exists>pt. th_thread h = Worker pt)
           | SERVER_STATE_STOPPED \<Rightarrow>
               ta_state a = ACCEPTOR_STATE_STOPPED \<and> ta_thread a \<in> {No_Thread, Joined}
             \<and> th_state h = HANDLER_STATE_STOPPED \<and> th_thread h \<in> {No_Thread, Joined}))"

text \<open>The acceptor thread has been joined and its listening descriptor closed.\<close>

definition listener_closed :: "('l, 'e, 'c) TcpServerController \<Rightarrow> bool" where
  "listener_closed C \<longleftrightarrow> (\<exists>a. tc_connectionAcceptor C = Some a \<and> ta_thread a = Joined \<and> ta_listenFd a \<notin> net_fds (tc_net C))"

definition never_started :: "('l, 'e, 'c) TcpServerController \<Rightarrow> bool" where
  "never_started C \<longleftrightarrow> (\<exists>a. tc_connectionAcceptor C = Some a \<and> ta_thread a = No_Thread)
     \<and> (\<exists>h. tc_connectionHandler C = Some h \<and> th_thread h = No_Thread)"

text \<open>The descriptors the system hands out for a new controller are fresh and distinct.\<close>

definition create_ok :: "create_env \<Rightarrow> net \<Rightarrow> bool" where
  "create_ok ce n \<longleftrightarrow> net_heap n = Map.empty
     \<and> (0 \<le> ce_socket ce \<longrightarrow> ce_socket ce \<notin> net_fds n)
     \<and> (\<forall>r w. ce_pipe ce = Some (r, w) \<longrightarrow> fd_set_index r \<and> 0 \<le> w \<and> distinct [ce_socket ce, r, w] \<and> r \<notin> net_fds n \<and> w \<notin> net_fds n)"

inductive tcp_run ::
  "('l, 'i, nat) List_ops \<Rightarrow> ('l, 'i, nat) List_walk \<Rightarrow> ('e, 'c) record_callback \<Rightarrow> ('e, 'c) record_callback
     \<Rightarrow> ('e, 'c) message_callback \<Rightarrow> ('c \<Rightarrow> bool) \<Rightarrow> ('e \<Rightarrow> bool) \<Rightarrow> bool \<Rightarrow> int set \<Rightarrow> ('l, 'e, 'c) TcpServerController \<Rightarrow> bool"
  for L W onNew onDisc onMsg Init env exact base where
  tr_create:
    "TcpServerController_Create L W ce ae e null_context name ip port n = Some (Inr C) \<Longrightarrow> create_ok ce n \<Longrightarrow> net_fds n = base \<Longrightarrow>
     TcpServerController_SetCallbacks (Some C) c (Some onNew) (Some onDisc) (Some onMsg) = Some (TCP_RESULT_SUCCESS, Some C') \<Longrightarrow>
     Init c \<Longrightarrow> tcp_run L W onNew onDisc onMsg Init env exact base C'"
| tr_start:
    "tcp_run L W onNew onDisc onMsg Init env exact base C \<Longrightarrow> never_started C \<Longrightarrow> accept_ok C ae \<Longrightarrow>
     TcpServerController_Start L W acceptor_thread handler_thread ae e (Some C) = Some (r, Some C') \<Longrightarrow>
     tcp_run L W onNew onDisc onMsg Init env exact base C'"
| tr_accept:
    "tcp_run L W onNew onDisc onMsg Init env exact base C \<Longrightarrow> accept_ok C ae \<Longrightarrow>
     TcpConnectionAcceptor_AcceptLoop ae C = Some C' \<Longrightarrow> tcp_run L W onNew onDisc onMsg Init env exact base C'"
| tr_io:
    "tcp_run L W onNew onDisc onMsg Init env exact base C \<Longrightarrow> io_ok exact env e \<Longrightarrow>
     ClientHandlerIOLoop L W e C = Some C' \<Longrightarrow> tcp_run L W onNew onDisc onMsg Init env exact base C'"
| tr_stop:
    "tcp_run L W onNew onDisc onMsg Init env exact base C \<Longrightarrow> accept_ok C ae \<Longrightarrow> io_ok exact env e \<Longrightarrow>
     TcpServerController_Stop L W ae e (Some C) = Some (Some C') \<Longrightarrow> tcp_run L W onNew onDisc onMsg Init env exact base C'"
| tr_set_callbacks:
    "tcp_run L W onNew onDisc onMsg Init env exact base C \<Longrightarrow> tc_state C = SERVER_STATE_RUNNING \<Longrightarrow>
     TcpServerController_SetCallbacks (Some C) c f g k = Some (r, Some C') \<Longrightarrow> tcp_run L W onNew onDisc onMsg Init env exact base C'"

lemma destroy_records_list:
  "net_ok R n \<Longrightarrow> distinct ps \<Longrightarrow> set ps \<subseteq> dom (net_heap n) \<Longrightarrow>
     \<exists>n'. destroy_records ps n = Some n' \<and> net_ok R n' \<and> net_heap n' = net_heap n |` (- set ps)"
proof (induction ps arbitrary: n)
  case (Cons p ps)
  obtain fd where fd: "fd_of n p = Some fd" using Cons.prems(3) by (auto simp: fd_of_def)
  let ?n = "n\<lparr>net_heap := (net_heap n)(p := None), net_fds := net_fds n - {fd}\<rparr>"
  have 1: "TcpConnectionRecord_Destroy (Some p) n = Some (None, ?n)" "net_ok R ?n"
    using destroy_record [OF Cons.prems(1) fd] net_ok_drop [OF Cons.prems(1) fd] .
  have "distinct ps" "set ps \<subseteq> dom (net_heap ?n)" using Cons.prems(2,3) by auto
  from Cons.IH [OF 1(2) this] obtain n' where n': "destroy_records ps ?n = Some n'" "net_ok R n'"
      "net_heap n' = net_heap ?n |` (- set ps)" by blast
  moreover have "net_heap ?n |` (- set ps) = net_heap n |` (- set (p # ps))" by (auto simp: restrict_map_def)
  ultimately show ?case using 1(1) by auto
qed (simp add: restrict_map_def)

lemma net_ok_close: "net_ok (insert x R) n \<Longrightarrow> x \<notin> R \<Longrightarrow> net_ok R (n\<lparr>net_fds := net_fds n - {x}\<rparr>)"
  by (auto simp: net_ok_def)

context tcp_client
begin

lemma inv_tc [simp]:
  "conn_inv base exact L I (C\<lparr>tc_lock := b\<rparr>) = conn_inv base exact L I C"
  "conn_inv base exact L I (C\<lparr>tc_state := s\<rparr>) = conn_inv base exact L I C"
  "callbacks_set onNew onDisc onMsg (C\<lparr>tc_lock := b\<rparr>) = callbacks_set onNew onDisc onMsg C"
  "callbacks_set onNew onDisc onMsg (C\<lparr>tc_state := s\<rparr>) = callbacks_set onNew onDisc onMsg C"
  "listener_closed (C\<lparr>tc_lock := b\<rparr>) = listener_closed C"
  by (simp_all add: conn_inv_def callbacks_set_def listener_closed_def)

text \<open>Stopping a controller in any state of its life leaves both threads joined or never started.\<close>

lemma stop_unlocked:
  assumes "inv C" and "life_ok base (C\<lparr>tc_lock := False\<rparr>)" and "accept_ok C ae" and "io_ok exact env e"
  shows "outcome tot (StopUnlocked L W ae e C) (\<lambda>C'. inv C' \<and> life_ok base (C'\<lparr>tc_lock := False\<rparr>) \<and> tc_state C' = SERVER_STATE_STOPPED
    \<and> tc_lock C' = tc_lock C \<and> (tc_state C = SERVER_STATE_RUNNING \<longrightarrow> listener_closed C'))"
proof (cases "tc_state C")
  case SERVER_STATE_STOPPED
  then show ?thesis using assms by (simp add: StopUnlocked_def)
next
  case SERVER_STATE_RUNNING
  obtain a h pt where ah: "tc_connectionAcceptor C = Some a" "tc_connectionHandler C = Some h"
      "distinct [ta_listenFd a, fst (th_wakeupPipe h), snd (th_wakeupPipe h)]"
      "{ta_listenFd a, fst (th_wakeupPipe h), snd (th_wakeupPipe h)} \<inter> base = {}"
      "ta_state a = ACCEPTOR_STATE_RUNNING" "ta_thread a \<in> {Worker At_Test, Worker In_Call}"
      "th_state h = HANDLER_STATE_RUNNING" "th_thread h = Worker pt"
    using assms(2) SERVER_STATE_RUNNING by (auto simp: life_ok_def)
  have "ta_listenFd a \<notin> base \<union> {fst (th_wakeupPipe h), snd (th_wakeupPipe h)}" using ah(3,4) by auto
  from acceptor_stop [OF assms(1) ah(1) assms(3) ah(2,5,6) this] obtain C1 ps where
    C1: "TcpConnectionAcceptor_Stop ae C = Some C1" "inv C1" "tc_connectionHandler C1 = Some (h\<lparr>th_pipe := th_pipe h @ ps\<rparr>)"
      "tc_connectionAcceptor C1 = Some (a\<lparr>ta_state := ACCEPTOR_STATE_STOPPED, ta_thread := Joined\<rparr>)"
      "tc_state C1 = tc_state C" "tc_lock C1 = tc_lock C" "ta_listenFd a \<notin> net_fds (tc_net C1)" by blast
  have "outcome tot (Option.bind (TcpConnectionHandler_Stop L W e C1) (\<lambda>C2. Some (C2\<lparr>tc_state := SERVER_STATE_STOPPED\<rparr>)))
      (\<lambda>C'. inv C' \<and> life_ok base (C'\<lparr>tc_lock := False\<rparr>) \<and> tc_state C' = SERVER_STATE_STOPPED \<and> tc_lock C' = tc_lock C
        \<and> listener_closed C')"
  proof (rule outcome_bind [OF handler_stop [OF C1(2) assms(4) C1(3), of pt]])
    fix C2 assume 2: "inv C2 \<and> (\<exists>h'. tc_connectionHandler C2 = Some h' \<and> th_thread h' = Joined \<and> th_state h' = HANDLER_STATE_STOPPED
        \<and> th_wakeupPipe h' = th_wakeupPipe (h\<lparr>th_pipe := th_pipe h @ ps\<rparr>))
      \<and> tc_connectionAcceptor C2 = tc_connectionAcceptor C1 \<and> tc_state C2 = tc_state C1 \<and> tc_lock C2 = tc_lock C1
      \<and> net_fds (tc_net C2) \<subseteq> net_fds (tc_net C1)"
    then have "life_ok base (C2\<lparr>tc_state := SERVER_STATE_STOPPED, tc_lock := False\<rparr>)"
      using ah(3,4) C1(4) by (auto simp: life_ok_def)
    with 2 C1 show "outcome tot (Some (C2\<lparr>tc_state := SERVER_STATE_STOPPED\<rparr>)) (\<lambda>C'. inv C' \<and> life_ok base (C'\<lparr>tc_lock := False\<rparr>)
      \<and> tc_state C' = SERVER_STATE_STOPPED \<and> tc_lock C' = tc_lock C \<and> listener_closed C')"
      by (auto simp: listener_closed_def)
  qed (use ah in simp_all)
  then show ?thesis using C1(1) SERVER_STATE_RUNNING by (simp add: StopUnlocked_def)
qed

lemma unlocked_life: "life_ok base C \<Longrightarrow> \<not> tc_lock C \<and> C\<lparr>tc_lock := False\<rparr> = C"
  by (auto simp: life_ok_def)

lemma stop:
  assumes "inv C" and "life_ok base C" and "accept_ok C ae" and "io_ok exact env e"
  shows "outcome tot (TcpServerController_Stop L W ae e (Some C)) (\<lambda>r. \<exists>C'. r = Some C' \<and> inv C' \<and> life_ok base C' \<and> tc_state C' = SERVER_STATE_STOPPED
    \<and> (tc_state C = SERVER_STATE_RUNNING \<longrightarrow> listener_closed C'))"
proof -
  let ?C1 = "C\<lparr>tc_lock := True\<rparr>"
  have u: "\<not> tc_lock C" "?C1\<lparr>tc_lock := False\<rparr> = C" using unlocked_life [OF assms(2)] by (auto intro!: TcpServerController.equality)
  have 1: "inv ?C1" "accept_ok ?C1 ae" using assms accept_ok_net [of ?C1 C] by simp_all
  have 2: "life_ok base (?C1\<lparr>tc_lock := False\<rparr>)" unfolding u(2) by (rule assms(2))
  have "outcome tot (Option.bind (StopUnlocked L W ae e ?C1) (\<lambda>C2. Some (Some (unlock C2)))) (\<lambda>r. \<exists>C'. r = Some C' \<and> inv C' \<and> life_ok base C'
      \<and> tc_state C' = SERVER_STATE_STOPPED \<and> (tc_state C = SERVER_STATE_RUNNING \<longrightarrow> listener_closed C'))"
    by (rule outcome_bind [OF stop_unlocked [OF 1(1) 2 1(2) assms(4)]]) (simp add: unlock_def)
  moreover have "unlock ?C1 = C" using u(2) by (simp only: unlock_def)
  ultimately show ?thesis using assms u(1)
    by (auto simp: TcpServerController_Stop_def lock_def)
qed

text \<open>
  The first start either runs both workers or, when a thread cannot be created, reports that and rolls
  back; the rollback always completes.
\<close>

text \<open>A start whose second thread cannot be created stops the first one again.\<close>

lemma start_without_handler:
  assumes "inv C" and "accept_ok C ae" and "tc_state C = SERVER_STATE_STOPPED"
    and ah: "tc_connectionAcceptor C = Some a" "tc_connectionHandler C = Some h" "\<not> tc_lock C"
      "distinct [ta_listenFd a, fst (th_wakeupPipe h), snd (th_wakeupPipe h)]"
      "{ta_listenFd a, fst (th_wakeupPipe h), snd (th_wakeupPipe h)} \<inter> base = {}" "ta_thread a = No_Thread" "th_thread h = No_Thread"
    and s: "ta_state a = ACCEPTOR_STATE_STOPPED" "th_state h = HANDLER_STATE_STOPPED"
  shows "\<exists>C'. TcpServerController_Start L W True False ae e (Some C) = Some (TCP_RESULT_THREAD_CREATION_FAILED, Some C') \<and> inv C' \<and> life_ok base C'
    \<and> tc_state C' = SERVER_STATE_STOPPED"
proof -
  let ?a = "a\<lparr>ta_state := ACCEPTOR_STATE_RUNNING, ta_thread := Worker At_Test\<rparr>"
  let ?C2 = "put_acceptor ?a (C\<lparr>tc_lock := True\<rparr>)"
  have i2: "inv ?C2" using assms(1) ah(1,6) by (simp add: conn_inv_def callbacks_set_def reserved_def)
  let ?C3 = "put_handler (h\<lparr>th_state := HANDLER_STATE_STOPPED\<rparr>) ?C2"
  have i3: "inv ?C3" and acc: "accept_ok ?C3 ae" using i2 ah(2) assms(2) accept_ok_net [of ?C3 C]
    by (auto simp: conn_inv_def callbacks_set_def)
  have a3: "tc_connectionAcceptor ?C3 = Some ?a" "tc_connectionHandler ?C3 = Some (h\<lparr>th_state := HANDLER_STATE_STOPPED\<rparr>)" by simp_all
  obtain C4 ps where C4: "TcpConnectionAcceptor_Stop ae ?C3 = Some C4" "inv C4"
      "tc_connectionHandler C4 = Some (h\<lparr>th_state := HANDLER_STATE_STOPPED, th_pipe := th_pipe h @ ps\<rparr>)"
      "tc_connectionAcceptor C4 = Some (?a\<lparr>ta_state := ACCEPTOR_STATE_STOPPED, ta_thread := Joined\<rparr>)"
      "tc_state C4 = SERVER_STATE_STOPPED"
    using acceptor_stop [OF i3 a3(1) acc a3(2)] ah(4,5) assms(3) by auto
  let ?C' = "unlock (put_handler (h\<lparr>th_pipe := th_pipe h @ ps, th_state := HANDLER_STATE_STOPPED\<rparr>) C4)"
  have "TcpServerController_Start L W True False ae e (Some C) = Some (TCP_RESULT_THREAD_CREATION_FAILED, Some ?C')"
    using ah s assms(3) C4(1,3) by (simp add: TcpServerController_Start_def lock_def TcpConnectionAcceptor_Start_def
        TcpConnectionHandler_Start_def TcpConnectionHandler_Stop_def)
  moreover have "h\<lparr>th_pipe := th_pipe h @ ps, th_state := HANDLER_STATE_STOPPED\<rparr> = h\<lparr>th_state := HANDLER_STATE_STOPPED, th_pipe := th_pipe h @ ps\<rparr>"
    by simp
  then have "inv ?C'" using C4(2,3) by (simp only: unlock_def conn_inv_def callbacks_set_def) simp
  moreover have "life_ok base ?C'" using ah(4,5,7) C4(4,5) by (simp add: life_ok_def unlock_def)
  ultimately show ?thesis using C4(5) by (auto simp: unlock_def)
qed

lemma start:
  assumes "inv C" and "life_ok base C" and "never_started C" and "accept_ok C ae"
  shows "\<exists>r C'. TcpServerController_Start L W acceptor_thread handler_thread ae e (Some C) = Some (r, Some C') \<and> inv C' \<and> life_ok base C'
    \<and> (if acceptor_thread \<and> handler_thread then r = TCP_RESULT_SUCCESS \<and> tc_state C' = SERVER_STATE_RUNNING
       else r = TCP_RESULT_THREAD_CREATION_FAILED \<and> tc_state C' = SERVER_STATE_STOPPED)"
proof -
  obtain a h where ah: "tc_connectionAcceptor C = Some a" "tc_connectionHandler C = Some h" "\<not> tc_lock C"
      "distinct [ta_listenFd a, fst (th_wakeupPipe h), snd (th_wakeupPipe h)]"
      "{ta_listenFd a, fst (th_wakeupPipe h), snd (th_wakeupPipe h)} \<inter> base = {}" "ta_thread a = No_Thread" "th_thread h = No_Thread"
    using assms(2,3) by (auto simp: life_ok_def never_started_def)
  have st: "tc_state C = SERVER_STATE_STOPPED"
    using assms(2) ah by (auto simp: life_ok_def split: ServerState.splits)
  then have s: "ta_state a = ACCEPTOR_STATE_STOPPED" "th_state h = HANDLER_STATE_STOPPED"
    using assms(2) ah by (auto simp: life_ok_def)
  let ?a = "a\<lparr>ta_state := ACCEPTOR_STATE_RUNNING, ta_thread := Worker At_Test\<rparr>"
  let ?h = "h\<lparr>th_state := HANDLER_STATE_RUNNING, th_thread := Worker At_Test\<rparr>"
  let ?C1 = "C\<lparr>tc_lock := True\<rparr>"
  let ?C2 = "put_acceptor ?a ?C1"
  have i2: "inv ?C2" using assms(1) ah(1,6) by (simp add: conn_inv_def callbacks_set_def reserved_def)
  consider "\<not> acceptor_thread" | "acceptor_thread" "\<not> handler_thread" | "acceptor_thread" "handler_thread" by blast
  then show ?thesis
  proof cases
    case 1
    let ?C' = "C\<lparr>tc_lock := False, tc_connectionAcceptor := Some (a\<lparr>ta_state := ACCEPTOR_STATE_STOPPED\<rparr>),
      tc_connectionHandler := Some (h\<lparr>th_state := HANDLER_STATE_STOPPED\<rparr>)\<rparr>"
    have "TcpServerController_Start L W acceptor_thread handler_thread ae e (Some C) = Some (TCP_RESULT_THREAD_CREATION_FAILED, Some ?C')"
      using 1 ah s st by (simp add: TcpServerController_Start_def lock_def TcpConnectionAcceptor_Start_def
          TcpConnectionAcceptor_Stop_def TcpConnectionHandler_Stop_def unlock_def)
    moreover have "inv ?C'" using assms(1) ah by (simp add: conn_inv_def callbacks_set_def reserved_def)
    moreover have "life_ok base ?C'" using ah st by (simp add: life_ok_def)
    ultimately show ?thesis using 1 st by auto
  next
    case 2
    then show ?thesis using start_without_handler [OF assms(1,4) st ah s, of e] st by auto
  next
    case 3
    let ?C' = "unlock ((put_handler ?h ?C2)\<lparr>tc_state := SERVER_STATE_RUNNING\<rparr>)"
    have "TcpServerController_Start L W acceptor_thread handler_thread ae e (Some C) = Some (TCP_RESULT_SUCCESS, Some ?C')"
      using 3 ah s st by (simp add: TcpServerController_Start_def lock_def TcpConnectionAcceptor_Start_def TcpConnectionHandler_Start_def)
    moreover have "inv ?C'" using i2 ah(2) by (auto simp: unlock_def conn_inv_def callbacks_set_def reserved_def)
    moreover have "life_ok base ?C'" using ah(4,5) by (simp add: life_ok_def unlock_def)
    ultimately show ?thesis using 3 by (auto simp: unlock_def)
  qed
qed

lemma created:
  assumes "TcpServerController_Create L W ce ae e null_context name ip port n = Some (Inr C)" and "create_ok ce n" and "net_fds n = base"
    and "TcpServerController_SetCallbacks (Some C) c (Some onNew) (Some onDisc) (Some onMsg) = Some (TCP_RESULT_SUCCESS, Some C')"
    and "I c {}"
  shows "inv C' \<and> life_ok base C' \<and> never_started C'"
proof -
  obtain db where db: "ListOk L db" "ListItems L db = []" and cr: "ListCreate L (ce_list ce) = None \<or> ListCreate L (ce_list ce) = Some db"
    using list_create list_create_fail by (metis (full_types))
  obtain r w where rw: "ce_pipe ce = Some (r, w)" "ListCreate L (ce_list ce) = Some db" "0 \<le> ce_socket ce" and C: "tc_connectionHandler C =
        Some \<lparr>th_thread = No_Thread, th_state = HANDLER_STATE_STOPPED, th_connectionsDB = db, th_maxFd = r, th_activeFdSet = {r},
              th_activeFdSetCopy = {}, th_wakeupPipe = (r, w), th_pipe = []\<rparr>"
      "tc_connectionAcceptor C = Some \<lparr>ta_thread = No_Thread, ta_listenFd = ce_socket ce, ta_state = ACCEPTOR_STATE_STOPPED\<rparr>"
      "tc_net C = open_fd w (open_fd r (open_fd (ce_socket ce) n))" "tc_state C = SERVER_STATE_STOPPED"
    using assms(1) cr
    by (auto simp: TcpServerController_Create_def TcpConnectionAcceptor_Create_def TcpConnectionHandler_Create_def Let_def
        split: if_splits option.splits bind_splits prod.splits)
  have f: "fd_set_index r" "0 \<le> w" "distinct [ce_socket ce, r, w]" "{ce_socket ce, r, w} \<inter> base = {}" "net_heap n = Map.empty"
    using assms(2,3) rw by (auto simp: create_ok_def)
  have C': "C' = C\<lparr>tc_lock := False, tc_callbackContext := c, tc_callbackNewConnection := Some onNew,
      tc_callbackDisconnect := Some onDisc, tc_callbackMessageReceived := Some onMsg\<rparr>"
    using assms(4) C(4) by (auto simp: TcpServerController_SetCallbacks_def lock_def unlock_def split: if_splits bind_splits)
  have R: "reserved C' = {ce_socket ce, r, w}" using C by (auto simp: C' reserved_def)
  have "net_ok (base \<union> reserved C') (tc_net C')" unfolding R using f assms(3) C(3)
    by (auto simp: C' net_ok_def open_fd_def fd_of_def)
  moreover have "handler_ok exact L (tc_net C') (the (tc_connectionHandler C'))" using C db f(5)
    by (auto simp: C' handler_ok_def piped_def registered_def open_fd_def fd_of_def)
  moreover have "registered (the (tc_connectionHandler C')) = {}" using C(1) by (simp add: C' registered_def)
  ultimately have "inv C'" using C assms(5) by (simp add: conn_inv_def callbacks_set_def C')
  moreover have "life_ok base C'" "never_started C'" using C f by (auto simp: life_ok_def never_started_def C')
  ultimately show ?thesis by blast
qed

lemma handler_loop_frame:
  assumes "inv C" and "io_ok exact env e" and "ClientHandlerIOLoop L W e C = Some C'" and "tc_connectionHandler C = Some h"
  shows "inv C'" and "\<exists>h'. tc_connectionHandler C' = Some h' \<and> th_state h' = th_state h \<and> th_wakeupPipe h' = th_wakeupPipe h
      \<and> ((\<exists>pt. th_thread h = Worker pt) \<longrightarrow> (\<exists>pt. th_thread h' = Worker pt))
      \<and> ((\<forall>pt. th_thread h \<noteq> Worker pt) \<longrightarrow> th_thread h' = th_thread h)"
    and "tc_connectionAcceptor C' = tc_connectionAcceptor C" and "tc_state C' = tc_state C" and "tc_lock C' = tc_lock C"
proof -
  show "inv C'" using handler_loop [OF assms(1,2)] assms(3) by simp
  have it: "handler_frame C C1" if "handler_iteration L W e C = Some (b, C1)" for b C1
    using handler_iteration [OF assms(1,2)] that by simp
  show "\<exists>h'. tc_connectionHandler C' = Some h' \<and> th_state h' = th_state h \<and> th_wakeupPipe h' = th_wakeupPipe h
      \<and> ((\<exists>pt. th_thread h = Worker pt) \<longrightarrow> (\<exists>pt. th_thread h' = Worker pt))
      \<and> ((\<forall>pt. th_thread h \<noteq> Worker pt) \<longrightarrow> th_thread h' = th_thread h)"
    "tc_connectionAcceptor C' = tc_connectionAcceptor C" "tc_state C' = tc_state C" "tc_lock C' = tc_lock C"
    using assms(3,4)
    by (auto simp: ClientHandlerIOLoop_def handler_frame_def dest!: it split: thread.splits worker_point.splits bind_splits)
qed

lemma io_step:
  assumes "inv C" and "life_ok base C" and "io_ok exact env e" and "ClientHandlerIOLoop L W e C = Some C'"
  shows "inv C' \<and> life_ok base C'"
proof -
  obtain a h where ah: "tc_connectionAcceptor C = Some a" "tc_connectionHandler C = Some h" using assms(2) by (auto simp: life_ok_def)
  note f = handler_loop_frame [OF assms(1,3,4) ah(2)]
  then obtain h' where h': "tc_connectionHandler C' = Some h'" "th_state h' = th_state h" "th_wakeupPipe h' = th_wakeupPipe h"
      "(\<exists>pt. th_thread h = Worker pt) \<longrightarrow> (\<exists>pt. th_thread h' = Worker pt)" "(\<forall>pt. th_thread h \<noteq> Worker pt) \<longrightarrow> th_thread h' = th_thread h"
    by blast
  have "life_ok base C'" using assms(2) ah f(3-5) h' by (auto simp: life_ok_def split: ServerState.splits)
  with f(1) show ?thesis by blast
qed

lemma accept_step:
  assumes "inv C" and "life_ok base C" and "accept_ok C ae"
  shows "\<exists>C'. TcpConnectionAcceptor_AcceptLoop ae C = Some C' \<and> inv C' \<and> life_ok base C'"
proof -
  obtain a h where ah: "tc_connectionAcceptor C = Some a" "tc_connectionHandler C = Some h" using assms(2) by (auto simp: life_ok_def)
  obtain C' ps t where C': "TcpConnectionAcceptor_AcceptLoop ae C = Some C'" "inv C'"
      "tc_connectionHandler C' = Some (h\<lparr>th_pipe := th_pipe h @ ps\<rparr>)" "tc_connectionAcceptor C' = Some (a\<lparr>ta_thread := t\<rparr>)"
      "tc_state C' = tc_state C" "tc_lock C' = tc_lock C" "acceptor_moves (ta_state a) (ta_thread a) t"
    using acceptor_loop [OF assms(1) ah(1) assms(3)] ah(2) by auto
  have "life_ok base C'" using assms(2) ah C'(3-7)
    by (auto simp: life_ok_def acceptor_moves_def split: ServerState.splits)
  with C' show ?thesis by blast
qed

lemma run_inv:
  assumes "tcp_run L W onNew onDisc onMsg Init env exact base C" and "\<And>c. Init c \<Longrightarrow> I c {}"
  shows "inv C \<and> life_ok base C"
  using assms(1)
proof (induction rule: tcp_run.induct)
  case (tr_create ce ae e null_context name ip port n C c C')
  then show ?case using created assms(2) by blast
next
  case (tr_start C ae acceptor_thread handler_thread e r C')
  then show ?case using start [of C ae acceptor_thread handler_thread e] by auto
next
  case (tr_accept C ae C')
  then show ?case using accept_step [of C ae] by auto
next
  case (tr_io C e C')
  then show ?case using io_step by blast
next
  case (tr_stop C ae e C')
  then show ?case using stop [of C ae e] by auto
next
  case (tr_set_callbacks C c f g k r C')
  moreover have "C' = C" using tr_set_callbacks(2,3) unlocked_life [of C] tr_set_callbacks.IH
    by (auto simp: TcpServerController_SetCallbacks_def lock_def unlock_def intro!: TcpServerController.equality)
  ultimately show ?case by simp
qed

text \<open>
  Destroying a controller closes everything it opened, with two exceptions: the listening
  descriptor of a controller that was never started, and the connections whose records are still in the pipe.
\<close>

lemma destroy_handler_stopped:
  assumes "inv C" and "tc_connectionHandler C = Some h" and "th_state h = HANDLER_STATE_STOPPED"
    and "reserved C = {fst (th_wakeupPipe h), snd (th_wakeupPipe h)} \<union> X"
    and "distinct [fst (th_wakeupPipe h), snd (th_wakeupPipe h)]" and "{fst (th_wakeupPipe h), snd (th_wakeupPipe h)} \<inter> (base \<union> X) = {}"
    and "tc_connectionHandler C' = Some h" and "tc_net C' = tc_net C"
  shows "\<exists>C2. TcpConnectionHandler_Destroy L W e C' = Some C2 \<and> net_ok (base \<union> X) (tc_net C2)
    \<and> net_heap (tc_net C2) = net_heap (tc_net C) |` (- set (listed L h))"
proof -
  let ?r = "fst (th_wakeupPipe h)" and ?w = "snd (th_wakeupPipe h)"
  have ok: "net_ok (base \<union> reserved C) (tc_net C)" "handler_ok exact L (tc_net C) h" using assms(1,2) by (auto simp: conn_inv_def)
  then have "distinct (listed L h)" "set (listed L h) \<subseteq> dom (net_heap (tc_net C))" by (auto simp: handler_ok_def)
  from destroy_records_list [OF ok(1) this] obtain n1 where
    n1: "destroy_records (listed L h) (tc_net C) = Some n1" "net_ok (base \<union> reserved C) n1"
      "net_heap n1 = net_heap (tc_net C) |` (- set (listed L h))" by blast
  have "net_ok (insert ?r (insert ?w (base \<union> X))) n1" using n1(2) unfolding assms(4) by (simp add: insert_commute)
  then have 2: "?r \<in> net_fds n1" "net_ok (insert ?w (base \<union> X)) (n1\<lparr>net_fds := net_fds n1 - {?r}\<rparr>)"
    using assms(5,6) by (auto intro!: net_ok_close simp: net_ok_def)
  then have 3: "?w \<in> net_fds n1 - {?r}" "net_ok (base \<union> X) (n1\<lparr>net_fds := net_fds n1 - {?r} - {?w}\<rparr>)"
    using net_ok_close [OF 2(2)] assms(6) by (auto simp: net_ok_def)
  have h: "h\<lparr>th_state := HANDLER_STATE_STOPPED\<rparr> = h" using assms(3) by simp
  show ?thesis using assms(3,7,8) n1 2 3
    by (intro exI [of _ "C'\<lparr>tc_connectionHandler := None, tc_net := n1\<lparr>net_fds := net_fds n1 - {?r} - {?w}\<rparr>\<rparr>"])
      (simp add: TcpConnectionHandler_Destroy_def TcpConnectionHandler_Stop_def)
qed

lemma destroy:
  assumes "inv C" and "life_ok base C" and "accept_ok C ae" and "io_ok exact env e"
    and "tc_state C = SERVER_STATE_RUNNING \<or> ta_thread (the (tc_connectionAcceptor C)) = Joined"
  shows "outcome tot (TcpServerController_Destroy L W ae e C)
    (\<lambda>C'. net_ok base (tc_net C') \<and> (\<exists>C2 h2. StopUnlocked L W ae e (C\<lparr>tc_lock := True\<rparr>) = Some C2 \<and> tc_connectionHandler C2 = Some h2
        \<and> (exact \<longrightarrow> dom (net_heap (tc_net C')) = set (piped h2))))"
proof -
  let ?C1 = "C\<lparr>tc_lock := True\<rparr>"
  have u: "\<not> tc_lock C" "?C1\<lparr>tc_lock := False\<rparr> = C" using unlocked_life [OF assms(2)] by (auto intro!: TcpServerController.equality)
  have 1: "inv ?C1" "accept_ok ?C1 ae" using assms accept_ok_net [of ?C1 C] by simp_all
  have l: "life_ok base (?C1\<lparr>tc_lock := False\<rparr>)" unfolding u(2) by (rule assms(2))
  have "outcome tot (Option.bind (StopUnlocked L W ae e ?C1) (\<lambda>C2. Option.bind (TcpConnectionAcceptor_Destroy ae C2)
      (\<lambda>C3. Option.bind (TcpConnectionHandler_Destroy L W e C3) (\<lambda>C4. Some (unlock C4)))))
    (\<lambda>C'. net_ok base (tc_net C') \<and> (\<exists>C2 h2. StopUnlocked L W ae e ?C1 = Some C2 \<and> tc_connectionHandler C2 = Some h2
        \<and> (exact \<longrightarrow> dom (net_heap (tc_net C')) = set (piped h2))))"
  proof (rule outcome_bind [OF stop_unlocked [OF 1(1) l 1(2) assms(4)]])
    fix C2 assume s: "StopUnlocked L W ae e ?C1 = Some C2"
      and "inv C2 \<and> life_ok base (C2\<lparr>tc_lock := False\<rparr>) \<and> tc_state C2 = SERVER_STATE_STOPPED \<and> tc_lock C2 = tc_lock ?C1
        \<and> (tc_state ?C1 = SERVER_STATE_RUNNING \<longrightarrow> listener_closed C2)"
    then have C2: "inv C2" "life_ok base (C2\<lparr>tc_lock := False\<rparr>)" "tc_state C2 = SERVER_STATE_STOPPED"
        "tc_state C = SERVER_STATE_RUNNING \<longrightarrow> ta_thread (the (tc_connectionAcceptor C2)) = Joined" by (auto simp: listener_closed_def)
    have "tc_state C \<noteq> SERVER_STATE_RUNNING \<Longrightarrow> C2 = ?C1" using s by (cases "tc_state C") (simp_all add: StopUnlocked_def)
    then have j: "ta_thread (the (tc_connectionAcceptor C2)) = Joined" using C2(4) assms(5) by auto
    obtain a h where ah: "tc_connectionAcceptor C2 = Some a" "tc_connectionHandler C2 = Some h" "ta_thread a = Joined"
        "ta_state a = ACCEPTOR_STATE_STOPPED" "th_state h = HANDLER_STATE_STOPPED"
        "distinct [fst (th_wakeupPipe h), snd (th_wakeupPipe h)]" "{fst (th_wakeupPipe h), snd (th_wakeupPipe h)} \<inter> base = {}"
      using C2(2,3) j by (auto simp: life_ok_def)
    let ?C3 = "C2\<lparr>tc_connectionAcceptor := None\<rparr>"
    have a3: "TcpConnectionAcceptor_Destroy ae C2 = Some ?C3" using ah(1,4)
      by (simp add: TcpConnectionAcceptor_Destroy_def TcpConnectionAcceptor_Stop_def)
    have R: "reserved C2 = {fst (th_wakeupPipe h), snd (th_wakeupPipe h)} \<union> {}" using ah(1-3) by (simp add: reserved_def)
    obtain C4 where C4: "TcpConnectionHandler_Destroy L W e ?C3 = Some C4" "net_ok base (tc_net C4)"
        "net_heap (tc_net C4) = net_heap (tc_net C2) |` (- set (listed L h))"
      using destroy_handler_stopped [OF C2(1) ah(2,5) R ah(6), of ?C3 e] ah(2,7) by auto
    have "handler_ok exact L (tc_net C2) h" using C2(1) ah(2) by (auto simp: conn_inv_def)
    then have "exact \<longrightarrow> dom (net_heap (tc_net C4)) = set (piped h)" unfolding C4(3) by (auto simp: handler_ok_def)
    with a3 C4(1,2) s ah(2) show "outcome tot (Option.bind (TcpConnectionAcceptor_Destroy ae C2)
        (\<lambda>C3. Option.bind (TcpConnectionHandler_Destroy L W e C3) (\<lambda>C4. Some (unlock C4))))
      (\<lambda>C'. net_ok base (tc_net C') \<and> (\<exists>C2 h2. StopUnlocked L W ae e ?C1 = Some C2 \<and> tc_connectionHandler C2 = Some h2
        \<and> (exact \<longrightarrow> dom (net_heap (tc_net C')) = set (piped h2))))"
      by (simp add: unlock_def)
  qed
  then show ?thesis using u(1) by (simp add: TcpServerController_Destroy_def lock_def)
qed

end

end
