(* ===== verification/Chat_Server.thy ===== *)
theory Chat_Server
  imports Server_Run Tcp_Run
begin

text \<open>
  The whole server: \<open>ServerManager.c\<close> as the owner of the TCP layer.  The C struct holds the two managers
  and the controller, and is itself the context of the callbacks; in the model the controller
  carries the context, so a \<open>ServerManager*\<close> is the controller with the managers (and the
  bytes sent so far) in \<open>tc_callbackContext\<close>, \<^term>\<open>None\<close> standing for the \<open>NULL\<close> context before
  \<open>SetCallbacks\<close>.

  \<open>server_main\<close> is \<open>main\<close> of \<open>serverMain.c\<close>.  The contract \<open>tcp_client\<close> is interpreted on the three callbacks: in every state of a run of the TCP
  layer the managers are in a state of a run of the server, and every session belongs to a
  registered connection.
\<close>

section \<open>Callbacks\<close>

type_synonym ('n, 'f, 'l, 'g) server_context = "(('n, 'f, 'l, 'g) ServerManager \<times> sends) option"

definition server_onNew :: "(server_env, ('n, 'f, 'l, 'g) server_context) record_callback" where
  "server_onNew E ctx rec = Some (map_option (\<lambda>(sm, out). (ServerManagerCallbackNewConnection sm rec, out)) ctx)"

definition server_onDisconnect ::
  "('n, 'f, 'l, 'i, 'g) server_lib \<Rightarrow> (server_env, ('n, 'f, 'l, 'g) server_context) record_callback" where
  "server_onDisconnect S E ctx rec = do {
     (sm, out) \<leftarrow> ctx;
     sm' \<leftarrow> ServerManagerCallbackDisconnect S E sm rec;
     Some (Some (sm', out))
   }"

definition server_onMessage ::
  "('n, 'f, 'l, 'i, 'g) server_lib \<Rightarrow> (server_env, ('n, 'f, 'l, 'g) server_context) message_callback" where
  "server_onMessage S E ctx rec bytes n = do {
     (sm, out) \<leftarrow> ctx;
     (sm', sends) \<leftarrow> ServerManagerCallbackRecv S E sm rec bytes n;
     Some (Some (sm', out @ sends))
   }"

section \<open>Life cycle\<close>

definition ServerManager_Create ::
  "('n, 'f, 'l, 'i, 'g) server_lib \<Rightarrow> ('d, 'j, nat) List_ops \<Rightarrow> ('d, 'j, nat) List_walk \<Rightarrow> mem \<Rightarrow> create_env \<Rightarrow> accept_env
     \<Rightarrow> server_env io_env \<Rightarrow> string \<Rightarrow> string \<Rightarrow> 16 word \<Rightarrow> net
     \<Rightarrow> (net + ('d, server_env, ('n, 'f, 'l, 'g) server_context) TcpServerController) option" where
  "ServerManager_Create S L W mem ce ae e a_serverName a_serverIp a_serverPort n =
     (if \<not> mem Alloc_ServerManager then Some (Inl n)
      else (case UserManager_Create (sl_users S) mem ServerManagerHashFunctionDJB2 ServerManagerEqualFunction of
              None \<Rightarrow> Some (Inl n)
            | Some um \<Rightarrow>
                (case GroupManager_Create (sl_groups S) mem ServerManagerHashFunctionDJB2 ServerManagerEqualFunction of
                   None \<Rightarrow> do { _ \<leftarrow> UserManager_Destroy (sl_users S) (Some um); Some (Inl n) }
                 | Some gm \<Rightarrow> do {
                     created \<leftarrow> TcpServerController_Create L W ce ae e None a_serverName a_serverIp a_serverPort n;
                     (case created of
                        Inl n1 \<Rightarrow> do {
                          _ \<leftarrow> GroupManager_Destroy (sl_groups S) (Some gm);
                          _ \<leftarrow> UserManager_Destroy (sl_users S) (Some um);
                          Some (Inl n1)
                        }
                      | Inr C \<Rightarrow> do {
                          (result, C1) \<leftarrow> TcpServerController_SetCallbacks (Some C)
                                           (Some (\<lparr>sm_userManager = um, sm_groupManager = gm\<rparr>, []))
                                           (Some server_onNew) (Some (server_onDisconnect S)) (Some (server_onMessage S));
                          if result \<noteq> TCP_RESULT_SUCCESS then Some (Inl (tc_net C))
                          else do { C2 \<leftarrow> C1; Some (Inr C2) }
                        })
                   })))"

definition ServerManager_Destroy ::
  "('n, 'f, 'l, 'i, 'g) server_lib \<Rightarrow> ('d, 'j, nat) List_ops \<Rightarrow> ('d, 'j, nat) List_walk \<Rightarrow> accept_env \<Rightarrow> server_env io_env
     \<Rightarrow> ('d, server_env, ('n, 'f, 'l, 'g) server_context) TcpServerController
     \<Rightarrow> (net \<times> group_block list \<times> user_block list) option" where
  "ServerManager_Destroy S L W ae e C = do {
     C1 \<leftarrow> TcpServerController_Destroy L W ae e C;
     (sm, out) \<leftarrow> tc_callbackContext C1;
     groups \<leftarrow> GroupManager_Destroy (sl_groups S) (Some (sm_groupManager sm));
     users \<leftarrow> UserManager_Destroy (sl_users S) (Some (sm_userManager sm));
     Some (tc_net C1, groups, users)
   }"

definition ServerManager_Start ::
  "('d, 'j, nat) List_ops \<Rightarrow> ('d, 'j, nat) List_walk \<Rightarrow> bool \<Rightarrow> bool \<Rightarrow> accept_env \<Rightarrow> server_env io_env
     \<Rightarrow> ('d, server_env, 'c) TcpServerController \<Rightarrow> (ServerResult \<times> ('d, server_env, 'c) TcpServerController option) option" where
  "ServerManager_Start L W acceptor_thread handler_thread ae e C = do {
     (result, C1) \<leftarrow> TcpServerController_Start L W acceptor_thread handler_thread ae e (Some C);
     Some (if result \<noteq> TCP_RESULT_SUCCESS then SERVER_RESULT_NETWORK_ERROR else SERVER_RESULT_SUCCESS, C1)
   }"

definition ServerManager_Stop ::
  "('d, 'j, nat) List_ops \<Rightarrow> ('d, 'j, nat) List_walk \<Rightarrow> accept_env \<Rightarrow> server_env io_env
     \<Rightarrow> ('d, server_env, 'c) TcpServerController option \<Rightarrow> (ServerResult \<times> ('d, server_env, 'c) TcpServerController option) option" where
  "ServerManager_Stop L W ae e a_manager =
     (case a_manager of
        None \<Rightarrow> Some (SERVER_RESULT_NULL_PTR, None)
      | Some C \<Rightarrow> do { C1 \<leftarrow> TcpServerController_Stop L W ae e (Some C); Some (SERVER_RESULT_SUCCESS, C1) })"

text \<open>
  \<open>serverMain.c\<close>.  While \<open>main\<close> waits in \<open>getchar\<close> the workers run: \<open>running\<close> gives the state in which the key is
  pressed, with the answers of the system during the calls that follow.  A stopped controller accepts nothing.
\<close>

definition server_main ::
  "('n, 'f, 'l, 'i, 'g) server_lib \<Rightarrow> ('d, 'j, nat) List_ops \<Rightarrow> ('d, 'j, nat) List_walk \<Rightarrow> mem \<Rightarrow> create_env \<Rightarrow> accept_env
     \<Rightarrow> server_env io_env \<Rightarrow> bool \<Rightarrow> bool
     \<Rightarrow> (('d, server_env, ('n, 'f, 'l, 'g) server_context) TcpServerController
          \<Rightarrow> ('d, server_env, ('n, 'f, 'l, 'g) server_context) TcpServerController \<times> accept_env \<times> server_env io_env)
     \<Rightarrow> net \<Rightarrow> (int \<times> net) option" where
  "server_main S L W mem ce ae e acceptor_thread handler_thread running n = do {
     created \<leftarrow> ServerManager_Create S L W mem ce ae e CONF_SERVER_NAME CONF_SERVER_IP CONF_SERVER_PORT n;
     (case created of
        Inl n1 \<Rightarrow> Some (1, n1)
      | Inr C \<Rightarrow> do {
          (result, started) \<leftarrow> ServerManager_Start L W acceptor_thread handler_thread ae e C;
          C1 \<leftarrow> started;
          if result \<noteq> SERVER_RESULT_SUCCESS then Some (1, tc_net C1)
          else do {
            let (C2, ae', e') = running C1;
            (_, stopped) \<leftarrow> ServerManager_Stop L W ae' e' (Some C2);
            C3 \<leftarrow> stopped;
            (n', _, _) \<leftarrow> ServerManager_Destroy S L W (ae'\<lparr>ae_accept := None\<rparr>) e' C3;
            Some (0, n')
          }
        })
   }"

section \<open>Sessions and connections\<close>

definition sessions :: "('n, 'f, 'l, 'i, 'g) server_lib \<Rightarrow> ('n, 'f, 'l, 'g) ServerManager \<Rightarrow> int \<rightharpoonup> string" where
  "sessions S sm = db_session (sv_users (sm_view S sm))"

text \<open>The context is in a state of a run and has sessions for registered connections only.\<close>

definition server_inv ::
  "('n, 'f, 'l, 'i, 'g) server_lib \<Rightarrow> bool \<Rightarrow> ('n, 'f, 'l, 'g) server_context \<Rightarrow> int set \<Rightarrow> bool" where
  "server_inv S exact ctx F \<longleftrightarrow> (\<exists>sm out. ctx = Some (sm, out) \<and> server_run S exact sm \<and> dom (sessions S sm) \<subseteq> F)"

definition server_env_ok :: "bool \<Rightarrow> server_env \<Rightarrow> bool" where
  "server_env_ok exact E \<longleftrightarrow> env_ok E \<and> (exact \<longrightarrow> env_mem E Alloc_ListNode)"

definition fresh_context :: "('n, 'f, 'l, 'i, 'g) server_lib \<Rightarrow> ('n, 'f, 'l, 'g) server_context \<Rightarrow> bool" where
  "fresh_context S ctx \<longleftrightarrow>
     (\<exists>um gm mem. UserManager_Create (sl_users S) mem ServerManagerHashFunctionDJB2 ServerManagerEqualFunction = Some um
        \<and> GroupManager_Create (sl_groups S) mem ServerManagerHashFunctionDJB2 ServerManagerEqualFunction = Some gm
        \<and> ctx = Some (\<lparr>sm_userManager = um, sm_groupManager = gm\<rparr>, []))"

context chat_server
begin

lemma message_sessions:
  assumes "server_run S exact sm" and "env_ok E" and "n \<le> length bytes"
    and "ServerManagerCallbackRecv S E sm rec bytes n = Some (sm', out)" and "fd \<noteq> m_fdConnection rec"
  shows "sessions S sm' fd = sessions S sm fd"
proof -
  have inv: "sm_rep S sm" "view_ok exact (sm_view S sm)" using run_invariant [OF assms(1)] by auto
  note rc = recv_cases [OF inv(1) assms(2) inv(2) assms(3), of rec]
  show ?thesis using assms(2,3)
  proof (cases rule: decoded_ok)
    case (rejected out' st)
    with rc assms(4) show ?thesis by (simp add: recv_outcome_def)
  next
    case (accepted msg)
    show ?thesis
    proof (cases "known_opcode (m_opcode msg)")
      case False
      with rc assms(4) accepted(1) show ?thesis by (simp add: recv_outcome_def)
    next
      case True
      then obtain req where req: "request_of msg = Some req"
        using rc assms(4) accepted(1) by (cases "request_of msg") (simp_all add: recv_outcome_def)
      then have "answers S E sm (m_fdConnection rec) req (Some (sm', out))"
        using rc assms(4) accepted(1) True by (simp add: recv_outcome_def split: if_splits)
      then obtain copied order status payload where
        "service (env_mem E) copied order (sm_view S sm) (m_fdConnection rec) req = (sm_view S sm', status, payload)"
        by (auto simp: answers_def)
      from service_frame(1) [OF view_okD(1) [OF inv(2)] assms(5) this] show ?thesis by (simp add: sessions_def)
    qed
  qed
qed

lemma disconnect_sessions:
  assumes "server_run S exact sm"
  shows "\<exists>sm'. ServerManagerCallbackDisconnect S E sm rec = Some sm' \<and> server_run S exact sm'
    \<and> dom (sessions S sm') = dom (sessions S sm) - {m_fdConnection rec}"
proof -
  have "sm_rep S sm" using run_invariant [OF assms] by auto
  then obtain sm' where c: "ServerManager_CleanupSession S E sm rec = Some sm'"
      "sm_view S sm' = end_session (sm_view S sm) (m_fdConnection rec)"
    using cleanup_session by blast
  have "server_run S exact sm'" using run_disconnect [OF assms] c(1) by (auto simp: ServerManagerCallbackDisconnect_def)
  moreover have "dom (sessions S sm') = dom (sessions S sm) - {m_fdConnection rec}"
    unfolding sessions_def c(2) by (auto simp: end_session_def spec_logout_def split: option.splits)
  ultimately show ?thesis using c(1) by (auto simp: ServerManagerCallbackDisconnect_def)
qed

text \<open>The callbacks of the server keep the contract of the TCP layer.\<close>

lemma server_tcp_client:
  assumes "dlist_walk L W"
  shows "tcp_client L W server_onNew (server_onDisconnect S) (server_onMessage S) (server_inv S exact) (server_env_ok exact) False"
proof (rule tcp_client.intro [OF assms], unfold_locales)
  fix c F E rec
  assume inv: "server_inv S exact c F" and env: "server_env_ok exact E"
  then obtain sm out where c: "c = Some (sm, out)" "server_run S exact sm" "dom (sessions S sm) \<subseteq> F" by (auto simp: server_inv_def)
  show "outcome False (server_onNew E c rec) (\<lambda>c'. server_inv S exact c' (insert (m_fdConnection rec) F))"
    using c by (auto simp: server_onNew_def server_inv_def ServerManagerCallbackNewConnection_def)
  show "outcome False (server_onDisconnect S E c rec) (\<lambda>c'. server_inv S exact c' (F - {m_fdConnection rec}))"
  proof -
    obtain sm' where "ServerManagerCallbackDisconnect S E sm rec = Some sm'" "server_run S exact sm'"
        "dom (sessions S sm') = dom (sessions S sm) - {m_fdConnection rec}"
      using disconnect_sessions [OF c(2)] by blast
    moreover from this(3) have "dom (sessions S sm') \<subseteq> F - {m_fdConnection rec}" using c(3) by blast
    ultimately show ?thesis by (simp add: server_onDisconnect_def server_inv_def c(1))
  qed
  fix n and buf :: string
  assume fd: "m_fdConnection rec \<in> F" and n: "n \<le> length buf"
  show "outcome False (server_onMessage S E c rec buf n) (\<lambda>c'. server_inv S exact c' F)"
  proof (cases "ServerManagerCallbackRecv S E sm rec buf n")
    case None
    then show ?thesis by (simp add: server_onMessage_def c(1))
  next
    case (Some r)
    then obtain sm' o' where r: "ServerManagerCallbackRecv S E sm rec buf n = Some (sm', o')" by (cases r) auto
    have e: "env_ok E" "exact \<longrightarrow> env_mem E Alloc_ListNode" using env by (simp_all add: server_env_ok_def)
    have "server_run S exact sm'" using run_recv [OF c(2) e n r] .
    moreover have "dom (sessions S sm') \<subseteq> F"
    proof
      fix x assume "x \<in> dom (sessions S sm')"
      then have "x = m_fdConnection rec \<or> x \<in> dom (sessions S sm)"
        using message_sessions [OF c(2) e(1) n r, of x] by (metis domIff)
      then show "x \<in> F" using c(3) fd by auto
    qed
    ultimately show ?thesis using r by (simp add: server_onMessage_def server_inv_def c(1))
  qed
qed

lemma fresh_context_inv: "fresh_context S ctx \<Longrightarrow> server_inv S exact ctx {}"
proof -
  assume "fresh_context S ctx"
  then obtain um gm mem where f: "UserManager_Create (sl_users S) mem ServerManagerHashFunctionDJB2 ServerManagerEqualFunction = Some um"
      "GroupManager_Create (sl_groups S) mem ServerManagerHashFunctionDJB2 ServerManagerEqualFunction = Some gm"
      "ctx = Some (\<lparr>sm_userManager = um, sm_groupManager = gm\<rparr>, [])"
    by (auto simp: fresh_context_def)
  have "server_run S exact \<lparr>sm_userManager = um, sm_groupManager = gm\<rparr>" using run_create [OF f(1,2)] .
  then show ?thesis using f(3) created_ok(2) [OF f(1,2)] by (simp add: server_inv_def sessions_def empty_view_def db_empty_def)
qed

text \<open>\<open>ServerManager_Create\<close> yields a controller that is ready to run.\<close>

lemma server_created:
  assumes "dlist_walk L W" and "ServerManager_Create S L W mem ce ae e name ip port n = Some (Inr C)" and "create_ok ce n"
  shows "tcp_run L W server_onNew (server_onDisconnect S) (server_onMessage S) (fresh_context S) env exact (net_fds n) C \<and> never_started C"
proof -
  obtain um gm C0 C1 where f: "UserManager_Create (sl_users S) mem ServerManagerHashFunctionDJB2 ServerManagerEqualFunction = Some um"
      "GroupManager_Create (sl_groups S) mem ServerManagerHashFunctionDJB2 ServerManagerEqualFunction = Some gm"
    and C: "TcpServerController_Create L W ce ae e None name ip port n = Some (Inr C0)"
      "TcpServerController_SetCallbacks (Some C0) (Some (\<lparr>sm_userManager = um, sm_groupManager = gm\<rparr>, []))
        (Some server_onNew) (Some (server_onDisconnect S)) (Some (server_onMessage S)) = Some (TCP_RESULT_SUCCESS, Some C)"
    using assms(2) by (auto simp: ServerManager_Create_def split: if_splits option.splits sum.splits bind_splits)
  have c: "fresh_context S (Some (\<lparr>sm_userManager = um, sm_groupManager = gm\<rparr>, []))" using f by (auto simp: fresh_context_def)
  from tcp_client.created [OF server_tcp_client [OF assms(1)] C(1) assms(3) refl C(2) fresh_context_inv [OF c]]
  have "never_started C" by blast
  moreover have "tcp_run L W server_onNew (server_onDisconnect S) (server_onMessage S) (fresh_context S) env exact (net_fds n) C"
    by (rule tr_create [OF C(1) assms(3) refl C(2)]) (rule c)
  ultimately show ?thesis by blast
qed

text \<open>
  When \<open>main\<close> returns 0, everything the server opened is closed, apart from connections that were still
  on their way to the handler.
\<close>

lemma server_main_exit:
  assumes "dlist_walk L W" and "create_ok ce n"
    and accept: "\<And>C. tcp_run L W server_onNew (server_onDisconnect S) (server_onMessage S) (fresh_context S) (server_env_ok exact) exact (net_fds n) C \<Longrightarrow>
        accept_ok C ae"
    and run: "\<And>C. tcp_run L W server_onNew (server_onDisconnect S) (server_onMessage S) (fresh_context S) (server_env_ok exact) exact (net_fds n) C \<Longrightarrow>
        (case running C of (C', ae', e') \<Rightarrow>
           tcp_run L W server_onNew (server_onDisconnect S) (server_onMessage S) (fresh_context S) (server_env_ok exact) exact (net_fds n) C'
           \<and> tc_state C' = SERVER_STATE_RUNNING \<and> accept_ok C' ae' \<and> io_ok exact (server_env_ok exact) e')"
    and "server_main S L W mem ce ae e acceptor_thread handler_thread running n = Some (rc, n')"
  shows "rc = 1 \<or> rc = 0 \<and> net_ok (net_fds n) n'"
proof -
  let ?run = "tcp_run L W server_onNew (server_onDisconnect S) (server_onMessage S) (fresh_context S) (server_env_ok exact) exact (net_fds n)"
  note cl = server_tcp_client [OF assms(1), of exact]
  show ?thesis
  proof (cases "rc = 1")
    case False
    obtain C C1 C2 ae' e' C3 x gs us where
      c: "ServerManager_Create S L W mem ce ae e CONF_SERVER_NAME CONF_SERVER_IP CONF_SERVER_PORT n = Some (Inr C)"
        "ServerManager_Start L W acceptor_thread handler_thread ae e C = Some (SERVER_RESULT_SUCCESS, Some C1)"
        "running C1 = (C2, ae', e')" "ServerManager_Stop L W ae' e' (Some C2) = Some (x, Some C3)"
        "ServerManager_Destroy S L W (ae'\<lparr>ae_accept := None\<rparr>) e' C3 = Some (n', gs, us)" "rc = 0"
      using assms(5) False
      by (auto simp: server_main_def Let_def split: Option.bind_splits sum.splits if_splits prod.splits)
    have C: "?run C" "never_started C" using server_created [OF assms(1) c(1) assms(2)] by blast+
    have "TcpServerController_Start L W acceptor_thread handler_thread ae e (Some C) = Some (TCP_RESULT_SUCCESS, Some C1)"
      using c(2) by (auto simp: ServerManager_Start_def split: Option.bind_splits if_splits)
    then have "?run C1" by (rule tr_start [OF C accept [OF C(1)]])
    from run [OF this] have C2: "?run C2" "tc_state C2 = SERVER_STATE_RUNNING" "accept_ok C2 ae'" "io_ok exact (server_env_ok exact) e'"
      by (auto simp: c(3))
    have inv: "conn_inv (net_fds n) exact L (server_inv S exact) C2 \<and> callbacks_set server_onNew (server_onDisconnect S) (server_onMessage S) C2" "life_ok (net_fds n) C2"
      using tcp_client.run_inv [OF cl C2(1)] fresh_context_inv by blast+
    have "TcpServerController_Stop L W ae' e' (Some C2) = Some (Some C3)"
      using c(4) by (auto simp: ServerManager_Stop_def split: Option.bind_splits)
    with tcp_client.stop [OF cl inv C2(3,4)] C2(2)
    have C3: "conn_inv (net_fds n) exact L (server_inv S exact) C3 \<and> callbacks_set server_onNew (server_onDisconnect S) (server_onMessage S) C3"
        "life_ok (net_fds n) C3" "ta_thread (the (tc_connectionAcceptor C3)) = Joined" by (auto simp: listener_closed_def)
    have "accept_ok C3 (ae'\<lparr>ae_accept := None\<rparr>)" using C2(3) by (simp add: accept_ok_def)
    from tcp_client.destroy [OF cl C3(1,2) this C2(4)] C3(3) c(5) have "net_ok (net_fds n) n'"
      by (auto simp: ServerManager_Destroy_def split: Option.bind_splits)
    with c(6) show ?thesis by simp
  qed simp
qed

end

end
