(* ===== verification/Tcp_Properties.thy ===== *)
theory Tcp_Properties
  imports Chat_Server Reference_Server
begin

text \<open>
  What the TCP layer guarantees to any owner of its callbacks, and what it means for the chat server
  on top of it.
\<close>

section \<open>A reference controller\<close>

definition ref_net :: net where
  "ref_net = \<lparr>net_heap = Map.empty, net_next = 0, net_fds = {0, 1, 2}\<rparr>"

definition ref_create_env :: create_env where
  "ref_create_env = \<lparr>ce_controller = True, ce_name = True, ce_mutex = True, ce_acceptor = True, ce_socket = 3,
     ce_setsockopt = True, ce_bind = (\<lambda>ip port. True), ce_listen = True, ce_handler = True, ce_list = True, ce_pipe = Some (4, 5)\<rparr>"

definition ref_accept :: accept_env where
  "ref_accept = \<lparr>ae_accept = Some (6, 16777343, 40000), ae_ipBuffer = replicate INET_ADDRSTRLEN NUL, ae_mem = True, ae_written = sizeof_pointer\<rparr>"

definition ref_io :: "'e \<Rightarrow> int list \<Rightarrow> 'e io_env" where
  "ref_io e ready = \<lparr>io_select = Some ready, io_eintr = False, io_read = True, io_node = True, io_recv = (\<lambda>fd. (0, '''')), io_callback = (\<lambda>fd. e)\<rparr>"

lemmas ref_tcp_defs = ref_net_def ref_create_env_def ref_accept_def ref_io_def

lemma ref_create_ok: "create_ok ref_create_env ref_net"
  by (simp add: create_ok_def ref_tcp_defs fd_set_index_def FD_SETSIZE_def)

lemma ref_io_ok: "io_ok exact (\<lambda>e. True) (ref_io e ready)"
  by (simp add: io_ok_def ref_io_def)

section \<open>Callbacks that always return\<close>

definition total_callbacks ::
  "('e, 'c) record_callback \<Rightarrow> ('e, 'c) record_callback \<Rightarrow> ('e, 'c) message_callback \<Rightarrow> bool" where
  "total_callbacks onNew onDisc onMsg \<longleftrightarrow>
     (\<forall>e c rec. onNew e c rec \<noteq> None \<and> onDisc e c rec \<noteq> None \<and> (\<forall>bytes n. onMsg e c rec bytes n \<noteq> None))"

lemma total_tcp_client:
  assumes "dlist_walk L W" and "total_callbacks onNew onDisc onMsg"
  shows "tcp_client L W onNew onDisc onMsg (\<lambda>c F. True) (\<lambda>e. True) True"
  by (rule tcp_client.intro [OF assms(1)], unfold_locales)
    (use assms(2) in \<open>auto simp: total_callbacks_def outcome_def split: option.split\<close>)

section \<open>Order of the callbacks\<close>

datatype tcp_event = Ev_New int | Ev_Message int | Ev_Disconnect int

text \<open>
  The protocol of the callbacks, per descriptor: connected, then messages, then disconnected, after which
  the number may be used again.  A descriptor too large for an \<open>fd_set\<close> is disconnected without having been connected.
\<close>

fun replay :: "tcp_event list \<Rightarrow> int set \<Rightarrow> int set option" where
  "replay [] F = Some F"
| "replay (Ev_New fd # es) F = (if fd \<in> F then None else replay es (insert fd F))"
| "replay (Ev_Message fd # es) F = (if fd \<in> F then replay es F else None)"
| "replay (Ev_Disconnect fd # es) F =
     (if fd \<in> F \<or> fd \<ge> FD_SETSIZE then replay es (F - {fd}) else None)"

definition log_new :: "('e, tcp_event list) record_callback" where
  "log_new e log rec = Some (log @ [Ev_New (m_fdConnection rec)])"

definition log_disconnect :: "('e, tcp_event list) record_callback" where
  "log_disconnect e log rec = Some (log @ [Ev_Disconnect (m_fdConnection rec)])"

definition log_message :: "('e, tcp_event list) message_callback" where
  "log_message e log rec bytes n = Some (log @ [Ev_Message (m_fdConnection rec)])"

lemma replay_append: "replay (xs @ ys) F = Option.bind (replay xs F) (replay ys)"
  by (induction xs F rule: replay.induct) auto

lemma log_tcp_client:
  "dlist_walk L W \<Longrightarrow> tcp_client L W log_new log_disconnect log_message (\<lambda>log F. replay log {} = Some F) (\<lambda>e. True) True"
  by (rule tcp_client.intro, assumption, unfold_locales)
    (auto simp: log_new_def log_disconnect_def log_message_def replay_append)

interpretation logging: tcp_client node_ops node_walk log_new log_disconnect log_message
  "\<lambda>log F. replay log {} = Some F" "\<lambda>e. True" True exact base for exact base
  by (rule log_tcp_client [OF nodes.dlist_walk_axioms])

interpretation serving: tcp_client node_ops node_walk server_onNew "server_onDisconnect ref_lib" "server_onMessage ref_lib"
  "server_inv ref_lib exact" "server_env_ok exact" False exact base for exact base
  by (rule chat_server.server_tcp_client [OF ref_server.chat_server_axioms nodes.dlist_walk_axioms])

text \<open>The reference controller after its creation and after its start.\<close>

definition ref_created ::
  "('e, 'c) record_callback \<Rightarrow> ('e, 'c) record_callback \<Rightarrow> ('e, 'c) message_callback \<Rightarrow> 'c
     \<Rightarrow> (nat node_list, 'e, 'c) TcpServerController" where
  "ref_created onNew onDisc onMsg c =
     \<lparr>tc_name = ''chat'',
      tc_connectionAcceptor = Some \<lparr>ta_thread = No_Thread, ta_listenFd = 3, ta_state = ACCEPTOR_STATE_STOPPED\<rparr>,
      tc_connectionHandler = Some \<lparr>th_thread = No_Thread, th_state = HANDLER_STATE_STOPPED,
        th_connectionsDB = \<lparr>nl_nodes = [], nl_next = 1\<rparr>, th_maxFd = 4, th_activeFdSet = {4}, th_activeFdSetCopy = {},
        th_wakeupPipe = (4, 5), th_pipe = []\<rparr>,
      tc_ip = network_convert_ip_p_to_n (Some ''127.0.0.1''), tc_port = 8080, tc_state = SERVER_STATE_STOPPED, tc_lock = False,
      tc_callbackContext = c, tc_callbackNewConnection = Some onNew, tc_callbackDisconnect = Some onDisc,
      tc_callbackMessageReceived = Some onMsg, tc_net = open_fd 5 (open_fd 4 (open_fd 3 ref_net))\<rparr>"

definition ref_started ::
  "('e, 'c) record_callback \<Rightarrow> ('e, 'c) record_callback \<Rightarrow> ('e, 'c) message_callback \<Rightarrow> 'c
     \<Rightarrow> (nat node_list, 'e, 'c) TcpServerController" where
  "ref_started onNew onDisc onMsg c =
     (ref_created onNew onDisc onMsg c)
       \<lparr>tc_connectionAcceptor := Some \<lparr>ta_thread = Worker At_Test, ta_listenFd = 3, ta_state = ACCEPTOR_STATE_RUNNING\<rparr>,
        tc_connectionHandler := Some \<lparr>th_thread = Worker At_Test, th_state = HANDLER_STATE_RUNNING,
          th_connectionsDB = \<lparr>nl_nodes = [], nl_next = 1\<rparr>, th_maxFd = 4, th_activeFdSet = {4}, th_activeFdSetCopy = {},
          th_wakeupPipe = (4, 5), th_pipe = []\<rparr>,
        tc_state := SERVER_STATE_RUNNING\<rparr>"

lemma ref_created_run:
  assumes "Init c"
  shows "tcp_run node_ops node_walk onNew onDisc onMsg Init env exact {0, 1, 2} (ref_created onNew onDisc onMsg c)"
proof (rule tr_create [where Init = Init and c = c, OF _ ref_create_ok _ _ assms])
  show "TcpServerController_Create node_ops node_walk ref_create_env ref_accept (ref_io e []) null_context ''chat'' ''127.0.0.1'' 8080 ref_net
      = Some (Inr ((ref_created onNew onDisc onMsg c)\<lparr>tc_callbackContext := null_context, tc_callbackNewConnection := None,
          tc_callbackDisconnect := None, tc_callbackMessageReceived := None\<rparr>))" for e null_context
    by (simp add: TcpServerController_Create_def TcpConnectionAcceptor_Create_def TcpConnectionHandler_Create_def
        networkCopyString_def ref_create_env_def node_ops_def fd_set_index_def FD_SETSIZE_def ref_created_def)
qed (simp_all add: ref_net_def ref_created_def TcpServerController_SetCallbacks_def lock_def unlock_def)

lemma ref_started_run:
  assumes "Init c"
  shows "tcp_run node_ops node_walk onNew onDisc onMsg Init env exact {0, 1, 2} (ref_started onNew onDisc onMsg c)"
proof (rule tr_start [OF ref_created_run [where Init = Init and c = c, OF assms]])
  show "accept_ok (ref_created onNew onDisc onMsg c) ref_accept"
    by (simp add: accept_ok_def ref_created_def ref_accept_def ref_net_def open_fd_def)
  show "TcpServerController_Start node_ops node_walk True True ref_accept (ref_io e []) (Some (ref_created onNew onDisc onMsg c))
      = Some (TCP_RESULT_SUCCESS, Some (ref_started onNew onDisc onMsg c))" for e
    by (simp add: TcpServerController_Start_def TcpConnectionAcceptor_Start_def TcpConnectionHandler_Start_def
        lock_def unlock_def ref_created_def ref_started_def)
qed (simp add: never_started_def ref_created_def)

lemma ref_started_accept: "accept_ok (ref_started onNew onDisc onMsg c) ref_accept" "tc_state (ref_started onNew onDisc onMsg c) = SERVER_STATE_RUNNING"
  by (simp_all add: accept_ok_def ref_started_def ref_created_def ref_accept_def ref_net_def open_fd_def)

lemma log_total: "total_callbacks log_new log_disconnect log_message"
  by (simp add: total_callbacks_def log_new_def log_disconnect_def log_message_def)

abbreviation log_started :: "(nat node_list, unit, tcp_event list) TcpServerController" where
  "log_started \<equiv> ref_started log_new log_disconnect log_message []"

lemma log_started_run:
  "tcp_run node_ops node_walk log_new log_disconnect log_message (\<lambda>log. log = []) (\<lambda>e. True) exact {0, 1, 2} log_started"
  by (rule ref_started_run) simp

section \<open>Properties of the layer\<close>









text \<open>
  C36. A controller cannot be restarted.  \<open>Stop\<close> closes the listening descriptor and nothing opens it again, so
  after a stop a second start reports success although its acceptor can accept nothing, and the stop that
  follows closes the descriptor a second time.
\<close>

theorem restart_closes_twice:
  assumes "dlist_walk L W" and "total_callbacks onNew onDisc onMsg"
    and "tcp_run L W onNew onDisc onMsg Init (\<lambda>e. True) exact base C" and "tc_state C = SERVER_STATE_RUNNING"
    and "accept_ok C ae" and "io_ok exact (\<lambda>e. True) e"
    and "TcpServerController_Stop L W ae e (Some C) = Some (Some C1)"
  shows "\<exists>C2. TcpServerController_Start L W True True ae' e' (Some C1) = Some (TCP_RESULT_SUCCESS, Some C2)
    \<and> tc_state C2 = SERVER_STATE_RUNNING \<and> TcpServerController_Stop L W ae'' e'' (Some C2) = None"
proof -
  note cl = total_tcp_client [OF assms(1,2)]
  have inv: "conn_inv base exact L (\<lambda>c F. True) C \<and> callbacks_set onNew onDisc onMsg C" "life_ok base C"
    using tcp_client.run_inv [OF cl assms(3)] by auto
  have C1: "life_ok base C1" "tc_state C1 = SERVER_STATE_STOPPED" "listener_closed C1"
    using tcp_client.stop [OF cl inv assms(5,6)] assms(4,7) by auto
  then obtain a h where ah: "tc_connectionAcceptor C1 = Some a" "tc_connectionHandler C1 = Some h" "\<not> tc_lock C1"
      "ta_state a = ACCEPTOR_STATE_STOPPED" "th_state h = HANDLER_STATE_STOPPED" "ta_listenFd a \<notin> net_fds (tc_net C1)"
    by (auto simp: life_ok_def listener_closed_def)
  let ?a = "a\<lparr>ta_state := ACCEPTOR_STATE_RUNNING, ta_thread := Worker At_Test\<rparr>"
  let ?h = "h\<lparr>th_state := HANDLER_STATE_RUNNING, th_thread := Worker At_Test\<rparr>"
  let ?C2 = "C1\<lparr>tc_lock := False, tc_state := SERVER_STATE_RUNNING, tc_connectionAcceptor := Some ?a, tc_connectionHandler := Some ?h\<rparr>"
  have "TcpServerController_Start L W True True ae' e' (Some C1) = Some (TCP_RESULT_SUCCESS, Some ?C2)"
    using ah C1(2) by (simp add: TcpServerController_Start_def lock_def unlock_def TcpConnectionAcceptor_Start_def TcpConnectionHandler_Start_def)
  moreover have "TcpServerController_Stop L W ae'' e'' (Some ?C2) = None"
    using ah(6) by (simp add: TcpServerController_Stop_def lock_def StopUnlocked_def TcpConnectionAcceptor_Stop_def
        join_acceptor_def TcpConnectionAcceptor_AcceptLoop_def acceptor_at_def close_fd_def)
  ultimately show ?thesis by (intro exI [of _ ?C2]) simp
qed

theorem restart_closes_twice_witness:
  "\<exists>C1 C2. TcpServerController_Stop node_ops node_walk ref_accept (ref_io () [4]) (Some log_started) = Some (Some C1)
     \<and> TcpServerController_Start node_ops node_walk True True ref_accept (ref_io () []) (Some C1) = Some (TCP_RESULT_SUCCESS, Some C2)
     \<and> TcpServerController_Stop node_ops node_walk ref_accept (ref_io () []) (Some C2) = None"
proof -
  obtain C1 where s: "TcpServerController_Stop node_ops node_walk ref_accept (ref_io () [4]) (Some log_started) = Some (Some C1)"
  proof -
    have "conn_inv {0, 1, 2} True node_ops (\<lambda>log F. replay log {} = Some F) log_started
        \<and> callbacks_set log_new log_disconnect log_message log_started" "life_ok {0, 1, 2} log_started"
      using logging.run_inv [OF log_started_run [of True]] by auto
    from logging.stop [OF this ref_started_accept(1) ref_io_ok [of _ "()" "[4]"]] that show ?thesis
      by (cases "TcpServerController_Stop node_ops node_walk ref_accept (ref_io () [4]) (Some log_started)") auto
  qed
  from restart_closes_twice [OF nodes.dlist_walk_axioms log_total log_started_run [of True] ref_started_accept(2,1) ref_io_ok [of _ "()" "[4]"] s]
  show ?thesis using s by blast
qed

section \<open>The chat server on the layer\<close>

text \<open>
  C16. Sessions belong to connections.  In every state of a run of the whole server, with any interleaving of its
  threads, the managers are in a state of a run of the message handlers and every session belongs to a connection that is
  registered with the handler: no session outlives its connection.
\<close>

theorem sessions_have_connections:
  assumes "chat_server S" and "dlist_walk L W"
    and "tcp_run L W server_onNew (server_onDisconnect S) (server_onMessage S) (fresh_context S) (server_env_ok exact) exact base C"
  shows "\<exists>h sm out. tc_connectionHandler C = Some h \<and> tc_callbackContext C = Some (sm, out) \<and> server_run S exact sm
    \<and> dom (sessions S sm) \<subseteq> registered h
    \<and> (\<forall>fd \<in> registered h. \<exists>rec. rec \<in> ran (net_heap (tc_net C)) \<and> m_fdConnection rec = fd)"
proof -
  note cl = chat_server.server_tcp_client [OF assms(1,2), of exact]
  have "conn_inv base exact L (server_inv S exact) C"
    using tcp_client.run_inv [OF cl assms(3)] chat_server.fresh_context_inv [OF assms(1)] by blast
  then obtain h where h: "tc_connectionHandler C = Some h" "handler_ok exact L (tc_net C) h" "server_inv S exact (tc_callbackContext C) (registered h)"
    by (auto simp: conn_inv_def)
  have "\<exists>rec. rec \<in> ran (net_heap (tc_net C)) \<and> m_fdConnection rec = fd" if "fd \<in> registered h" for fd
    using h(2) that by (fastforce simp: handler_ok_def fd_of_Some ran_def)
  with h(1,3) show ?thesis by (auto simp: server_inv_def)
qed

lemma ref_context: "fresh_context ref_lib (Some (fresh_server, []))"
  unfolding fresh_context_def fresh_server_def
  using fresh_users_created fresh_groups_created by (auto simp: ref_lib_def)

abbreviation ref_running where
  "ref_running \<equiv> ref_started server_onNew (server_onDisconnect ref_lib) (server_onMessage ref_lib) (Some (fresh_server, []))"

theorem sessions_have_connections_witness:
  "\<exists>h. tc_connectionHandler ref_running = Some h \<and> dom (sessions ref_lib fresh_server) \<subseteq> registered h"
  using sessions_have_connections [OF ref_server.chat_server_axioms nodes.dlist_walk_axioms
      ref_started_run [where Init = "fresh_context ref_lib", OF ref_context, where exact = True]]
  by (auto simp: ref_started_def ref_created_def)

text \<open>
  C29. A new connection starts without a session.  While a connection waits in the pipe to be registered its
  descriptor has no session, although the number may have been used by an earlier client; so nobody inherits
  the session of a client that has gone.
\<close>

theorem new_connection_anonymous:
  assumes "chat_server S" and "dlist_walk L W"
    and "tcp_run L W server_onNew (server_onDisconnect S) (server_onMessage S) (fresh_context S) (server_env_ok exact) exact base C"
    and "tc_connectionHandler C = Some h" and "p \<in> set (piped h)" and "net_heap (tc_net C) p = Some rec"
    and "tc_callbackContext C = Some (sm, out)"
  shows "sessions S sm (m_fdConnection rec) = None"
proof -
  note cl = chat_server.server_tcp_client [OF assms(1,2), of exact]
  have "conn_inv base exact L (server_inv S exact) C"
    using tcp_client.run_inv [OF cl assms(3)] chat_server.fresh_context_inv [OF assms(1)] by blast
  then have h: "net_ok (base \<union> reserved C) (tc_net C)" "handler_ok exact L (tc_net C) h" "dom (sessions S sm) \<subseteq> registered h"
    using assms(4,7) by (auto simp: conn_inv_def server_inv_def)
  have fd: "fd_of (tc_net C) p = Some (m_fdConnection rec)" using assms(6) by (simp add: fd_of_def)
  have "m_fdConnection rec \<notin> registered h"
  proof
    assume "m_fdConnection rec \<in> registered h"
    then obtain q where q: "fd_of (tc_net C) q = Some (m_fdConnection rec)" "q \<notin> set (piped h)" using h(2) by (auto simp: handler_ok_def)
    then have "q = p" using h(1) fd unfolding net_ok_def by blast
    with q(2) assms(5) show False by simp
  qed
  with h(3) show ?thesis by auto
qed

theorem new_connection_anonymous_witness:
  "\<exists>(C :: (nat node_list, server_env, _) TcpServerController) h p rec. tc_connectionHandler C = Some h \<and> p \<in> set (piped h) \<and> net_heap (tc_net C) p = Some rec
     \<and> m_fdConnection rec = 6 \<and> tc_callbackContext C = Some (fresh_server, [] :: sends) \<and> sessions ref_lib fresh_server 6 = None"
proof -
  let ?run = "tcp_run node_ops node_walk server_onNew (server_onDisconnect ref_lib) (server_onMessage ref_lib) (fresh_context ref_lib) (server_env_ok True) True {0, 1, 2}"
  have r0: "?run ref_running" by (rule ref_started_run [where Init = "fresh_context ref_lib", OF ref_context])
  let ?C1 = "acceptor_at In_Call ref_running"
  have "TcpConnectionAcceptor_AcceptLoop ref_accept ref_running = Some ?C1"
    by (simp add: TcpConnectionAcceptor_AcceptLoop_def ref_started_def)
  from tr_accept [OF r0 ref_started_accept(1) this] have r1: "?run ?C1" .
  have "tc_net ?C1 = tc_net ref_running" by (simp add: acceptor_at_def)
  from accept_ok_net [OF this] ref_started_accept(1) have ok1: "accept_ok ?C1 ref_accept" by (rule iffD2)
  let ?rec = "\<lparr>m_fdConnection = 6, m_ip = ip_text 16777343, m_conn_port = int (unat (40000 :: 16 word))\<rparr>"
  obtain C2 h where C2: "TcpConnectionAcceptor_AcceptLoop ref_accept ?C1 = Some C2" "tc_connectionHandler C2 = Some h"
      "th_pipe h = [Some 0]" "net_heap (tc_net C2) 0 = Some ?rec" "tc_callbackContext C2 = Some (fresh_server, [])"
    using addr_text_bounds(1) [of 16777343]
    by (auto simp: TcpConnectionAcceptor_AcceptLoop_def acceptor_at_def ref_started_def ref_created_def ref_accept_def ref_net_def open_fd_def
        accepted_connection_def convert_ip converted_ip TcpConnectionRecord_Create_def INET_ADDRSTRLEN_def TcpServerController_ProcessConnection_def
        TcpConnectionHandler_AddConnection_def)
  from tr_accept [OF r1 ok1 C2(1)] have r2: "?run C2" .
  have p: "0 \<in> set (piped h)" using C2(3) by (simp add: piped_def)
  from new_connection_anonymous [OF ref_server.chat_server_axioms nodes.dlist_walk_axioms r2 C2(2) p C2(4,5)] C2 p
  show ?thesis by (intro exI [of _ C2] exI [of _ h] exI [of _ 0] exI [of _ ?rec]) simp
qed

end
