(* ===== verification/Client_Menu.thy ===== *)
theory Client_Menu
  imports Client_System Network_Utils
begin

text \<open>
  The client's menu (\<open>src/Client/Menu.c\<close>): the options of every session state, rendering, parsing a
  selection and reading a line of standard input into a buffer with \<open>fgets\<close>.  The lemmas show what a
  selection parses to, with the wrap-around of its \<open>size_t\<close>, and that reading a line stays inside
  its buffer and consumes input.
\<close>

section \<open>Options and labels\<close>

datatype SessionState = SESSION_DISCONNECTED | SESSION_CONNECTED | SESSION_LOGGED_IN

datatype MenuChoice =
    MENU_NONE | MENU_CONNECT | MENU_REGISTER | MENU_LOGIN | MENU_LOGOUT | MENU_CREATE_GROUP
  | MENU_JOIN_GROUP | MENU_LEAVE_GROUP | MENU_DISPLAY_USERS | MENU_DISPLAY_GROUPS | MENU_EXIT

definition s_disconnectedOptions :: "MenuChoice list" where
  "s_disconnectedOptions = [MENU_CONNECT, MENU_EXIT]"

definition s_connectedOptions :: "MenuChoice list" where
  "s_connectedOptions = [MENU_REGISTER, MENU_LOGIN, MENU_EXIT]"

definition s_loggedInOptions :: "MenuChoice list" where
  "s_loggedInOptions =
     [MENU_LOGOUT, MENU_CREATE_GROUP, MENU_JOIN_GROUP, MENU_LEAVE_GROUP, MENU_DISPLAY_USERS,
      MENU_DISPLAY_GROUPS, MENU_EXIT]"

fun ChoiceLabel :: "MenuChoice \<Rightarrow> string" where
  "ChoiceLabel MENU_CONNECT = ''Connect''"
| "ChoiceLabel MENU_REGISTER = ''Register''"
| "ChoiceLabel MENU_LOGIN = ''Login''"
| "ChoiceLabel MENU_LOGOUT = ''Logout''"
| "ChoiceLabel MENU_CREATE_GROUP = ''Create group''"
| "ChoiceLabel MENU_JOIN_GROUP = ''Join group''"
| "ChoiceLabel MENU_LEAVE_GROUP = ''Leave group''"
| "ChoiceLabel MENU_DISPLAY_USERS = ''Display users''"
| "ChoiceLabel MENU_DISPLAY_GROUPS = ''Display groups''"
| "ChoiceLabel MENU_EXIT = ''Exit''"
| "ChoiceLabel MENU_NONE = ''?''"

fun GetOptions :: "SessionState \<Rightarrow> MenuChoice list" where
  "GetOptions SESSION_DISCONNECTED = s_disconnectedOptions"
| "GetOptions SESSION_CONNECTED = s_connectedOptions"
| "GetOptions SESSION_LOGGED_IN = s_loggedInOptions"

fun StateLabel :: "SessionState \<Rightarrow> string" where
  "StateLabel SESSION_DISCONNECTED = ''DISCONNECTED''"
| "StateLabel SESSION_CONNECTED = ''CONNECTED''"
| "StateLabel SESSION_LOGGED_IN = ''LOGGED_IN''"

definition newline :: string where
  "newline = [CHR 0x0A]"

fun render_options :: "nat \<Rightarrow> MenuChoice list \<Rightarrow> 's world \<Rightarrow> 's world" where
  "render_options i [] w = w"
| "render_options i (opt # opts) w =
     render_options (Suc i) opts
       (c_print (''  '' @ decimal (i + 1) @ ''. '' @ ChoiceLabel opt @ newline) w)"

definition Menu_Render :: "SessionState \<Rightarrow> 's world \<Rightarrow> 's world" where
  "Menu_Render a_state w =
     render_options 0 (GetOptions a_state)
       (c_print (newline @ ''=== Chat client ['' @ StateLabel a_state @ ''] ==='' @ newline) w)"

section \<open>Parsing a selection\<close>

definition isspace :: "char \<Rightarrow> bool" where
  "isspace c \<longleftrightarrow> c = CHR 0x20 \<or> 9 \<le> (of_char c :: nat) \<and> (of_char c :: nat) \<le> 13"

fun parse_digits :: "64 word \<Rightarrow> string \<Rightarrow> 64 word \<times> string" where
  "parse_digits selection [] = (selection, [])"
| "parse_digits selection (c # cs) =
     (if is_digit c then parse_digits (selection * 10 + of_nat (digit_value c)) cs else (selection, c # cs))"

text \<open>The line is \<^term>\<open>None\<close> for \<open>NULL\<close>.\<close>

definition Menu_Parse :: "string option \<Rightarrow> SessionState \<Rightarrow> MenuChoice" where
  "Menu_Parse a_line a_state =
     (case a_line of
        None \<Rightarrow> MENU_NONE
      | Some line \<Rightarrow>
          let s = dropWhile isspace line
          in if s = [] then MENU_NONE
             else if \<not> is_digit (hd s) then MENU_NONE
             else let (selection, rest) = parse_digits 0 s;
                      rest' = dropWhile isspace rest
                  in if rest' \<noteq> [] then MENU_NONE
                     else if selection = 0 then MENU_NONE
                     else let opts = GetOptions a_state
                          in if unat selection > length opts then MENU_NONE
                             else opts ! (unat selection - 1))"

section \<open>Reading a line\<close>

text \<open>What \<open>fgets\<close> takes from the stream: at most \<open>n\<close> bytes, up to and including a newline.\<close>

fun take_line :: "nat \<Rightarrow> string \<Rightarrow> string \<times> string" where
  "take_line 0 s = ([], s)"
| "take_line (Suc n) [] = ([], [])"
| "take_line (Suc n) (c # cs) =
     (if c = CHR 0x0A then ([c], cs) else case take_line n cs of (a, b) \<Rightarrow> (c # a, b))"

definition fgets :: "string \<Rightarrow> nat \<Rightarrow> 's world \<Rightarrow> (bool \<times> string \<times> 's world) option" where
  "fgets buf n w =
     (case take_line (n - 1) (w_stdin w) of
        (line, rest) \<Rightarrow>
          if line = [] \<and> 1 < n then Some (False, buf, w)
          else do {
            buf' \<leftarrow> mem_write buf 0 (line @ [NUL]);
            Some (True, buf', w\<lparr>w_stdin := rest\<rparr>)
          })"

fun trim_newlines :: "string \<Rightarrow> nat \<Rightarrow> string" where
  "trim_newlines buf 0 = buf"
| "trim_newlines buf (Suc len) =
     (if buf ! len = CHR 0x0A \<or> buf ! len = CHR 0x0D then trim_newlines (buf[len := NUL]) len else buf)"

definition Menu_ReadLine ::
  "string option \<Rightarrow> string option \<Rightarrow> nat \<Rightarrow> 's world \<Rightarrow> (bool \<times> string option \<times> 's world) option" where
  "Menu_ReadLine a_prompt a_buf a_size w =
     (case a_buf of
        None \<Rightarrow> Some (False, a_buf, w)
      | Some buf \<Rightarrow>
          if a_size = 0 then Some (False, a_buf, w)
          else do {
            let w1 = (case a_prompt of None \<Rightarrow> w | Some prompt \<Rightarrow> c_print prompt w);
            (ok, buf1, w2) \<leftarrow> fgets buf a_size w1;
            if \<not> ok then Some (False, Some buf1, w2)
            else do {
              s \<leftarrow> c_string_at buf1 0;
              Some (True, Some (trim_newlines buf1 (length s)), w2)
            }
          })"

section \<open>Lemmas\<close>

lemma GetOptions_nonempty: "GetOptions st \<noteq> []" "MENU_NONE \<notin> set (GetOptions st)" "distinct (GetOptions st)"
  by (cases st; simp add: s_disconnectedOptions_def s_connectedOptions_def s_loggedInOptions_def)+

lemma space_not_digit: "isspace c \<Longrightarrow> \<not> is_digit c"
  by (auto simp: isspace_def is_digit_def of_char_def)

lemma parse_digits_app:
  assumes "\<forall>c \<in> set ds. is_digit c" and "rest = [] \<or> \<not> is_digit (hd rest)"
  shows "parse_digits (of_nat v) (ds @ rest) = (of_nat (digits_value ds v), rest)"
  using assms(1)
proof (induction ds arbitrary: v)
  case Nil
  then show ?case using assms(2) by (cases rest) (auto simp: digits_value_def)
next
  case (Cons c ds)
  from Cons.IH [of "v * 10 + digit_value c"] Cons.prems show ?case
    by (simp add: digits_value_def)
qed

text \<open>A line of blanks, digits and blanks selects by the value of the digits modulo \<open>SIZE_MAX + 1\<close>.\<close>

lemma dropWhile_blanks: "\<forall>c \<in> set bs. P c \<Longrightarrow> s = [] \<or> \<not> P (hd s) \<Longrightarrow> dropWhile P (bs @ s) = s"
  by (induction bs) (cases s, auto)

lemma Menu_Parse_digits:
  assumes "\<forall>c \<in> set as. isspace c" and "ds \<noteq> []" and "\<forall>c \<in> set ds. is_digit c" and "\<forall>c \<in> set bs. isspace c"
  shows "Menu_Parse (Some (as @ ds @ bs)) st =
    (let k = digits_value ds 0 mod 2 ^ 64
     in if k = 0 \<or> length (GetOptions st) < k then MENU_NONE else GetOptions st ! (k - 1))"
proof -
  let ?k = "digits_value ds 0 mod 2 ^ 64"
  have hd_ds: "is_digit (hd ds)" "\<not> isspace (hd ds)" using assms(2,3) space_not_digit hd_in_set [of ds] by blast+
  have s: "dropWhile isspace (as @ ds @ bs) = ds @ bs"
    using assms(1,2) hd_ds by (intro dropWhile_blanks) auto
  have bs: "bs = [] \<or> \<not> is_digit (hd bs)" using assms(4) space_not_digit by (cases bs) auto
  have p: "parse_digits 0 (ds @ bs) = (of_nat (digits_value ds 0), bs)"
    using parse_digits_app [OF assms(3) bs, of 0] by simp
  have d: "dropWhile isspace bs = []" using assms(4) by (simp add: dropWhile_eq_Nil_conv)
  have u: "unat (of_nat (digits_value ds 0) :: 64 word) = ?k" by (simp add: unat_of_nat take_bit_eq_mod)
  have z: "(of_nat (digits_value ds 0) :: 64 word) = 0 \<longleftrightarrow> ?k = 0" using u by (metis unat_eq_zero)
  show ?thesis using assms(2,4) hd_ds by (simp add: Menu_Parse_def s p d u [simplified] z [simplified] Let_def)
qed

text \<open>Every selection is an option of the menu that was shown.\<close>

lemma Menu_Parse_option: "Menu_Parse line st = MENU_NONE \<or> Menu_Parse line st \<in> set (GetOptions st)"
proof -
  have "Menu_Parse line st \<in> set (GetOptions st)" if "Menu_Parse line st \<noteq> MENU_NONE"
  proof -
    have nth: "unat sel \<noteq> 0 \<Longrightarrow> unat sel \<le> length (GetOptions st) \<Longrightarrow> GetOptions st ! (unat sel - 1) \<in> set (GetOptions st)"
      for sel :: "64 word" by (auto intro!: nth_mem)
    show ?thesis using that nth
      by (auto simp: Menu_Parse_def Let_def unat_eq_zero split: option.splits if_splits prod.splits)
  qed
  then show ?thesis by blast
qed

text \<open>\<open>fgets\<close> consumes input, and what it takes fits the buffer with its terminator.\<close>

lemma take_line_split: "take_line n s = (a, b) \<Longrightarrow> s = a @ b \<and> length a \<le> n \<and> (0 < n \<and> s \<noteq> [] \<longrightarrow> a \<noteq> [])"
  by (induction n s arbitrary: a b rule: take_line.induct) (auto split: if_splits prod.splits)

text \<open>The line the client keeps: up to a NUL of the input, without trailing line ends.\<close>

fun strip_end :: "string \<Rightarrow> string" where
  "strip_end s = (if s \<noteq> [] \<and> (last s = CHR 0x0A \<or> last s = CHR 0x0D) then strip_end (butlast s) else s)"

declare strip_end.simps [simp del]

lemma strip_end_subset: "set (strip_end s) \<subseteq> set s" "length (strip_end s) \<le> length s"
proof (induction s rule: strip_end.induct)
  case (1 s)
  { case 1 from "1.IH"(1) show ?case by (subst strip_end.simps) (auto dest: in_set_butlastD) next
    case 2 from "1.IH"(2) show ?case by (subst strip_end.simps) (auto intro: le_trans) }
qed

lemma trim_newlines_c_string:
  assumes "NUL \<notin> set s" and "length s = n"
  shows "\<exists>rest'. trim_newlines (s @ NUL # rest) n = strip_end s @ NUL # rest'
    \<and> length (strip_end s @ NUL # rest') = length (s @ NUL # rest)"
  using assms
proof (induction n arbitrary: s rest)
  case 0
  then show ?case by (simp add: strip_end.simps)
next
  case (Suc n)
  then obtain t c where s: "s = t @ [c]" and t: "length t = n" by (cases s rule: rev_cases) auto
  show ?case
  proof (cases "c = CHR 0x0A \<or> c = CHR 0x0D")
    case True
    have "strip_end s = strip_end t" using True s by (subst strip_end.simps) simp
    moreover have "trim_newlines (s @ NUL # rest) (Suc n) = trim_newlines (t @ NUL # NUL # rest) n"
      using True by (simp add: s flip: t)
    ultimately show ?thesis using Suc.IH [of t "NUL # rest"] Suc.prems s t by auto
  next
    case False
    then have "strip_end s = s" using s by (subst strip_end.simps) simp
    then show ?thesis using False by (simp add: s flip: t)
  qed
qed

definition line_of :: "string \<Rightarrow> string" where
  "line_of l = strip_end (takeWhile (\<lambda>c. c \<noteq> NUL) l)"

lemma line_of_bounds: "NUL \<notin> set (line_of l)" "length (line_of l) \<le> length l"
  using strip_end_subset [of "takeWhile (\<lambda>c. c \<noteq> NUL) l"] length_takeWhile_le [of "\<lambda>c. c \<noteq> NUL" l]
  by (auto simp: line_of_def dest: set_takeWhileD)

lemma fgets_cases:
  assumes "n \<le> length buf" and "1 < n"
  obtains (eof) "w_stdin w = []" and "fgets buf n w = Some (False, buf, w)"
  | (line) l rest tail where "w_stdin w = l @ rest" and "l \<noteq> []" and "length l < n"
      and "take_line (n - 1) (w_stdin w) = (l, rest)"
      and "fgets buf n w = Some (True, takeWhile (\<lambda>c. c \<noteq> NUL) l @ NUL # tail, w\<lparr>w_stdin := rest\<rparr>)"
      and "length (takeWhile (\<lambda>c. c \<noteq> NUL) l @ NUL # tail) = length buf"
proof (cases "w_stdin w = []")
  case True
  then have "take_line (n - 1) (w_stdin w) = ([], [])" by (cases "n - 1") auto
  then show ?thesis using True assms(2) by (intro eof) (simp_all add: fgets_def)
next
  case False
  obtain l rest where tl: "take_line (n - 1) (w_stdin w) = (l, rest)" by (cases "take_line (n - 1) (w_stdin w)")
  have l: "w_stdin w = l @ rest" "length l < n" "l \<noteq> []"
    using take_line_split [OF tl] False assms(2) by auto
  have wr: "mem_write buf 0 (l @ [NUL]) = Some ((l @ [NUL]) @ drop (length l + 1) buf)"
    using l assms mem_write_start [of "l @ [NUL]" buf] by simp
  let ?buf = "(l @ [NUL]) @ drop (length l + 1) buf" and ?s = "takeWhile (\<lambda>c. c \<noteq> NUL) l"
  obtain tail where tail: "?buf = ?s @ NUL # tail"
  proof (cases "NUL \<in> set l")
    case True
    then obtain ys zs where l_eq: "l = ys @ NUL # zs" and "NUL \<notin> set ys" by (meson split_list_first)
    then have "?s = ys" by (auto simp: takeWhile_append)
    then show ?thesis using that [of "zs @ [NUL] @ drop (length l + 1) buf"] l_eq by simp
  next
    case False
    then have "?s = l" by (auto simp: takeWhile_eq_all_conv)
    then have "?buf = ?s @ NUL # drop (length l + 1) buf" by (simp only: append_assoc append_Cons append_Nil)
    then show ?thesis by (rule that)
  qed
  have "fgets buf n w = Some (True, ?buf, w\<lparr>w_stdin := rest\<rparr>)" using tl l(3) wr by (simp add: fgets_def)
  then show ?thesis
    by (intro line [OF l(1) l(3) l(2) tl]) (use tail length_mem_write [OF wr] in simp_all)
qed

lemma c_string_prefix: "c_string_at (takeWhile (\<lambda>c. c \<noteq> NUL) l @ NUL # tail) 0 = Some (takeWhile (\<lambda>c. c \<noteq> NUL) l)"
  using c_string_at_append [of "takeWhile (\<lambda>c. c \<noteq> NUL) l" "[]" tail] by (force dest: set_takeWhileD)

lemma Menu_ReadLine_cases:
  assumes "n \<le> length buf" and "1 < n"
  obtains (eof) "w_stdin w = []" and "Menu_ReadLine (Some p) (Some buf) n w = Some (False, Some buf, c_print p w)"
  | (line) l rest buf' where "w_stdin w = l @ rest" and "l \<noteq> []" and "length l < n"
      and "take_line (n - 1) (w_stdin w) = (l, rest)"
      and "Menu_ReadLine (Some p) (Some buf) n w = Some (True, Some buf', (c_print p w)\<lparr>w_stdin := rest\<rparr>)"
      and "length buf' = length buf" and "c_string_at buf' 0 = Some (line_of l)"
proof (cases rule: fgets_cases [OF assms, of "c_print p w"])
  case 1
  then show ?thesis using assms(2) by (intro eof) (simp_all add: Menu_ReadLine_def)
next
  case (2 l rest tail)
  let ?s = "takeWhile (\<lambda>c. c \<noteq> NUL) l"
  have "NUL \<notin> set ?s" by (auto dest: set_takeWhileD)
  then obtain rest' where t: "trim_newlines (?s @ NUL # tail) (length ?s) = strip_end ?s @ NUL # rest'"
      "length (strip_end ?s @ NUL # rest') = length (?s @ NUL # tail)"
    using trim_newlines_c_string [OF _ refl, of ?s tail] by blast
  show ?thesis
  proof (rule line [of l rest])
    show "Menu_ReadLine (Some p) (Some buf) n w =
        Some (True, Some (trim_newlines (?s @ NUL # tail) (length ?s)), (c_print p w)\<lparr>w_stdin := rest\<rparr>)"
      using assms(2) 2(5) c_string_prefix [of l tail] by (simp add: Menu_ReadLine_def)
    show "length (trim_newlines (?s @ NUL # tail) (length ?s)) = length buf" using t 2(6) by simp
    show "c_string_at (trim_newlines (?s @ NUL # tail) (length ?s)) 0 = Some (line_of l)"
      using t(1) c_string_at_append [of "strip_end ?s" "[]" rest'] line_of_bounds(1) [of l] by (simp add: line_of_def)
  qed (use 2 in simp_all)
qed

end
