(* ===== verification/Client_Controller.thy ===== *)
theory Client_Controller
  imports Client_System Network_Utils
begin

text \<open>
  The client's end of the TCP connection (\<open>src/ClientNet/ClientController.c\<close>): creation, connecting,
  blocking send and receive, closing.  A controller that may be \<open>NULL\<close> is an option; every operation
  returns the controller it leaves behind.  The lemmas give the outcome of each operation on a
  stopped and on a running controller.
\<close>

datatype ClientResult =
    CLIENT_RESULT_SUCCESS | CLIENT_RESULT_NULL_PTR | CLIENT_RESULT_INVALID_ARGUMENT
  | CLIENT_RESULT_ALLOCATION_FAILED | CLIENT_RESULT_SOCKET_ERROR | CLIENT_RESULT_CONNECT_ERROR
  | CLIENT_RESULT_NOT_CONNECTED | CLIENT_RESULT_RECEIVE_ERROR | CLIENT_RESULT_CONNECTION_CLOSED
  | CLIENT_RESULT_SEND_ERROR

datatype ClientState = CLIENT_STATE_STOPPED | CLIENT_STATE_RUNNING

record ClientController =
  cc_fd :: int
  cc_ip :: "32 word"
  cc_port :: "16 word"
  cc_state :: ClientState

text \<open>\<open>malloc\<close> comes first, so a rejected address leaves its block behind.\<close>

definition ClientController_Create ::
  "'s client_os \<Rightarrow> string option \<Rightarrow> 16 word \<Rightarrow> 's world \<Rightarrow> ClientController option \<times> 's world" where
  "ClientController_Create os a_ip a_port w =
     (case sys_alloc os Block_Controller w of
        (ok, w1) \<Rightarrow>
          if \<not> ok \<or> a_ip = None \<or> \<not> is_valid_ip_address a_ip then (None, w1)
          else (Some \<lparr>cc_fd = - 1, cc_ip = network_convert_ip_p_to_n a_ip, cc_port = a_port,
                      cc_state = CLIENT_STATE_STOPPED\<rparr>, w1))"

definition ClientController_Destroy ::
  "ClientController option \<Rightarrow> 's world \<Rightarrow> (ClientController option \<times> 's world) option" where
  "ClientController_Destroy a_controller w =
     (case a_controller of
        None \<Rightarrow> Some (None, w)
      | Some _ \<Rightarrow> do { w1 \<leftarrow> sys_free Block_Controller w; Some (None, w1) })"

definition ConnectSocket ::
  "'s client_os \<Rightarrow> ClientController option \<Rightarrow> 's world \<Rightarrow> ClientResult \<times> ClientController option \<times> 's world" where
  "ConnectSocket os a_controller w =
     (case a_controller of
        None \<Rightarrow> (CLIENT_RESULT_NULL_PTR, None, w)
      | Some c \<Rightarrow>
          let (fd, w1) = sys_socket os w
          in if fd < 0 then (CLIENT_RESULT_SOCKET_ERROR, Some c, w1)
             else let (rc, w2) = sys_connect os fd (cc_ip c) (htons (cc_port c)) w1
                  in if rc < 0 then (CLIENT_RESULT_CONNECT_ERROR, Some c, sys_close os fd w2)
                     else (CLIENT_RESULT_SUCCESS, Some (c\<lparr>cc_fd := fd\<rparr>), w2))"

definition ClientController_Start ::
  "'s client_os \<Rightarrow> ClientController option \<Rightarrow> 's world \<Rightarrow> ClientResult \<times> ClientController option \<times> 's world" where
  "ClientController_Start os a_controller w =
     (case a_controller of
        None \<Rightarrow> (CLIENT_RESULT_NULL_PTR, None, w)
      | Some c \<Rightarrow>
          if cc_state c \<noteq> CLIENT_STATE_STOPPED then (CLIENT_RESULT_SUCCESS, Some c, w)
          else let (isConnected, c1, w1) = ConnectSocket os (Some c) w
               in if isConnected \<noteq> CLIENT_RESULT_SUCCESS then (isConnected, c1, w1)
                  else (CLIENT_RESULT_SUCCESS, map_option (cc_state_update (\<lambda>_. CLIENT_STATE_RUNNING)) c1, w1))"

definition ClientController_Stop ::
  "'s client_os \<Rightarrow> ClientController option \<Rightarrow> 's world \<Rightarrow> ClientResult \<times> ClientController option \<times> 's world" where
  "ClientController_Stop os a_controller w =
     (case a_controller of
        None \<Rightarrow> (CLIENT_RESULT_NULL_PTR, None, w)
      | Some c \<Rightarrow>
          if cc_state c \<noteq> CLIENT_STATE_RUNNING then (CLIENT_RESULT_SUCCESS, Some c, w)
          else (CLIENT_RESULT_SUCCESS, Some (c\<lparr>cc_state := CLIENT_STATE_STOPPED, cc_fd := - 1\<rparr>),
                sys_close os (cc_fd c) w))"

text \<open>The number of bytes \<open>send\<close> took is not looked at: only a negative result is an error.\<close>

definition ClientController_Send ::
  "'s client_os \<Rightarrow> ClientController option \<Rightarrow> string option \<Rightarrow> nat \<Rightarrow> 's world \<Rightarrow> (ClientResult \<times> 's world) option" where
  "ClientController_Send os a_controller a_message a_length w =
     (case (a_controller, a_message) of
        (Some c, Some message) \<Rightarrow>
          if a_length = 0 then Some (CLIENT_RESULT_NULL_PTR, w)
          else if cc_state c \<noteq> CLIENT_STATE_RUNNING then Some (CLIENT_RESULT_NOT_CONNECTED, w)
          else do {
            bytes \<leftarrow> mem_read message 0 a_length;
            let (n, w1) = sys_send os (cc_fd c) bytes w;
            Some (if n < 0 then CLIENT_RESULT_SEND_ERROR else CLIENT_RESULT_SUCCESS, w1)
          }
      | _ \<Rightarrow> Some (CLIENT_RESULT_NULL_PTR, w))"

definition ClientController_Receive ::
  "'s client_os \<Rightarrow> ClientController option \<Rightarrow> string option \<Rightarrow> nat \<Rightarrow> 's world
     \<Rightarrow> (ClientResult \<times> string option \<times> 's world) option" where
  "ClientController_Receive os a_controller a_buffer a_length w =
     (case (a_controller, a_buffer) of
        (Some c, Some buffer) \<Rightarrow>
          if a_length = 0 then Some (CLIENT_RESULT_NULL_PTR, a_buffer, w)
          else if cc_state c \<noteq> CLIENT_STATE_RUNNING then Some (CLIENT_RESULT_NOT_CONNECTED, a_buffer, w)
          else do {
            (bytes_received, buffer1, w1) \<leftarrow> sys_recv os (cc_fd c) buffer a_length w;
            Some (if bytes_received < 0 then CLIENT_RESULT_SOCKET_ERROR
                  else if bytes_received = 0 then CLIENT_RESULT_CONNECTION_CLOSED
                  else CLIENT_RESULT_SUCCESS, Some buffer1, w1)
          }
      | _ \<Rightarrow> Some (CLIENT_RESULT_NULL_PTR, a_buffer, w))"

section \<open>Lemmas\<close>

text \<open>The contract of \<open>recv\<close>: it delivers what it says, and no more than was asked for.\<close>

definition recv_ok :: "'s client_os \<Rightarrow> bool" where
  "recv_ok os \<longleftrightarrow> (\<forall>fd len s. case os_recv os fd len s of
     ((n, bytes), _) \<Rightarrow> 0 < n \<longrightarrow> nat n \<le> length bytes \<and> nat n \<le> len)"

lemma sys_recv_total:
  assumes "recv_ok os" and "len \<le> length buf"
  obtains n buf' w' where "sys_recv os fd buf len w = Some (n, buf', w')"
proof -
  obtain n bytes s where r: "os_recv os fd len (w_sys w) = ((n, bytes), s)" by (metis surj_pair)
  have "n \<le> 0 \<or> nat n \<le> len" using assms(1) r by (auto simp: recv_ok_def dest!: spec [of _ fd] spec [of _ len] spec [of _ "w_sys w"])
  then have "length (take (nat n) bytes) \<le> length buf" if "0 < n" using assms(2) that by auto
  then have "\<exists>y. sys_recv os fd buf len w = Some y" using r by (auto simp: sys_recv_def mem_write_def)
  then show ?thesis using that by auto
qed

lemma ClientController_Receive_total:
  assumes "recv_ok os" and "n \<le> length buf"
  obtains r buf' w' where "ClientController_Receive os (Some c) (Some buf) n w = Some (r, Some buf', w')"
    and "length buf' = length buf" and "w_stdin w' = w_stdin w" and "w_live w' = w_live w" and "w_trace w' = w_trace w"
proof (cases "n = 0 \<or> cc_state c \<noteq> CLIENT_STATE_RUNNING")
  case True
  then have "\<exists>r. ClientController_Receive os (Some c) (Some buf) n w = Some (r, Some buf, w)"
    by (auto simp: ClientController_Receive_def)
  then show ?thesis using that by blast
next
  case False
  obtain k buf' w' where r: "sys_recv os (cc_fd c) buf n w = Some (k, buf', w')" using sys_recv_total [OF assms] .
  note f = sys_recv_frame [OF r]
  show ?thesis using False r by (intro that [OF _ f(4,1,2,3)]) (simp add: ClientController_Receive_def)
qed

lemma ClientController_Send_frame:
  assumes "ClientController_Send os (Some c) (Some buf) n w = Some (r, w')"
  shows "w_stdin w' = w_stdin w" "w_live w' = w_live w"
    "w_trace w' = w_trace w \<or> w_trace w' = w_trace w @ [Ev_Send (cc_fd c) (take n buf)]"
  using assms by (auto simp: ClientController_Send_def mem_read_def Let_def dest: sys_result_frame(3)
      split: if_splits Option.bind_splits prod.splits)

lemma ClientController_Send_total:
  assumes "n \<le> length buf"
  obtains r w' where "ClientController_Send os (Some c) (Some buf) n w = Some (r, w')"
proof -
  have "\<exists>y. ClientController_Send os (Some c) (Some buf) n w = Some y"
    using assms by (simp add: ClientController_Send_def mem_read_def split: prod.split)
  then show ?thesis using that by auto
qed

text \<open>What success means for the system call behind it.\<close>

lemma ClientController_Send_success:
  assumes "ClientController_Send os (Some c) (Some buf) n w = Some (CLIENT_RESULT_SUCCESS, w')"
  shows "os_send os (cc_fd c) (take n buf) (w_sys w) = (fst (os_send os (cc_fd c) (take n buf) (w_sys w)), w_sys w')"
    and "cc_state c = CLIENT_STATE_RUNNING"
  using assms by (auto simp: ClientController_Send_def mem_read_def sys_send_def Let_def
      split: if_splits Option.bind_splits prod.splits)

lemma ClientController_Receive_success:
  assumes "ClientController_Receive os (Some c) (Some buf) n w = Some (CLIENT_RESULT_SUCCESS, Some buf', w')"
  obtains k bytes where "os_recv os (cc_fd c) n (w_sys w) = ((k, bytes), w_sys w')" and "0 < k"
    and "mem_write buf 0 (take (nat k) bytes) = Some buf'"
  using assms by (auto simp: ClientController_Receive_def sys_recv_def
      split: if_splits Option.bind_splits prod.splits)

lemma ClientController_Start_frame:
  assumes "ClientController_Start os (Some c) w = (r, c', w')"
  obtains c'' where "c' = Some c''" and "w_stdin w' = w_stdin w" and "w_live w' = w_live w"
    and "r = CLIENT_RESULT_SUCCESS \<Longrightarrow> cc_state c'' = CLIENT_STATE_RUNNING" and "r \<noteq> CLIENT_RESULT_SUCCESS \<Longrightarrow> c'' = c"
    and "cc_ip c'' = cc_ip c" and "cc_port c'' = cc_port c"
    and "\<exists>evs. w_trace w' = w_trace w @ evs \<and> (\<forall>e \<in> set evs. case e of Ev_Connect _ _ _ \<Rightarrow> True | Ev_Close _ \<Rightarrow> True | _ \<Rightarrow> False)"
proof -
  have "\<exists>c''. c' = Some c'' \<and> w_stdin w' = w_stdin w \<and> w_live w' = w_live w
    \<and> (r = CLIENT_RESULT_SUCCESS \<longrightarrow> cc_state c'' = CLIENT_STATE_RUNNING) \<and> (r \<noteq> CLIENT_RESULT_SUCCESS \<longrightarrow> c'' = c)
    \<and> cc_ip c'' = cc_ip c \<and> cc_port c'' = cc_port c
    \<and> (\<exists>evs. w_trace w' = w_trace w @ evs \<and> (\<forall>e \<in> set evs. case e of Ev_Connect _ _ _ \<Rightarrow> True | Ev_Close _ \<Rightarrow> True | _ \<Rightarrow> False))"
    using assms
    by (cases "cc_state c")
      (auto simp: ClientController_Start_def ConnectSocket_def Let_def sys_call_frame
        dest!: sys_result_frame(1,2) split: prod.splits if_splits)
  then show ?thesis using that by blast
qed

lemma ClientController_Stop_eq:
  "ClientController_Stop os (Some c) w = (CLIENT_RESULT_SUCCESS,
     if cc_state c = CLIENT_STATE_RUNNING then Some (c\<lparr>cc_state := CLIENT_STATE_STOPPED, cc_fd := - 1\<rparr>) else Some c,
     if cc_state c = CLIENT_STATE_RUNNING then sys_close os (cc_fd c) w else w)"
  by (simp add: ClientController_Stop_def)

end
