(* ===== verification/Client_App.thy ===== *)
theory Client_App
  imports Client_Menu Client_Controller Group_Windows Network_Protocol Tcp_Connection
begin

text \<open>
  The client application (\<open>src/Client/ClientApp.c\<close>): the menu loop, one handler per menu choice,
  the exchange of one request and one response with the server, and the parser of the group
  endpoint the server sends.  Local arrays are buffers of their size whose first contents the operating
  system decides; a handler returns the application it leaves behind and the world, and \<^term>\<open>None\<close> when it
  does something undefined (a read outside a buffer, a \<open>NULL\<close> dereference, a double free).
\<close>

section \<open>State\<close>

record 'm ClientApp =
  ca_controller :: "ClientController option"
  ca_windows :: "'m GroupWindows option"
  ca_state :: SessionState
  ca_username :: "string option"
  ca_password :: "string option"
  ca_ip :: string
  ca_port :: "16 word"

definition ClientApp_Create ::
  "'m windows_ops \<Rightarrow> 's client_os \<Rightarrow> string option \<Rightarrow> 16 word \<Rightarrow> 's world \<Rightarrow> ('m ClientApp option \<times> 's world) option" where
  "ClientApp_Create M os a_ip a_port w =
     (case a_ip of
        None \<Rightarrow> Some (None, w)
      | Some ip \<Rightarrow>
          if length ip \<ge> INET_ADDRSTRLEN then Some (None, w)
          else let (ok, w1) = sys_alloc os Block_App w
               in if \<not> ok then Some (None, w1)
                  else let (controller, w2) = ClientController_Create os a_ip a_port w1
                       in if controller = None
                          then do { w3 \<leftarrow> sys_free Block_App w2; Some (None, w3) }
                          else do {
                            (windows, w3) \<leftarrow> GroupWindows_Create M os w2;
                            if windows = None
                            then do {
                              (_, w4) \<leftarrow> ClientController_Destroy controller w3;
                              w5 \<leftarrow> sys_free Block_App w4;
                              Some (None, w5)
                            }
                            else Some (Some \<lparr>ca_controller = controller, ca_windows = windows,
                                             ca_state = SESSION_DISCONNECTED, ca_username = None,
                                             ca_password = None, ca_ip = ip, ca_port = a_port\<rparr>, w3)
                          })"

definition ClientApp_Destroy ::
  "'m windows_ops \<Rightarrow> 's client_os \<Rightarrow> 'm ClientApp option \<Rightarrow> 's world \<Rightarrow> ('m ClientApp option \<times> 's world) option" where
  "ClientApp_Destroy M os a_app w =
     (case a_app of
        None \<Rightarrow> Some (None, w)
      | Some app \<Rightarrow> do {
          let (controller, w1) = (if ca_state app \<noteq> SESSION_DISCONNECTED
                                  then snd (ClientController_Stop os (ca_controller app) w)
                                  else (ca_controller app, w));
          (_, w2) \<leftarrow> GroupWindows_Destroy M os (ca_windows app) w1;
          (_, w3) \<leftarrow> ClientController_Destroy controller w2;
          w4 \<leftarrow> sys_free Block_App w3;
          Some (None, w4)
        })"

section \<open>Texts\<close>

fun ClientResultStr :: "ClientResult \<Rightarrow> string" where
  "ClientResultStr CLIENT_RESULT_SUCCESS = ''success''"
| "ClientResultStr CLIENT_RESULT_NULL_PTR = ''null pointer''"
| "ClientResultStr CLIENT_RESULT_INVALID_ARGUMENT = ''invalid argument''"
| "ClientResultStr CLIENT_RESULT_ALLOCATION_FAILED = ''allocation failed''"
| "ClientResultStr CLIENT_RESULT_SOCKET_ERROR = ''socket error''"
| "ClientResultStr CLIENT_RESULT_CONNECT_ERROR = ''connect error''"
| "ClientResultStr CLIENT_RESULT_NOT_CONNECTED = ''not connected''"
| "ClientResultStr CLIENT_RESULT_RECEIVE_ERROR = ''receive error''"
| "ClientResultStr CLIENT_RESULT_CONNECTION_CLOSED = ''connection closed''"
| "ClientResultStr CLIENT_RESULT_SEND_ERROR = ''send error''"

definition StatusToString :: "ChatStatus \<Rightarrow> string" where
  "StatusToString a_status =
     (if a_status = CHAT_OK then ''OK''
      else if a_status = CHAT_ERR_GENERIC then ''Generic error''
      else if a_status = CHAT_ERR_BAD_CREDS then ''Bad credentials''
      else if a_status = CHAT_ERR_NAME_TAKEN then ''Name already taken''
      else if a_status = CHAT_ERR_NOT_FOUND then ''Not found''
      else if a_status = CHAT_ERR_ALREADY_IN then ''Already in group''
      else if a_status = CHAT_ERR_NOT_IN then ''Not in group''
      else if a_status = CHAT_ERR_NOT_LOGGED_IN then ''Not logged in''
      else if a_status = CHAT_ERR_ALREADY_LOGGED_IN then ''Already logged in''
      else if a_status = CHAT_ERR_MALFORMED then ''Malformed message''
      else if a_status = CHAT_ERR_NULL_PTR then ''Null pointer''
      else ''Unknown'')"

definition hex_digit :: "nat \<Rightarrow> char" where
  "hex_digit d = char_of (if d < 10 then 48 + d else 87 + d)"

text \<open>\<open>%02x\<close> of a value below 256.\<close>

definition hex_byte :: "nat \<Rightarrow> string" where
  "hex_byte n = [hex_digit (n div 16), hex_digit (n mod 16)]"

text \<open>\<open>%.*s\<close>: at most \<open>n\<close> characters, fewer when a NUL comes first.\<close>

definition printf_prefix :: "nat \<Rightarrow> string \<Rightarrow> string option" where
  "printf_prefix n buf =
     (if NUL \<in> set (take n buf) then Some (takeWhile (\<lambda>c. c \<noteq> NUL) (take n buf))
      else if n \<le> length buf then Some (take n buf) else None)"

section \<open>One request and its response\<close>

definition zero_message :: ChatMessage where
  "zero_message = \<lparr>m_opcode = 0, m_length = 0, m_status = 0, m_value = replicate CHAT_MAX_VALUE NUL\<rparr>"

text \<open>A local \<open>ChatMessage\<close> that is not initialised; its scalars are never read before they are written.\<close>

definition uninit_message :: "'s client_os \<Rightarrow> 's world \<Rightarrow> ChatMessage" where
  "uninit_message os w = \<lparr>m_opcode = 0, m_length = 0, m_status = 0, m_value = os_uninit os CHAT_MAX_VALUE (w_sys w)\<rparr>"

text \<open>Returns whether a response was received, the response, whether the connection is gone, and the world.\<close>

definition ExchangeMessage ::
  "'s client_os \<Rightarrow> 'm ClientApp \<Rightarrow> ChatMessage \<Rightarrow> ChatMessage \<Rightarrow> 's world
     \<Rightarrow> (bool \<times> ChatMessage \<times> bool \<times> 's world) option" where
  "ExchangeMessage os a_app a_req a_outResp w = do {
     (sentLen, out) \<leftarrow> SerializeChatMessage (Some a_req) (Some (os_uninit os CHAT_MAX_TOTAL (w_sys w))) CHAT_MAX_TOTAL;
     if sentLen < 0
     then Some (False, a_outResp, False, c_print (''Internal error: failed to serialize message'' @ newline) w)
     else do {
       (sendResult, w1) \<leftarrow> ClientController_Send os (ca_controller a_app) out (nat sentLen) w;
       if sendResult \<noteq> CLIENT_RESULT_SUCCESS
       then Some (False, a_outResp, sendResult = CLIENT_RESULT_NOT_CONNECTED,
                  c_print (''Send failed: '' @ ClientResultStr sendResult @ newline) w1)
       else do {
         (recvResult, recvBuf, w2) \<leftarrow> ClientController_Receive os (ca_controller a_app)
                                        (Some (os_uninit os CONF_RECV_BUF_SIZE (w_sys w1))) CONF_RECV_BUF_SIZE w1;
         if recvResult = CLIENT_RESULT_CONNECTION_CLOSED
         then Some (False, a_outResp, True, c_print (''Server closed the connection.'' @ newline) w2)
         else if recvResult \<noteq> CLIENT_RESULT_SUCCESS
         then Some (False, a_outResp, False, c_print (''Receive failed: '' @ ClientResultStr recvResult @ newline) w2)
         else do {
           (status, resp) \<leftarrow> DeserializeChatMessage recvBuf CONF_RECV_BUF_SIZE (Some a_outResp);
           outResp \<leftarrow> resp;
           if status \<noteq> CHAT_OK
           then Some (False, outResp, False, c_print (''Received malformed response.'' @ newline) w2)
           else if m_opcode outResp \<noteq> OPCODE_RESPONSE
           then Some (False, outResp, False,
                      c_print (''Unexpected response opcode: 0x'' @ hex_byte (unat (m_opcode outResp)) @ newline) w2)
           else Some (True, outResp, False, w2)
         }
       }
     }
   }"

definition PrintResponse :: "ChatMessage \<Rightarrow> 's world \<Rightarrow> 's world option" where
  "PrintResponse a_resp w =
     (if m_status a_resp = CHAT_OK
      then (if unat (m_length a_resp) > 0
            then do {
              s \<leftarrow> printf_prefix (unat (m_length a_resp)) (m_value a_resp);
              Some (c_print (''OK: '' @ s @ newline) w)
            }
            else Some (c_print (''OK'' @ newline) w))
      else do {
        let w1 = c_print (''Error: '' @ StatusToString (m_status a_resp)) w;
        w2 \<leftarrow> (if unat (m_length a_resp) > 0
               then do {
                 s \<leftarrow> printf_prefix (unat (m_length a_resp)) (m_value a_resp);
                 Some (c_print ('' ('' @ s @ '')'') w1)
               }
               else Some w1);
        Some (c_print newline w2)
      })"

definition HandleConnect :: "'s client_os \<Rightarrow> 'm ClientApp \<Rightarrow> 's world \<Rightarrow> 'm ClientApp \<times> 's world" where
  "HandleConnect os a_app w =
     (let (result, controller, w1) = ClientController_Start os (ca_controller a_app) w;
          app1 = a_app\<lparr>ca_controller := controller\<rparr>
      in if result \<noteq> CLIENT_RESULT_SUCCESS
         then (app1, c_print (''Connect failed: '' @ ClientResultStr result @ newline) w1)
         else (app1\<lparr>ca_state := SESSION_CONNECTED\<rparr>,
               c_print (''Connected to '' @ ca_ip app1 @ '':'' @ decimal (unat (ca_port app1)) @ newline) w1))"

section \<open>Credentials\<close>

definition ReadCredentials ::
  "string \<Rightarrow> nat \<Rightarrow> string \<Rightarrow> nat \<Rightarrow> 's world \<Rightarrow> (bool \<times> string \<times> string \<times> 's world) option" where
  "ReadCredentials a_name a_nameSize a_password a_passwordSize w = do {
     (ok, nameBuf, w1) \<leftarrow> Menu_ReadLine (Some ''  username: '') (Some a_name) a_nameSize w;
     name \<leftarrow> nameBuf;
     if \<not> ok then Some (False, name, a_password, w1)
     else if name ! 0 = NUL
     then Some (False, name, a_password, c_print (''Username cannot be empty.'' @ newline) w1)
     else do {
       (ok', passBuf, w2) \<leftarrow> Menu_ReadLine (Some ''  password: '') (Some a_password) a_passwordSize w1;
       password \<leftarrow> passBuf;
       if \<not> ok' then Some (False, name, password, w2)
       else if password ! 0 = NUL
       then Some (False, name, password, c_print (''Password cannot be empty.'' @ newline) w2)
       else Some (True, name, password, w2)
     }
   }"

definition PackCredentials :: "ChatMessage \<Rightarrow> string \<Rightarrow> string \<Rightarrow> ChatMessage option" where
  "PackCredentials a_msg a_name a_password = do {
     n \<leftarrow> c_string_at a_name 0;
     p \<leftarrow> c_string_at a_password 0;
     v1 \<leftarrow> mem_write (m_value a_msg) 0 (n @ [NUL]);
     v2 \<leftarrow> mem_write v1 (length n + 1) (p @ [NUL]);
     Some (a_msg\<lparr>m_value := v2, m_length := of_nat (length n + length p + 2)\<rparr>)
   }"

text \<open>\<open>strdup\<close> into a field of the application; what the field pointed to before is not freed.\<close>

definition HandleCredentialedAction ::
  "'s client_os \<Rightarrow> 'm ClientApp \<Rightarrow> MessageOpcode \<Rightarrow> SessionState \<Rightarrow> 's world \<Rightarrow> ('m ClientApp \<times> 's world) option" where
  "HandleCredentialedAction os a_app a_opcode a_stateOnOk w = do {
     (ok, nameBuf, passBuf, w1) \<leftarrow> ReadCredentials (os_uninit os 64 (w_sys w)) 64 (os_uninit os 64 (w_sys w)) 64 w;
     if \<not> ok then Some (a_app, w1)
     else do {
       name \<leftarrow> c_string_at nameBuf 0;
       password \<leftarrow> c_string_at passBuf 0;
       if length name + length password + 2 > CHAT_MAX_VALUE
       then Some (a_app, c_print (''Credentials too long.'' @ newline) w1)
       else do {
         req \<leftarrow> PackCredentials (zero_message\<lparr>m_opcode := a_opcode, m_status := CHAT_OK\<rparr>) nameBuf passBuf;
         (got, resp, closed, w2) \<leftarrow> ExchangeMessage os a_app req (uninit_message os w1) w1;
         if \<not> got then Some (if closed then a_app\<lparr>ca_state := SESSION_DISCONNECTED\<rparr> else a_app, w2)
         else do {
           w3 \<leftarrow> PrintResponse resp w2;
           if m_status resp = CHAT_OK
           then do {
             let (nameOk, w4) = sys_alloc os (Block_Username name) w3;
             let (passOk, w5) = sys_alloc os (Block_Password password) w4;
             Some (a_app\<lparr>ca_username := (if nameOk then Some name else None),
                         ca_password := (if passOk then Some password else None),
                         ca_state := a_stateOnOk\<rparr>, w5)
           }
           else Some (a_app, w3)
         }
       }
     }
   }"

section \<open>Group endpoints\<close>

text \<open>\<open>strchr\<close>: the offset of the first such character before the terminator, if there is one.\<close>

definition c_strchr :: "string \<Rightarrow> char \<Rightarrow> nat option option" where
  "c_strchr buf c =
     (let s = takeWhile (\<lambda>x. x \<noteq> c \<and> x \<noteq> NUL) buf
      in if length s = length buf then None
         else if buf ! length s = c then Some (Some (length s)) else Some None)"

text \<open>\<open>atoi\<close>: \<open>(int)strtol(s, NULL, 10)\<close> with the saturation of \<open>strtol\<close> and the narrowing of the cast.\<close>

definition c_atoi :: "string \<Rightarrow> int option" where
  "c_atoi buf =
     (let s = dropWhile isspace buf;
          neg = (s \<noteq> [] \<and> hd s = CHR ''-'');
          s' = (if s \<noteq> [] \<and> (hd s = CHR ''-'' \<or> hd s = CHR ''+'') then tl s else s);
          ds = takeWhile is_digit s';
          v = int (digits_value ds 0);
          l = (if neg then max (- (2 ^ 63)) (- v) else min (2 ^ 63 - 1) v)
      in if length ds = length s' then None else Some ((l + 2 ^ 31) mod 2 ^ 32 - 2 ^ 31))"

text \<open>The error branches log the endpoint with \<open>%s\<close>, so it has to be terminated there.\<close>

definition ParseEndpoint ::
  "string \<Rightarrow> string \<Rightarrow> nat \<Rightarrow> 16 word \<Rightarrow> (bool \<times> string \<times> 16 word) option" where
  "ParseEndpoint a_endpoint a_ipOut a_ipSize a_portOut = do {
     colon \<leftarrow> c_strchr a_endpoint CHR '':'';
     case colon of
       None \<Rightarrow> do { _ \<leftarrow> c_string_at a_endpoint 0; Some (False, a_ipOut, a_portOut) }
     | Some ipLen \<Rightarrow>
         if ipLen = 0 \<or> ipLen \<ge> a_ipSize
         then do { _ \<leftarrow> c_string_at a_endpoint 0; Some (False, a_ipOut, a_portOut) }
         else do {
           ip1 \<leftarrow> mem_write a_ipOut 0 (take ipLen a_endpoint);
           ip2 \<leftarrow> mem_write ip1 ipLen [NUL];
           port \<leftarrow> c_atoi (drop (ipLen + 1) a_endpoint);
           if port \<le> 0 \<or> port > 65535
           then do { _ \<leftarrow> c_string_at a_endpoint 0; Some (False, ip2, a_portOut) }
           else Some (True, ip2, of_int port)
         }
   }"

definition ReadGroupName :: "string \<Rightarrow> nat \<Rightarrow> 's world \<Rightarrow> (bool \<times> string \<times> 's world) option" where
  "ReadGroupName a_name a_size w = do {
     (ok, nameBuf, w1) \<leftarrow> Menu_ReadLine (Some ''  group name: '') (Some a_name) a_size w;
     name \<leftarrow> nameBuf;
     if \<not> ok then Some (False, name, w1)
     else if name ! 0 = NUL then Some (False, name, c_print (''Group name cannot be empty.'' @ newline) w1)
     else Some (True, name, w1)
   }"

text \<open>The end of \<open>HandleGroupAction\<close>, after an accepted request: open the windows or close them.\<close>

definition group_action_done ::
  "'m windows_ops \<Rightarrow> 's client_os \<Rightarrow> 'm ClientApp \<Rightarrow> MessageOpcode \<Rightarrow> string \<Rightarrow> ChatMessage \<Rightarrow> 's world
     \<Rightarrow> ('m ClientApp \<times> 's world) option" where
  "group_action_done M os a_app a_opcode groupName resp w =
     (if a_opcode = OPCODE_CREATE_GROUP \<or> a_opcode = OPCODE_JOIN_GROUP
      then do {
        (parsed, ipBuf, port) \<leftarrow> ParseEndpoint (m_value resp)
                                   (os_uninit os CONF_MULTICAST_ENDPOINT_STR_MAX (w_sys w))
                                   CONF_MULTICAST_ENDPOINT_STR_MAX 0;
        if \<not> parsed
        then do {
          s \<leftarrow> printf_prefix (unat (m_length resp)) (m_value resp);
          Some (a_app, c_print (''Could not parse group endpoint '' @ [CHR 0x27] @ s @ [CHR 0x27] @ newline) w)
        }
        else do {
          ip \<leftarrow> c_string_at ipBuf 0;
          (result, windows, w1) \<leftarrow> GroupWindows_Open M os (ca_windows a_app) (Some groupName) (Some ip) port
                                     (ca_username a_app) w;
          Some (a_app\<lparr>ca_windows := windows\<rparr>,
                if result \<noteq> GROUP_WINDOWS_SUCCESS
                then c_print (''Failed to open chat windows for group '' @ [CHR 0x27] @ groupName @ [CHR 0x27] @ ''.'' @ newline) w1
                else w1)
        }
      }
      else if a_opcode = OPCODE_LEAVE_GROUP
      then do {
        (_, windows, w1) \<leftarrow> GroupWindows_Close M os (ca_windows a_app) (Some groupName) w;
        Some (a_app\<lparr>ca_windows := windows\<rparr>, w1)
      }
      else Some (a_app, w))"

definition HandleGroupAction ::
  "'m windows_ops \<Rightarrow> 's client_os \<Rightarrow> 'm ClientApp \<Rightarrow> MessageOpcode \<Rightarrow> 's world \<Rightarrow> ('m ClientApp \<times> 's world) option" where
  "HandleGroupAction M os a_app a_opcode w = do {
     (ok, nameBuf, w1) \<leftarrow> ReadGroupName (os_uninit os 128 (w_sys w)) 128 w;
     if \<not> ok then Some (a_app, w1)
     else do {
       groupName \<leftarrow> c_string_at nameBuf 0;
       if length groupName + 1 > CHAT_MAX_VALUE
       then Some (a_app, c_print (''Group name too long.'' @ newline) w1)
       else do {
         v \<leftarrow> mem_write (m_value zero_message) 0 (groupName @ [NUL]);
         let req = zero_message\<lparr>m_opcode := a_opcode, m_status := CHAT_OK, m_value := v,
                                m_length := of_nat (length groupName + 1)\<rparr>;
         (got, resp, closed, w2) \<leftarrow> ExchangeMessage os a_app req (uninit_message os w1) w1;
         if \<not> got then Some (if closed then a_app\<lparr>ca_state := SESSION_DISCONNECTED\<rparr> else a_app, w2)
         else do {
           w3 \<leftarrow> PrintResponse resp w2;
           if m_status resp \<noteq> CHAT_OK then Some (a_app, w3)
           else group_action_done M os a_app a_opcode groupName resp w3
         }
       }
     }
   }"

section \<open>The other choices\<close>

definition HandleLogout ::
  "'m windows_ops \<Rightarrow> 's client_os \<Rightarrow> 'm ClientApp \<Rightarrow> 's world \<Rightarrow> ('m ClientApp \<times> 's world) option" where
  "HandleLogout M os a_app w = do {
     username \<leftarrow> ca_username a_app;
     v \<leftarrow> mem_write (m_value zero_message) 0 (username @ [NUL]);
     let req = zero_message\<lparr>m_opcode := OPCODE_LOGOUT, m_status := CHAT_OK, m_value := v, m_length := 0\<rparr>;
     (got, resp, closed, w1) \<leftarrow> ExchangeMessage os a_app req (uninit_message os w) w;
     if \<not> got then Some (if closed then a_app\<lparr>ca_state := SESSION_DISCONNECTED\<rparr> else a_app, w1)
     else do {
       w2 \<leftarrow> PrintResponse resp w1;
       if m_status resp = CHAT_OK
       then do {
         (windows, w3) \<leftarrow> GroupWindows_CloseAll M os (ca_windows a_app) w2;
         Some (a_app\<lparr>ca_windows := windows, ca_state := SESSION_CONNECTED\<rparr>, w3)
       }
       else Some (a_app, w2)
     }
   }"

definition HandleListAction ::
  "'s client_os \<Rightarrow> 'm ClientApp \<Rightarrow> MessageOpcode \<Rightarrow> 's world \<Rightarrow> ('m ClientApp \<times> 's world) option" where
  "HandleListAction os a_app a_opcode w = do {
     let req = zero_message\<lparr>m_opcode := a_opcode, m_status := CHAT_OK, m_length := 0\<rparr>;
     (got, resp, closed, w1) \<leftarrow> ExchangeMessage os a_app req (uninit_message os w) w;
     if \<not> got then Some (if closed then a_app\<lparr>ca_state := SESSION_DISCONNECTED\<rparr> else a_app, w1)
     else do {
       w2 \<leftarrow> PrintResponse resp w1;
       Some (a_app, w2)
     }
   }"

definition HandleExit ::
  "'m windows_ops \<Rightarrow> 's client_os \<Rightarrow> 'm ClientApp \<Rightarrow> 's world \<Rightarrow> ('m ClientApp \<times> 's world) option" where
  "HandleExit M os a_app w =
     (if ca_state a_app = SESSION_DISCONNECTED then Some (a_app, w)
      else do {
        let req = zero_message\<lparr>m_opcode := OPCODE_EXIT, m_status := CHAT_OK, m_length := 0\<rparr>;
        (sentLen, out) \<leftarrow> SerializeChatMessage (Some req) (Some (os_uninit os CHAT_MAX_TOTAL (w_sys w))) CHAT_MAX_TOTAL;
        w1 \<leftarrow> (if sentLen > 0
               then do { (_, w') \<leftarrow> ClientController_Send os (ca_controller a_app) out (nat sentLen) w; Some w' }
               else Some w);
        (windows, w2) \<leftarrow> GroupWindows_CloseAll M os (ca_windows a_app) w1;
        let (_, controller, w3) = ClientController_Stop os (ca_controller a_app) w2;
        Some (a_app\<lparr>ca_windows := windows, ca_controller := controller, ca_state := SESSION_DISCONNECTED\<rparr>, w3)
      })"

section \<open>The menu loop\<close>

text \<open>The \<open>switch\<close> of \<open>ClientApp_Run\<close>, apart from \<open>MENU_EXIT\<close>, which leaves the loop.\<close>

fun dispatch ::
  "'m windows_ops \<Rightarrow> 's client_os \<Rightarrow> 'm ClientApp \<Rightarrow> MenuChoice \<Rightarrow> 's world \<Rightarrow> ('m ClientApp \<times> 's world) option" where
  "dispatch M os app MENU_CONNECT w = Some (HandleConnect os app w)"
| "dispatch M os app MENU_REGISTER w = HandleCredentialedAction os app OPCODE_REGISTER SESSION_LOGGED_IN w"
| "dispatch M os app MENU_LOGIN w = HandleCredentialedAction os app OPCODE_LOGIN SESSION_LOGGED_IN w"
| "dispatch M os app MENU_LOGOUT w = HandleLogout M os app w"
| "dispatch M os app MENU_CREATE_GROUP w = HandleGroupAction M os app OPCODE_CREATE_GROUP w"
| "dispatch M os app MENU_JOIN_GROUP w = HandleGroupAction M os app OPCODE_JOIN_GROUP w"
| "dispatch M os app MENU_LEAVE_GROUP w = HandleGroupAction M os app OPCODE_LEAVE_GROUP w"
| "dispatch M os app MENU_DISPLAY_USERS w = HandleListAction os app OPCODE_LIST_USERS w"
| "dispatch M os app MENU_DISPLAY_GROUPS w = HandleListAction os app OPCODE_LIST_GROUPS w"
| "dispatch M os app _ w = Some (app, c_print (''Invalid selection.'' @ newline) w)"

partial_function (option) client_loop ::
  "'m windows_ops \<Rightarrow> 's client_os \<Rightarrow> 'm ClientApp \<Rightarrow> string \<Rightarrow> 's world \<Rightarrow> (int \<times> 'm ClientApp \<times> 's world) option" where
  "client_loop M os app line w =
     Option.bind (Menu_ReadLine (Some ''> '') (Some line) CONF_MENU_LINE_MAX (Menu_Render (ca_state app) w))
       (\<lambda>(ok, lineBuf, w1). Option.bind lineBuf (\<lambda>line1.
          if \<not> ok
          then Option.bind (HandleExit M os app (c_print (newline @ ''EOF on stdin, exiting.'' @ newline) w1))
                 (\<lambda>(app', w'). Some (0, app', w'))
          else Option.bind (c_string_at line1 0) (\<lambda>s.
            if Menu_Parse (Some s) (ca_state app) = MENU_EXIT
            then Option.bind (HandleExit M os app w1) (\<lambda>(app', w'). Some (0, app', w'))
            else Option.bind (dispatch M os app (Menu_Parse (Some s) (ca_state app)) w1)
                   (\<lambda>(app', w'). client_loop M os app' line1 w'))))"

definition ClientApp_Run ::
  "'m windows_ops \<Rightarrow> 's client_os \<Rightarrow> 'm ClientApp option \<Rightarrow> 's world \<Rightarrow> (int \<times> 'm ClientApp option \<times> 's world) option" where
  "ClientApp_Run M os a_app w =
     (case a_app of
        None \<Rightarrow> Some (1, None, w)
      | Some app \<Rightarrow> do {
          (rc, app', w') \<leftarrow> client_loop M os app (os_uninit os CONF_MENU_LINE_MAX (w_sys w)) w;
          Some (rc, Some app', w')
        })"

text \<open>\<open>clientMain.c\<close>: create, run, destroy.\<close>

definition client_main :: "'m windows_ops \<Rightarrow> 's client_os \<Rightarrow> 's world \<Rightarrow> (int \<times> 's world) option" where
  "client_main M os w = do {
     (app, w1) \<leftarrow> ClientApp_Create M os (Some CONF_SERVER_IP) CONF_SERVER_PORT w;
     if app = None then Some (1, w1)
     else do {
       (rc, app', w2) \<leftarrow> ClientApp_Run M os app w1;
       (_, w3) \<leftarrow> ClientApp_Destroy M os app' w2;
       Some (rc, w3)
     }
   }"

end
