(* ===== verification/Chat_Windows.thy ===== *)
theory Chat_Windows
  imports Client_App
begin

text \<open>
  The two programs a client starts in windows of their own: \<open>src/ChatWindows/chat_sender.c\<close> reads lines and
  sends each as a datagram to the group's multicast endpoint, \<open>src/ChatWindows/chat_receiver.c\<close> joins the
  endpoint and prints every datagram, and \<open>src/ChatIpc.c\<close> reports the process id of either to the client.
  The programs share the client's world (standard input and the trace of calls) and have a record of system
  calls of their own.  The receiver's loop ends only when \<open>recvfrom\<close> fails: the model runs a given number of
  its iterations and says whether it has ended by then.
\<close>

section \<open>System calls\<close>

record 's chat_os =
  co_uninit :: "nat \<Rightarrow> 's \<Rightarrow> string"
  co_getpid :: int
  co_mq_open :: "'s \<Rightarrow> int \<times> 's"
  co_mq_send :: "int \<Rightarrow> ChatPidMsg \<Rightarrow> 's \<Rightarrow> int \<times> 's"
  co_mq_close :: "int \<Rightarrow> 's \<Rightarrow> 's"
  co_socket :: "'s \<Rightarrow> int \<times> 's"
  co_reuseaddr :: "int \<Rightarrow> 's \<Rightarrow> int \<times> 's"
  co_bind :: "int \<Rightarrow> 32 word \<Rightarrow> 16 word \<Rightarrow> 's \<Rightarrow> int \<times> 's"
  co_add_membership :: "int \<Rightarrow> 32 word \<Rightarrow> 's \<Rightarrow> int \<times> 's"
  co_sendto :: "int \<Rightarrow> string \<Rightarrow> 32 word \<Rightarrow> 16 word \<Rightarrow> 's \<Rightarrow> int \<times> 's"
  co_recvfrom :: "int \<Rightarrow> nat \<Rightarrow> 's \<Rightarrow> (int \<times> string) \<times> 's"
  co_close :: "int \<Rightarrow> 's \<Rightarrow> 's"

text \<open>A call that returns an integer and leaves a mark in the trace, and one that does not.\<close>

definition call :: "('s \<Rightarrow> int \<times> 's) \<Rightarrow> sys_event list \<Rightarrow> 's world \<Rightarrow> int \<times> 's world" where
  "call f evs w = (case f (w_sys w) of (rc, s) \<Rightarrow> (rc, w\<lparr>w_sys := s, w_trace := w_trace w @ evs\<rparr>))"

definition c_perror :: "string \<Rightarrow> 's world \<Rightarrow> 's world" where
  "c_perror s w = emit (Ev_Error s) w"

definition chat_close :: "'s chat_os \<Rightarrow> int \<Rightarrow> 's world \<Rightarrow> 's world" where
  "chat_close os fd w = emit (Ev_Close fd) (w\<lparr>w_sys := co_close os fd (w_sys w)\<rparr>)"

definition chat_recvfrom :: "'s chat_os \<Rightarrow> int \<Rightarrow> string \<Rightarrow> nat \<Rightarrow> 's world \<Rightarrow> (int \<times> string \<times> 's world) option" where
  "chat_recvfrom os fd buf len w =
     (case co_recvfrom os fd len (w_sys w) of
        ((n, bytes), s) \<Rightarrow>
          if n < 0 then Some (n, buf, w\<lparr>w_sys := s\<rparr>)
          else do {
            buf' \<leftarrow> mem_write buf 0 (take (nat n) bytes);
            Some (n, buf', w\<lparr>w_sys := s\<rparr>)
          })"

section \<open>Parsing an address\<close>

text \<open>
  \<open>strtoul\<close> with base 0 on a text that starts with a digit: hexadecimal after \<open>0x\<close>, octal after \<open>0\<close>,
  decimal otherwise.  The value is unbounded here; \<open>inet_addr\<close> rejects every value above 32 bits.
\<close>

definition hex_value :: "char \<Rightarrow> nat" where
  "hex_value c =
     (let k = (of_char c :: nat) in if k \<le> 57 then k - 48 else if k \<le> 70 then k - 55 else k - 87)"

definition based_value :: "nat \<Rightarrow> string \<Rightarrow> nat" where
  "based_value b ds = foldl (\<lambda>v c. v * b + hex_value c) 0 ds"

definition is_octal :: "char \<Rightarrow> bool" where
  "is_octal c \<longleftrightarrow> 48 \<le> (of_char c :: nat) \<and> (of_char c :: nat) \<le> 55"

definition strtoul0 :: "string \<Rightarrow> nat \<times> string" where
  "strtoul0 s =
     (if 2 < length s \<and> s ! 0 = CHR ''0'' \<and> (s ! 1 = CHR ''x'' \<or> s ! 1 = CHR ''X'') \<and> is_xdigit (s ! 2)
      then (based_value 16 (takeWhile is_xdigit (drop 2 s)), dropWhile is_xdigit (drop 2 s))
      else if s \<noteq> [] \<and> hd s = CHR ''0'' then (based_value 8 (takeWhile is_octal s), dropWhile is_octal s)
      else (based_value 10 (takeWhile is_digit s), dropWhile is_digit s))"

text \<open>The big-endian bytes of the last part, which fills the rest of the address.\<close>

fun big_endian :: "nat \<Rightarrow> nat \<Rightarrow> nat list" where
  "big_endian 0 v = []"
| "big_endian (Suc k) v = big_endian k (v div 256) @ [v mod 256]"

fun inet_aton_from :: "nat \<Rightarrow> nat list \<Rightarrow> string \<Rightarrow> nat list option" where
  "inet_aton_from dots octets s =
     (if s = [] \<or> \<not> is_digit (hd s) then None
      else case strtoul0 s of
        (v, rest) \<Rightarrow>
          if v > 4294967295 then None
          else if rest \<noteq> [] \<and> hd rest = CHR ''.'' then
            (case dots of
               0 \<Rightarrow> None
             | Suc k \<Rightarrow> if v > 255 then None else inet_aton_from k (octets @ [v]) (tl rest))
          else if rest \<noteq> [] \<and> \<not> isspace (hd rest) then None
          else if v \<ge> 256 ^ (4 - length octets) then None
          else Some (octets @ big_endian (4 - length octets) v))"

definition inet_addr :: "string \<Rightarrow> 32 word" where
  "inet_addr s = (case inet_aton_from 3 [] s of None \<Rightarrow> 4294967295 | Some bs \<Rightarrow> addr_of_bytes bs)"

section \<open>Reporting the process id\<close>

definition ChatIpc_ReportPid :: "'s chat_os \<Rightarrow> int \<Rightarrow> 's world \<Rightarrow> 's world" where
  "ChatIpc_ReportPid os a_role w =
     (let (mq, w1) = call (co_mq_open os) [] w
      in if mq = - 1 then c_perror ''ChatIpc_ReportPid: mq_open'' w1
         else let msg = \<lparr>m_role = a_role, m_pid = co_getpid os\<rparr>;
                  (rc, w2) = call (co_mq_send os mq msg) [Ev_Report mq msg] w1;
                  w3 = (if rc = - 1 then c_perror ''ChatIpc_ReportPid: mq_send'' w2 else w2)
              in emit (Ev_QueueClose mq) (w3\<lparr>w_sys := co_mq_close os mq (w_sys w3)\<rparr>))"

section \<open>The sender window\<close>

record sockaddr_in =
  sin_addr :: "32 word"
  sin_port :: "16 word"

text \<open>The destination is written only when the socket was created.\<close>

definition CreateMulticastSender ::
  "'s chat_os \<Rightarrow> string \<Rightarrow> 16 word \<Rightarrow> sockaddr_in option \<Rightarrow> 's world \<Rightarrow> int \<times> sockaddr_in option \<times> 's world" where
  "CreateMulticastSender os a_ip a_port a_outDest w =
     (let (fd, w1) = call (co_socket os) [] w
      in if fd < 0 then (- 1, a_outDest, c_perror ''chat_sender: socket'' w1)
         else (fd, Some \<lparr>sin_addr = inet_addr a_ip, sin_port = htons a_port\<rparr>, w1))"

text \<open>The body of the loop for a line that was read: whether the loop goes on, and the line buffer.\<close>

definition send_line ::
  "'s chat_os \<Rightarrow> int \<Rightarrow> sockaddr_in \<Rightarrow> string \<Rightarrow> string \<Rightarrow> 's world \<Rightarrow> (bool \<times> string \<times> 's world) option" where
  "send_line os fd dest username line w = do {
     s \<leftarrow> c_string_at line 0;
     line1 \<leftarrow> mem_write line (length (takeWhile (\<lambda>c. c \<noteq> CHR 0x0A) s)) [NUL];
     text \<leftarrow> c_string_at line1 0;
     if text = [] then Some (True, line1, w)
     else do {
       let msg = co_uninit os CONF_CHAT_MSG_MAX (w_sys w);
       (written, msg1) \<leftarrow> snprintf msg 0 CONF_CHAT_MSG_MAX (username @ '': '' @ text);
       if written < 0 then Some (True, line1, w)
       else do {
         let toSend = (if written \<ge> int CONF_CHAT_MSG_MAX then CONF_CHAT_MSG_MAX - 1 else nat written);
         bytes \<leftarrow> mem_read msg1 0 toSend;
         let (rc, w1) = call (co_sendto os fd bytes (sin_addr dest) (sin_port dest))
                          [Ev_Datagram fd bytes (sin_addr dest) (sin_port dest)] w;
         if rc < 0 then Some (False, line1, c_perror ''chat_sender: sendto'' w1) else Some (True, line1, w1)
       }
     }
   }"

lemma call_frame [sys_frame]:
  assumes "call f evs w = (rc, w')"
  shows "w_stdin w' = w_stdin w" "w_live w' = w_live w" "w_trace w' = w_trace w @ evs"
    "f (w_sys w) = (rc, w_sys w')"
  using assms by (auto simp: call_def split: prod.splits)

lemma c_perror_frame [simp, sys_frame]:
  "w_stdin (c_perror s w) = w_stdin w" "w_live (c_perror s w) = w_live w" "w_sys (c_perror s w) = w_sys w"
  "w_trace (c_perror s w) = w_trace w @ [Ev_Error s]"
  by (simp_all add: c_perror_def)

lemma chat_close_frame [simp, sys_frame]:
  "w_stdin (chat_close os fd w) = w_stdin w" "w_live (chat_close os fd w) = w_live w"
  "w_trace (chat_close os fd w) = w_trace w @ [Ev_Close fd]" "w_sys (chat_close os fd w) = co_close os fd (w_sys w)"
  by (simp_all add: chat_close_def)

lemma send_line_stdin: "send_line os fd dest user line w = Some (go, line', w') \<Longrightarrow> w_stdin w' = w_stdin w"
  by (auto simp: send_line_def Let_def call_frame split: Option.bind_splits if_splits prod.splits)

lemma fgets_consumes:
  assumes "fgets buf n w = Some (True, buf', w')" and "1 < n"
  shows "length (w_stdin w') < length (w_stdin w)"
proof -
  obtain l rest where t: "take_line (n - 1) (w_stdin w) = (l, rest)" by (cases "take_line (n - 1) (w_stdin w)")
  then have "l \<noteq> []" "w_stdin w' = rest" using assms by (auto simp: fgets_def split: if_splits Option.bind_splits)
  moreover have "w_stdin w = l @ rest" using take_line_split [OF t] by blast
  ultimately show ?thesis by simp
qed

text \<open>The loop ends because every line consumes input.\<close>

function send_lines :: "'s chat_os \<Rightarrow> int \<Rightarrow> sockaddr_in \<Rightarrow> string \<Rightarrow> string \<Rightarrow> 's world \<Rightarrow> 's world option" where
  "send_lines os fd dest username line w = do {
     (got, line1, w1) \<leftarrow> fgets line CONF_CHAT_MSG_MAX w;
     if \<not> got then Some w1
     else do {
       (go, line2, w2) \<leftarrow> send_line os fd dest username line1 w1;
       if \<not> go then Some w2 else send_lines os fd dest username line2 w2
     }
   }"
  by pat_completeness auto
termination
  by (relation "measure (\<lambda>(os, fd, dest, username, line, w). length (w_stdin w))")
    (auto simp: send_line_stdin config_defs dest: fgets_consumes)

declare send_lines.simps [simp del] inet_aton_from.simps [simp del]

text \<open>The programs' arguments start with the program's name; their number is \<open>argc\<close>.\<close>

definition usage :: "string list \<Rightarrow> string \<Rightarrow> 's world \<Rightarrow> 's world option" where
  "usage argv args w =
     (case argv of [] \<Rightarrow> None | prog # _ \<Rightarrow> Some (emit (Ev_Error (''usage: '' @ prog @ args @ newline)) w))"

text \<open>\<open>(uint16_t)atoi(argv[i])\<close>.\<close>

definition port_arg :: "string \<Rightarrow> 16 word option" where
  "port_arg s = map_option of_int (c_atoi (s @ [NUL]))"

definition chat_sender_main :: "'s chat_os \<Rightarrow> string list \<Rightarrow> 's world \<Rightarrow> (int \<times> 's world) option" where
  "chat_sender_main os argv w =
     (if length argv \<noteq> 4 then do { w1 \<leftarrow> usage argv '' <multicast_ip> <port> <username>'' w; Some (1, w1) }
      else do {
        let ip = argv ! 1;
        port \<leftarrow> port_arg (argv ! 2);
        let username = argv ! 3;
        let w1 = ChatIpc_ReportPid os CHAT_ROLE_SENDER w;
        let (fd, dest, w2) = CreateMulticastSender os ip port None w1;
        if fd < 0 then Some (1, w2)
        else do {
          let w3 = c_print (''Connected to '' @ ip @ '':'' @ decimal (unat port) @ '' as '' @ [CHR 0x27] @ username @ [CHR 0x27]
                     @ ''. Type a message and press Enter (close this window to stop).'' @ newline) w2;
          to \<leftarrow> dest;
          w4 \<leftarrow> send_lines os fd to username (co_uninit os CONF_CHAT_MSG_MAX (w_sys w3)) w3;
          Some (0, chat_close os fd w4)
        }
      })"

section \<open>The receiver window\<close>

definition INADDR_ANY :: "32 word" where "INADDR_ANY = 0"

definition CreateAndJoinMulticast :: "'s chat_os \<Rightarrow> string \<Rightarrow> 16 word \<Rightarrow> 's world \<Rightarrow> int \<times> 's world" where
  "CreateAndJoinMulticast os a_ip a_port w =
     (let (fd, w1) = call (co_socket os) [] w
      in if fd < 0 then (- 1, c_perror ''chat_receiver: socket'' w1)
         else let (rc, w2) = call (co_reuseaddr os fd) [] w1
              in if rc < 0 then (- 1, chat_close os fd (c_perror ''chat_receiver: SO_REUSEADDR'' w2))
                 else let (rc, w3) = call (co_bind os fd INADDR_ANY (htons a_port)) [Ev_Bind fd INADDR_ANY (htons a_port)] w2
                      in if rc < 0 then (- 1, chat_close os fd (c_perror ''chat_receiver: bind'' w3))
                         else let addr = inet_addr a_ip;
                                  (rc, w4) = call (co_add_membership os fd addr) [Ev_Membership fd addr] w3
                              in if rc < 0 then (- 1, chat_close os fd (c_perror ''chat_receiver: IP_ADD_MEMBERSHIP'' w4))
                                 else (fd, w4))"

text \<open>At most \<open>n\<close> iterations of the loop; the flag tells that it has ended.\<close>

fun receive_loop :: "nat \<Rightarrow> 's chat_os \<Rightarrow> int \<Rightarrow> string \<Rightarrow> 's world \<Rightarrow> (bool \<times> 's world) option" where
  "receive_loop 0 os fd buf w = Some (False, w)"
| "receive_loop (Suc n) os fd buf w = do {
     (received, buf1, w1) \<leftarrow> chat_recvfrom os fd buf (CONF_CHAT_MSG_MAX - 1) w;
     if received < 0 then Some (True, c_perror ''chat_receiver: recvfrom'' w1)
     else do {
       buf2 \<leftarrow> mem_write buf1 (nat received) [NUL];
       text \<leftarrow> c_string_at buf2 0;
       receive_loop n os fd buf2 (c_print (text @ newline) w1)
     }
   }"

text \<open>The exit code is \<^term>\<open>None\<close> while the loop goes on.\<close>

definition chat_receiver_main :: "nat \<Rightarrow> 's chat_os \<Rightarrow> string list \<Rightarrow> 's world \<Rightarrow> (int option \<times> 's world) option" where
  "chat_receiver_main n os argv w =
     (if length argv \<noteq> 3 then do { w1 \<leftarrow> usage argv '' <multicast_ip> <port>'' w; Some (Some 1, w1) }
      else do {
        let ip = argv ! 1;
        port \<leftarrow> port_arg (argv ! 2);
        let w1 = ChatIpc_ReportPid os CHAT_ROLE_RECEIVER w;
        let (fd, w2) = CreateAndJoinMulticast os ip port w1;
        if fd < 0 then Some (Some 1, w2)
        else do {
          let w3 = c_print (''Listening on '' @ ip @ '':'' @ decimal (unat port) @ ''  (close this window to stop)'' @ newline) w2;
          (ended, w4) \<leftarrow> receive_loop n os fd (co_uninit os CONF_CHAT_MSG_MAX (w_sys w3)) w3;
          Some (if ended then (Some 0, chat_close os fd w4) else (None, w4))
        }
      })"

end
