(* ===== verification/Group_Windows_Inv.thy ===== *)
theory Group_Windows_Inv
  imports Group_Windows
begin

text \<open>
  Correctness of the chat-window manager.  \<open>windows_view\<close> is the finite map the manager stands for;
  \<open>windows_inv\<close> says that the hash map is sound and that the live key and pair blocks are exactly those of
  the tracked groups; \<open>justified\<close> that every signal in a trace goes to a positive process id that was
  reported before.  The operations are analysed once, inside a locale over the hash map contract.
\<close>

section \<open>Views and invariants\<close>

definition kills_of :: "GroupPids \<Rightarrow> sys_event list" where
  "kills_of pids = map Ev_Kill (filter (\<lambda>p. 0 < p) [m_sender pids, m_receiver pids])"

definition windows_view :: "'m windows_ops \<Rightarrow> 'm GroupWindows \<Rightarrow> string \<rightharpoonup> GroupPids" where
  "windows_view M gw = (case gw_groups gw of None \<Rightarrow> Map.empty | Some m \<Rightarrow> hm_lookup M m)"

definition window_block :: "client_block \<Rightarrow> bool" where
  "window_block b \<longleftrightarrow> (\<exists>g. b = Block_Key g \<or> b = Block_Pids g)"

text \<open>The blocks of the rest of the client.\<close>

definition other_live :: "'s world \<Rightarrow> client_block list" where
  "other_live w = filter (\<lambda>b. \<not> window_block b) (w_live w)"

definition owns :: "'s world \<Rightarrow> (string \<rightharpoonup> GroupPids) \<Rightarrow> bool" where
  "owns w v \<longleftrightarrow> (\<forall>g. count (mset (w_live w)) (Block_Key g) = (if v g = None then 0 else 1)
     \<and> count (mset (w_live w)) (Block_Pids g) = (if v g = None then 0 else 1))"

definition windows_inv :: "'m windows_ops \<Rightarrow> 'm GroupWindows \<Rightarrow> 's world \<Rightarrow> bool" where
  "windows_inv M gw w \<longleftrightarrow> (\<exists>m. gw_groups gw = Some m \<and> HashMap_Ok M m) \<and> owns w (windows_view M gw)"

text \<open>A process reported the id; what the reports in a trace make of a pair.\<close>

definition reported :: "sys_event list \<Rightarrow> int \<Rightarrow> bool" where
  "reported tr p \<longleftrightarrow> (\<exists>role. Ev_Pid role p \<in> set tr)"

fun store_report :: "sys_event \<Rightarrow> GroupPids \<Rightarrow> GroupPids" where
  "store_report (Ev_Pid role p) pids = (if role = CHAT_ROLE_SENDER then pids\<lparr>m_sender := p\<rparr> else pids\<lparr>m_receiver := p\<rparr>)"
| "store_report _ pids = pids"

definition collected :: "sys_event list \<Rightarrow> GroupPids \<Rightarrow> bool" where
  "collected evs pids \<longleftrightarrow> (\<forall>e \<in> set evs. \<exists>role p. e = Ev_Pid role p) \<and> pids = fold store_report evs \<lparr>m_sender = 0, m_receiver = 0\<rparr>"

definition pids_known :: "sys_event list \<Rightarrow> GroupPids \<Rightarrow> bool" where
  "pids_known tr pids \<longleftrightarrow> (\<forall>p \<in> {m_sender pids, m_receiver pids}. 0 < p \<longrightarrow> reported tr p)"

definition justified :: "sys_event list \<Rightarrow> bool" where
  "justified tr \<longleftrightarrow> (\<forall>pre p post. tr = pre @ Ev_Kill p # post \<longrightarrow> 0 < p \<and> reported pre p)"

definition windows_safe :: "'m windows_ops \<Rightarrow> 'm GroupWindows \<Rightarrow> 's world \<Rightarrow> bool" where
  "windows_safe M gw w \<longleftrightarrow> justified (w_trace w) \<and> (\<forall>g pids. windows_view M gw g = Some pids \<longrightarrow> pids_known (w_trace w) pids)"

definition window_event :: "sys_event \<Rightarrow> bool" where
  "window_event e = (case e of Ev_System _ \<Rightarrow> True | Ev_Pid _ _ \<Rightarrow> True | Ev_Kill _ \<Rightarrow> True | _ \<Rightarrow> False)"

text \<open>What an operation of the manager may do to the world.\<close>

definition windows_frame :: "'m GroupWindows \<Rightarrow> 's world \<Rightarrow> 'm GroupWindows \<Rightarrow> 's world \<Rightarrow> bool" where
  "windows_frame gw w gw' w' \<longleftrightarrow> w_stdin w' = w_stdin w \<and> other_live w' = other_live w \<and> gw_queue gw' = gw_queue gw
     \<and> (\<exists>evs. w_trace w' = w_trace w @ evs \<and> (\<forall>e \<in> set evs. window_event e))"

section \<open>Traces\<close>

lemma reported_append: "reported tr p \<Longrightarrow> reported (tr @ evs) p" "reported evs p \<Longrightarrow> reported (tr @ evs) p"
  by (auto simp: reported_def)

lemma justified_append:
  assumes "justified tr" and "\<And>pre p post. evs = pre @ Ev_Kill p # post \<Longrightarrow> 0 < p \<and> reported (tr @ pre) p"
  shows "justified (tr @ evs)"
  using assms by (fastforce simp: justified_def append_eq_append_conv2 append_eq_Cons_conv reported_def)

lemma justified_quiet: "justified tr \<Longrightarrow> \<forall>e \<in> set evs. \<forall>p. e \<noteq> Ev_Kill p \<Longrightarrow> justified (tr @ evs)"
  by (rule justified_append) auto

lemma justified_kills: "justified tr \<Longrightarrow> pids_known tr pids \<Longrightarrow> justified (tr @ kills_of pids)"
proof (rule justified_append)
  fix pre p post
  assume k: "pids_known tr pids" and "kills_of pids = pre @ Ev_Kill p # post"
  then have "Ev_Kill p \<in> set (kills_of pids)" by simp
  then show "0 < p \<and> reported (tr @ pre) p" using k reported_append(1) by (auto simp: kills_of_def pids_known_def split: if_splits)
qed

lemma pids_known_append: "pids_known tr pids \<Longrightarrow> pids_known (tr @ evs) pids"
  using reported_append(1) by (auto simp: pids_known_def)

lemma fold_store_report:
  assumes "pids_known tr pids" and "\<forall>e \<in> set evs. \<exists>role p. e = Ev_Pid role p"
  shows "pids_known (tr @ evs) (fold store_report evs pids)"
  using assms
proof (induction evs arbitrary: tr pids)
  case (Cons e evs)
  then obtain role p where e: "e = Ev_Pid role p" by auto
  have "pids_known (tr @ [e]) (store_report e pids)" using Cons.prems(1) by (auto simp: e pids_known_def reported_def)
  from Cons.IH [OF this] Cons.prems(2) show ?case by simp
qed simp

lemma collected_known: "collected evs pids \<Longrightarrow> pids_known (tr @ evs) pids"
  using fold_store_report [of tr "\<lparr>m_sender = 0, m_receiver = 0\<rparr>" evs] by (auto simp: collected_def pids_known_def)

lemma kills_of_events: "\<forall>e \<in> set (kills_of pids). window_event e"
  by (auto simp: kills_of_def window_event_def)

lemma KillPids_frame [simp]:
  "w_stdin (KillPids os pids w) = w_stdin w" "w_live (KillPids os pids w) = w_live w"
  "w_trace (KillPids os pids w) = w_trace w @ kills_of pids"
proof -
  have k: "w_stdin (snd (sys_kill os p w)) = w_stdin w" "w_live (snd (sys_kill os p w)) = w_live w"
    "w_trace (snd (sys_kill os p w)) = w_trace w @ [Ev_Kill p]" for p and w :: "'a world"
    using sys_result_frame(5) [of os p w] by (metis prod.collapse)+
  show "w_stdin (KillPids os pids w) = w_stdin w" "w_live (KillPids os pids w) = w_live w"
    "w_trace (KillPids os pids w) = w_trace w @ kills_of pids"
    by (simp_all add: KillPids_def Let_def k kills_of_def)
qed

lemma SpawnWindow_frame:
  assumes "SpawnWindow os cmd w = (r, w')"
  shows "w_stdin w' = w_stdin w" "w_live w' = w_live w" "w_trace w' = w_trace w @ [Ev_System cmd]"
    "r = GROUP_WINDOWS_SUCCESS \<or> r = GROUP_WINDOWS_SPAWN_FAILED"
  using assms by (auto simp: SpawnWindow_def Let_def dest: sys_result_frame(4) split: prod.splits if_splits)

text \<open>The ids are stored by the roles that were reported.\<close>

lemma collect_pids_frame:
  assumes "collect_pids n os gw pids w = (r, pids', w')"
  shows "w_stdin w' = w_stdin w \<and> w_live w' = w_live w
    \<and> (\<exists>evs. w_trace w' = w_trace w @ evs \<and> (\<forall>e \<in> set evs. \<exists>role p. e = Ev_Pid role p)
          \<and> pids' = fold store_report evs pids \<and> (r = GROUP_WINDOWS_SUCCESS \<longrightarrow> length evs = n))
    \<and> (r = GROUP_WINDOWS_SUCCESS \<or> r = GROUP_WINDOWS_PID_TIMEOUT)"
  using assms
proof (induction n arbitrary: pids w)
  case (Suc n)
  show ?case
  proof (cases "sys_mq_timedreceive os (gw_queue gw) w")
    case (Pair got w1)
    note f = sys_mq_timedreceive_frame [OF Pair]
    show ?thesis
    proof (cases got)
      case None
      with Pair Suc.prems f show ?thesis by (auto simp: CollectPid_def)
    next
      case (Some msg)
      let ?p1 = "if m_role msg = CHAT_ROLE_SENDER then pids\<lparr>m_sender := m_pid msg\<rparr> else pids\<lparr>m_receiver := m_pid msg\<rparr>"
      have c: "collect_pids n os gw ?p1 w1 = (r, pids', w')"
        using Suc.prems Pair Some by (simp add: CollectPid_def split: if_splits)
      have p1: "store_report (Ev_Pid (m_role msg) (m_pid msg)) pids = ?p1" by simp
      from Suc.IH [OF c] obtain evs where "w_trace w' = w_trace w1 @ evs" "\<forall>e \<in> set evs. \<exists>role p. e = Ev_Pid role p"
          "pids' = fold store_report evs ?p1" "r = GROUP_WINDOWS_SUCCESS \<longrightarrow> length evs = n" by blast
      then have "w_trace w' = w_trace w @ Ev_Pid (m_role msg) (m_pid msg) # evs \<and> pids' = fold store_report (Ev_Pid (m_role msg) (m_pid msg) # evs) pids
          \<and> (\<forall>e \<in> set (Ev_Pid (m_role msg) (m_pid msg) # evs). \<exists>role p. e = Ev_Pid role p)
          \<and> (r = GROUP_WINDOWS_SUCCESS \<longrightarrow> length (Ev_Pid (m_role msg) (m_pid msg) # evs) = Suc n)"
        using f(3) Some unfolding fold_Cons o_apply p1 by simp
      with Suc.IH [OF c] f Some show ?thesis by auto
    qed
  qed
qed auto

section \<open>Blocks\<close>

lemma sys_free_own:
  assumes "0 < count (mset (w_live w)) b"
  obtains w' where "sys_free b w = Some w'" and "w_trace w' = w_trace w" and "w_stdin w' = w_stdin w"
    and "mset (w_live w') = mset (w_live w) - {#b#}" and "window_block b \<Longrightarrow> other_live w' = other_live w"
proof -
  have "b \<in> set (w_live w)" using assms by (metis count_inI in_multiset_in_set nat_less_le)
  then obtain w' where w': "sys_free b w = Some w'" by (simp add: sys_free_def)
  have "filter (\<lambda>b. \<not> window_block b) (remove1 b (w_live w)) = filter (\<lambda>b. \<not> window_block b) (w_live w)" if "window_block b"
    using that by (induction "w_live w") (auto simp: filter_remove1 remove1_idem)
  then show ?thesis using that [OF w'] sys_free_frame [OF w'] by (simp add: other_live_def)
qed

lemma other_live_cong: "w_live w' = w_live w \<Longrightarrow> other_live w' = other_live w"
  by (simp add: other_live_def)

lemma other_live_Cons: "w_live w' = b # w_live w \<Longrightarrow> window_block b \<Longrightarrow> other_live w' = other_live w"
  by (simp add: other_live_def)

lemma window_block_simps [simp]:
  "window_block (Block_Key g)" "window_block (Block_Pids g)" "\<not> window_block Block_App" "\<not> window_block Block_Windows"
  "\<not> window_block Block_Controller" "\<not> window_block (Block_Username n)" "\<not> window_block (Block_Password n)"
  by (auto simp: window_block_def)

lemma GroupNamesEqual_eq [simp]: "GroupNamesEqual a b \<longleftrightarrow> a = b"
  by (simp add: GroupNamesEqual_def)

text \<open>Freeing the keys and pairs of a whole map.\<close>

lemma free_block_own:
  assumes "0 < count (mset live) b" and "window_block b"
  obtains live' where "free_block b live = Some live'" and "mset live' = mset live - {#b#}"
    and "filter (\<lambda>b. \<not> window_block b) live' = filter (\<lambda>b. \<not> window_block b) live"
proof -
  have "b \<in> set live" using assms(1) by (metis count_inI in_multiset_in_set nat_less_le)
  then have "free_block b live = Some (remove1 b live)" by (simp add: free_block_def)
  moreover have "filter (\<lambda>b. \<not> window_block b) (remove1 b live) = filter (\<lambda>b. \<not> window_block b) live"
    using assms(2) by (simp add: filter_remove1 remove1_idem)
  ultimately show ?thesis using that by simp
qed

definition free_pair :: "string \<Rightarrow> GroupPids \<Rightarrow> client_block list \<Rightarrow> (bool \<times> client_block list) option" where
  "free_pair k v blocks =
     do { b1 \<leftarrow> free_block (Block_Key k) blocks; b2 \<leftarrow> free_block (Block_Pids k) b1; Some (True, b2) }"

lemma free_pairs:
  assumes "distinct (map fst kvs)"
    and "\<forall>k \<in> fst ` set kvs. count (mset live) (Block_Key k) = 1 \<and> count (mset live) (Block_Pids k) = 1"
  shows "\<exists>live'. for_each free_pair kvs live = Some live'
    \<and> (\<forall>b. count (mset live') b = (if \<exists>k \<in> fst ` set kvs. b = Block_Key k \<or> b = Block_Pids k then 0 else count (mset live) b))
    \<and> filter (\<lambda>b. \<not> window_block b) live' = filter (\<lambda>b. \<not> window_block b) live"
  using assms
proof (induction kvs arbitrary: live)
  case (Cons kv kvs)
  obtain k v where kv: "kv = (k, v)" by (cases kv)
  obtain l1 where l1: "free_block (Block_Key k) live = Some l1" "mset l1 = mset live - {#Block_Key k#}"
      "filter (\<lambda>b. \<not> window_block b) l1 = filter (\<lambda>b. \<not> window_block b) live"
    using free_block_own [of live "Block_Key k"] Cons.prems(2) kv by auto
  have "0 < count (mset l1) (Block_Pids k)" using Cons.prems(2) kv l1(2) by simp
  from free_block_own [OF this] obtain l2 where l2: "free_block (Block_Pids k) l1 = Some l2"
      "mset l2 = mset live - {#Block_Key k#} - {#Block_Pids k#}"
      "filter (\<lambda>b. \<not> window_block b) l2 = filter (\<lambda>b. \<not> window_block b) live"
    using l1 by (metis window_block_simps(2))
  have nk: "k \<notin> fst ` set kvs" using Cons.prems(1) kv by auto
  have "\<forall>k' \<in> fst ` set kvs. count (mset l2) (Block_Key k') = 1 \<and> count (mset l2) (Block_Pids k') = 1"
    using Cons.prems(2) nk by (auto simp: l2(2) kv)
  then obtain live' where live': "for_each free_pair kvs l2 = Some live'"
      "\<forall>b. count (mset live') b = (if \<exists>k \<in> fst ` set kvs. b = Block_Key k \<or> b = Block_Pids k then 0 else count (mset l2) b)"
      "filter (\<lambda>b. \<not> window_block b) live' = filter (\<lambda>b. \<not> window_block b) l2"
    using Cons.IH [of l2] Cons.prems(1) by auto
  have "for_each free_pair (kv # kvs) live = Some live'" using kv l1(1) l2(1) live'(1) by (simp add: free_pair_def)
  moreover have "count (mset live') b = (if \<exists>k \<in> fst ` set (kv # kvs). b = Block_Key k \<or> b = Block_Pids k then 0 else count (mset live) b)" for b
    using live'(2) Cons.prems(2) kv by (auto simp: l2(2))
  ultimately show ?case using live'(3) l2(3) by auto
qed simp

lemma kill_all:
  "\<exists>w'. for_each (KillPidsForEach os) kvs w = Some w' \<and> w_stdin w' = w_stdin w \<and> w_live w' = w_live w
     \<and> w_trace w' = w_trace w @ concat (map (kills_of \<circ> snd) kvs)"
proof (induction kvs arbitrary: w)
  case (Cons kv kvs)
  from Cons [of "KillPids os (snd kv) w"] show ?case by (cases kv) (auto simp: KillPidsForEach_def)
qed simp

section \<open>The operations\<close>

locale group_windows = hash_map M
  for M :: "'m windows_ops"
begin

lemma windows_invD:
  assumes "windows_inv M gw w"
  obtains m where "gw_groups gw = Some m" and "HashMap_Ok M m" and "windows_view M gw = hm_lookup M m"
  using assms by (auto simp: windows_inv_def windows_view_def)

text \<open>A freshly created map tracks nothing.\<close>

lemma create_empty:
  obtains m where "HashMap_Create M True CONF_CHAT_WINDOWS_MAP_SIZE HashGroupName GroupNamesEqual = Some m"
    and "HashMap_Ok M m" and "hm_lookup M m = Map.empty"
  using create [of GroupNamesEqual CONF_CHAT_WINDOWS_MAP_SIZE HashGroupName] by (auto simp: hm_lookup_def)

lemma close_miss:
  assumes "windows_inv M gw w" and "windows_view M gw g = None"
  shows "GroupWindows_Close M os (Some gw) (Some g) w = Some (GROUP_WINDOWS_NOT_FOUND, Some gw, w)"
proof -
  obtain m where m: "gw_groups gw = Some m" "HashMap_Ok M m" "windows_view M gw = hm_lookup M m"
    using windows_invD [OF assms(1)] .
  then show ?thesis using remove_miss [of m g] assms(2) by (simp add: GroupWindows_Close_def windows_remove_def)
qed

lemma close_hit:
  assumes "windows_inv M gw w" and "windows_view M gw g = Some pids"
  obtains gw' w' where "GroupWindows_Close M os (Some gw) (Some g) w = Some (GROUP_WINDOWS_SUCCESS, Some gw', w')"
    and "windows_inv M gw' w'" and "windows_view M gw' = (windows_view M gw)(g := None)"
    and "w_trace w' = w_trace w @ kills_of pids" and "windows_frame gw w gw' w'"
proof -
  obtain m where m: "gw_groups gw = Some m" "HashMap_Ok M m" "windows_view M gw = hm_lookup M m"
    using windows_invD [OF assms(1)] .
  obtain m' where m': "HashMap_Remove M m g = (MAP_SUCCESS, Some (g, pids), m')" "HashMap_Ok M m'"
      "hm_lookup M m' = (hm_lookup M m)(g := None)"
    using remove_hit [OF m(2)] assms(2) m(3) by metis
  let ?gw = "gw\<lparr>gw_groups := Some m'\<rparr>"
  have own: "owns w (windows_view M gw)" using assms(1) by (simp add: windows_inv_def)
  have "0 < count (mset (w_live (KillPids os pids w))) (Block_Key g)" using own assms(2) by (auto simp: owns_def)
  from sys_free_own [OF this] obtain w1 where w1: "sys_free (Block_Key g) (KillPids os pids w) = Some w1"
      "w_trace w1 = w_trace w @ kills_of pids" "w_stdin w1 = w_stdin w"
      "mset (w_live w1) = mset (w_live w) - {#Block_Key g#}" "other_live w1 = other_live w"
    using other_live_cong [of "KillPids os pids w" w] by (auto simp del: mset_remove1)
  have "0 < count (mset (w_live w1)) (Block_Pids g)" using own assms(2) w1(4) by (auto simp: owns_def)
  from sys_free_own [OF this] obtain w2 where w2: "sys_free (Block_Pids g) w1 = Some w2"
      "w_trace w2 = w_trace w @ kills_of pids" "w_stdin w2 = w_stdin w"
      "mset (w_live w2) = mset (w_live w) - {#Block_Key g#} - {#Block_Pids g#}" "other_live w2 = other_live w"
    using w1 by (metis window_block_simps(2))
  have v: "windows_view M ?gw = (windows_view M gw)(g := None)" using m m' by (simp add: windows_view_def)
  show ?thesis
  proof (rule that [of ?gw w2])
    show "GroupWindows_Close M os (Some gw) (Some g) w = Some (GROUP_WINDOWS_SUCCESS, Some ?gw, w2)"
      using m m' w1(1) w2(1) by (simp add: GroupWindows_Close_def windows_remove_def)
    show "windows_inv M ?gw w2"
      unfolding windows_inv_def v using own m'(2) by (simp add: owns_def w2(4))
    show "windows_frame gw w ?gw w2" using w2 kills_of_events by (auto simp: windows_frame_def)
  qed (use v w2 in auto)
qed

lemma find_view:
  assumes "windows_inv M gw w" shows "windows_find M gw g = MAP_SUCCESS \<longleftrightarrow> windows_view M gw g \<noteq> None"
  using assms find_hit find_miss
  by (cases "windows_view M gw g") (auto simp: windows_inv_def windows_view_def windows_find_def)

text \<open>Closing the stale pair first, as \<open>GroupWindows_Open\<close> does.\<close>

lemma close_stale:
  assumes "windows_inv M gw w"
  obtains gw' w' where "(if windows_find M gw g = MAP_SUCCESS
      then do { (_, s, w') \<leftarrow> GroupWindows_Close M os (Some gw) (Some g) w; Some (s, w') } else Some (Some gw, w)) = Some (Some gw', w')"
    and "windows_inv M gw' w'" and "windows_view M gw' = (windows_view M gw)(g := None)" and "windows_frame gw w gw' w'"
    and "w_trace w' = w_trace w @ (case windows_view M gw g of None \<Rightarrow> [] | Some pids \<Rightarrow> kills_of pids)"
proof (cases "windows_view M gw g")
  case None
  then show ?thesis using assms find_view [OF assms, of g]
    by (intro that [of gw w]) (auto simp: windows_frame_def)
next
  case (Some pids)
  obtain gw' w' where c: "GroupWindows_Close M os (Some gw) (Some g) w = Some (GROUP_WINDOWS_SUCCESS, Some gw', w')"
    "windows_inv M gw' w'" "windows_view M gw' = (windows_view M gw)(g := None)"
    "w_trace w' = w_trace w @ kills_of pids" "windows_frame gw w gw' w'"
    using close_hit [OF assms Some] .
  show ?thesis using Some c find_view [OF assms, of g] by (intro that [of gw' w']) auto
qed

text \<open>Collecting the ids: the pair that was reported is tracked, or signalled and freed.\<close>

definition tracked :: "'m GroupWindows \<Rightarrow> 's world \<Rightarrow> string \<Rightarrow> GroupWindowsResult \<Rightarrow> 'm GroupWindows \<Rightarrow> 's world \<Rightarrow> bool" where
  "tracked gw w g r gw' w' \<longleftrightarrow> windows_inv M gw' w' \<and> windows_frame gw w gw' w'
     \<and> r \<noteq> GROUP_WINDOWS_NOT_FOUND \<and> r \<noteq> GROUP_WINDOWS_NULL_PTR
     \<and> (\<exists>pes pids. collected pes pids
          \<and> (if r = GROUP_WINDOWS_SUCCESS
             then length pes = 2 \<and> windows_view M gw' = (windows_view M gw)(g \<mapsto> pids) \<and> w_trace w' = w_trace w @ pes
             else windows_view M gw' = windows_view M gw \<and> w_trace w' = w_trace w @ pes @ kills_of pids))"

lemma tracked_failed:
  assumes "windows_inv M gw w" and "windows_view M gw' = windows_view M gw" and "gw_queue gw' = gw_queue gw"
    and "\<exists>m. gw_groups gw' = Some m \<and> HashMap_Ok M m"
    and "w_stdin w' = w_stdin w" and "mset (w_live w') = mset (w_live w)" and "other_live w' = other_live w"
    and "w_trace w' = w_trace w @ pes @ kills_of pids" and "collected pes pids" and "r \<in> {GROUP_WINDOWS_ALLOC_FAILED, GROUP_WINDOWS_PID_TIMEOUT}"
  shows "tracked gw w g r gw' w'"
proof -
  have "windows_inv M gw' w'" using assms(1,2,4,6) by (simp add: windows_inv_def owns_def)
  moreover have "\<forall>e \<in> set (pes @ kills_of pids). window_event e"
    using assms(9) kills_of_events [of pids] by (auto simp: window_event_def collected_def)
  ultimately show ?thesis using assms(2-10) unfolding tracked_def windows_frame_def by auto
qed

text \<open>Signalling the pair and freeing its block, the common end of every failure.\<close>

lemma give_up:
  assumes "w_live w1 = bs @ Block_Pids g # w_live w" and "Block_Pids g \<notin> set bs" and "\<forall>b \<in> set bs. window_block b"
  obtains w2 where "sys_free (Block_Pids g) (KillPids os pids w1) = Some w2"
    and "w_trace w2 = w_trace w1 @ kills_of pids" and "w_stdin w2 = w_stdin w1"
    and "w_live w2 = bs @ w_live w" and "other_live w2 = other_live w"
proof -
  have "Block_Pids g \<in> set (w_live (KillPids os pids w1))" using assms(1) by simp
  then obtain w2 where w2: "sys_free (Block_Pids g) (KillPids os pids w1) = Some w2" by (auto simp: sys_free_def)
  note f = sys_free_frame [OF w2]
  have "w_live w2 = bs @ w_live w" using f(3) assms(1,2) by (simp add: remove1_append)
  moreover have "other_live w2 = other_live w" using calculation assms(3) by (simp add: other_live_def)
  ultimately show ?thesis using that w2 f by simp
qed

text \<open>Both ids have arrived; then the key cannot be allocated, the entry cannot be allocated, or the pair is tracked.\<close>

lemma store_without_key:
  assumes "windows_inv M gw w" and "sys_alloc os (Block_Key g) w1 = (False, w2)"
    and w1: "w_stdin w1 = w_stdin w" "w_live w1 = Block_Pids g # w_live w" "w_trace w1 = w_trace w @ pes" and "collected pes pids"
  obtains w3 where "store_windows M os gw g pids w1 = Some (GROUP_WINDOWS_ALLOC_FAILED, Some gw, w3)"
    and "tracked gw w g GROUP_WINDOWS_ALLOC_FAILED gw w3"
proof -
  note f = sys_alloc_frame [OF assms(2)]
  obtain w3 where w3: "sys_free (Block_Pids g) (KillPids os pids w2) = Some w3" "w_trace w3 = w_trace w2 @ kills_of pids"
      "w_stdin w3 = w_stdin w2" "w_live w3 = w_live w" "other_live w3 = other_live w"
    using give_up [of w2 "[]" g w os pids] f(3) w1(2) by auto
  have "\<exists>m. gw_groups gw = Some m \<and> HashMap_Ok M m" using assms(1) by (simp add: windows_inv_def)
  then have "tracked gw w g GROUP_WINDOWS_ALLOC_FAILED gw w3"
    by (intro tracked_failed [OF assms(1) refl refl _ _ _ w3(5) _ assms(6)]) (use f w1 w3 in simp_all)
  then show ?thesis using that assms(2) w3(1) by (simp add: store_windows_def)
qed

lemma store_without_node:
  assumes "windows_inv M gw w" and "sys_alloc os (Block_Key g) w1 = (True, w2)" and "sys_outcome os Block_Node w2 = (nok, w3)"
    and "windows_insert M nok gw g pids = (ins, gw)" and "ins \<noteq> MAP_SUCCESS"
    and w1: "w_stdin w1 = w_stdin w" "w_live w1 = Block_Pids g # w_live w" "w_trace w1 = w_trace w @ pes" and "collected pes pids"
  obtains w5 where "store_windows M os gw g pids w1 = Some (GROUP_WINDOWS_ALLOC_FAILED, Some gw, w5)"
    and "tracked gw w g GROUP_WINDOWS_ALLOC_FAILED gw w5"
proof -
  note f = sys_alloc_frame [OF assms(2)] and f3 = sys_outcome_frame [OF assms(3)]
  have live: "w_live w3 = [Block_Key g] @ Block_Pids g # w_live w" using w1(2) f(3) f3(3) by simp
  obtain w4 where w4: "sys_free (Block_Pids g) (KillPids os pids w3) = Some w4" "w_trace w4 = w_trace w3 @ kills_of pids"
      "w_stdin w4 = w_stdin w3" "w_live w4 = [Block_Key g] @ w_live w" "other_live w4 = other_live w"
    using give_up [OF live, of os pids] by auto
  have free: "sys_free (Block_Key g) w4 = Some (w4\<lparr>w_live := w_live w\<rparr>)" using w4(4) by (simp add: sys_free_def)
  have "\<exists>m. gw_groups gw = Some m \<and> HashMap_Ok M m" using assms(1) by (simp add: windows_inv_def)
  moreover have "w_trace w4 = w_trace w @ pes @ kills_of pids" "w_stdin w4 = w_stdin w"
    using w4(2,3) f(1,2) f3(1,2) w1(1,3) by simp_all
  ultimately have "tracked gw w g GROUP_WINDOWS_ALLOC_FAILED gw (w4\<lparr>w_live := w_live w\<rparr>)"
    by (intro tracked_failed [OF assms(1) refl refl _ _ _ _ _ assms(9)]) (simp_all add: other_live_def)
  then show ?thesis using that assms(2-5) w4(1) free by (simp add: store_windows_def)
qed

lemma store_done:
  assumes "windows_inv M gw w" and new: "windows_view M gw g = None"
    and "sys_alloc os (Block_Key g) w1 = (True, w2)" and "sys_outcome os Block_Node w2 = (True, w3)"
    and w1: "w_stdin w1 = w_stdin w" "w_live w1 = Block_Pids g # w_live w" "w_trace w1 = w_trace w @ pes"
    and pes: "collected pes pids" "length pes = 2"
  obtains gw' where "store_windows M os gw g pids w1 = Some (GROUP_WINDOWS_SUCCESS, Some gw', w3)"
    and "tracked gw w g GROUP_WINDOWS_SUCCESS gw' w3" and "windows_view M gw' = (windows_view M gw)(g \<mapsto> pids)"
proof -
  obtain m where m: "gw_groups gw = Some m" "HashMap_Ok M m" "windows_view M gw = hm_lookup M m"
    using windows_invD [OF assms(1)] .
  obtain m' where m': "HashMap_Insert M True m g pids = (MAP_SUCCESS, m')" "HashMap_Ok M m'" "hm_lookup M m' = (hm_lookup M m)(g \<mapsto> pids)"
    using insert_new [OF m(2), of g pids] new m(3) by auto
  let ?gw = "gw\<lparr>gw_groups := Some m'\<rparr>"
  note f = sys_alloc_frame [OF assms(3)] and f3 = sys_outcome_frame [OF assms(4)]
  have live: "w_live w3 = [Block_Key g] @ Block_Pids g # w_live w" using w1(2) f(3) f3(3) by simp
  have v: "windows_view M ?gw = (windows_view M gw)(g \<mapsto> pids)" using m m'(3) by (simp add: windows_view_def)
  have "owns w3 (windows_view M ?gw)" using assms(1,2) unfolding v by (auto simp: windows_inv_def owns_def live)
  then have "windows_inv M ?gw w3" using m'(2) by (simp add: windows_inv_def)
  moreover have "w_trace w3 = w_trace w @ pes" "w_stdin w3 = w_stdin w" using f(1,2) f3(1,2) w1(1,3) by simp_all
  moreover have "other_live w3 = other_live w" using live by (simp add: other_live_def)
  moreover have "\<forall>e \<in> set pes. window_event e" using pes(1) by (auto simp: window_event_def collected_def)
  ultimately have "tracked gw w g GROUP_WINDOWS_SUCCESS ?gw w3"
    using v pes unfolding tracked_def windows_frame_def by simp blast
  then show ?thesis using that v assms(3,4) m(1) m'(1) by (simp add: store_windows_def windows_insert_def)
qed

lemma store_total:
  assumes inv: "windows_inv M gw w" and new: "windows_view M gw g = None"
    and w1: "w_stdin w1 = w_stdin w" "w_live w1 = Block_Pids g # w_live w" "w_trace w1 = w_trace w @ pes"
    and pes: "collected pes pids" "length pes = 2"
  obtains r gw' w' where "store_windows M os gw g pids w1 = Some (r, Some gw', w')" and "tracked gw w g r gw' w'"
proof -
  obtain m where m: "gw_groups gw = Some m" "HashMap_Ok M m" "windows_view M gw = hm_lookup M m"
    using windows_invD [OF inv] .
  obtain kok w2 where a: "sys_alloc os (Block_Key g) w1 = (kok, w2)" by (cases "sys_alloc os (Block_Key g) w1")
  obtain nok w3 where o: "sys_outcome os Block_Node w2 = (nok, w3)" by (cases "sys_outcome os Block_Node w2")
  consider "\<not> kok" | "kok" "\<not> nok" | "kok" "nok" by blast
  then show ?thesis
  proof cases
    case 1
    then have "sys_alloc os (Block_Key g) w1 = (False, w2)" using a by simp
    then show ?thesis by (rule store_without_key [OF inv _ w1 pes(1)]) (rule that)
  next
    case 2
    have "gw\<lparr>gw_groups := Some m\<rparr> = gw" using m(1) by (cases gw) simp
    then have ins: "windows_insert M nok gw g pids = (MAP_ALLOCATION_ERROR, gw)"
      using insert_fail [OF m(2), of g pids] new m(1,3) 2(2) by (simp add: windows_insert_def)
    have "sys_alloc os (Block_Key g) w1 = (True, w2)" using a 2(1) by simp
    then show ?thesis by (rule store_without_node [OF inv _ o ins _ w1 pes(1)]) (simp, rule that)
  next
    case 3
    then have "sys_alloc os (Block_Key g) w1 = (True, w2)" "sys_outcome os Block_Node w2 = (True, w3)" using a o by simp_all
    then show ?thesis by (rule store_done [OF inv new _ _ w1 pes]) (rule that)
  qed
qed

lemma track_total:
  assumes inv: "windows_inv M gw w" and new: "windows_view M gw g = None"
  obtains r gw' w' where "track_windows M os gw g w = Some (r, Some gw', w')" and "tracked gw w g r gw' w'"
proof -
  have m: "\<exists>m. gw_groups gw = Some m \<and> HashMap_Ok M m" using inv by (simp add: windows_inv_def)
  obtain ok w1 where a1: "sys_alloc os (Block_Pids g) w = (ok, w1)" by (cases "sys_alloc os (Block_Pids g) w")
  note f1 = sys_alloc_frame [OF a1]
  let ?z = "\<lparr>m_sender = 0, m_receiver = 0\<rparr>"
  have zero: "collected [] ?z" "kills_of ?z = []" by (simp_all add: collected_def kills_of_def)
  show ?thesis
  proof (cases ok)
    case False
    have "tracked gw w g GROUP_WINDOWS_ALLOC_FAILED gw w1"
      by (rule tracked_failed [where pes = "[]" and pids = ?z]) (use False f1 inv m zero in \<open>auto simp: other_live_def\<close>)
    then show ?thesis using that a1 False by (simp add: track_windows_def)
  next
    case True
    obtain r pids w2 where c: "collect_pids 2 os gw ?z w1 = (r, pids, w2)" by (cases "collect_pids 2 os gw ?z w1")
    obtain pes where f2: "w_stdin w2 = w_stdin w" "w_live w2 = Block_Pids g # w_live w" "w_trace w2 = w_trace w @ pes"
        "collected pes pids" "r = GROUP_WINDOWS_SUCCESS \<longrightarrow> length pes = 2"
        "r = GROUP_WINDOWS_SUCCESS \<or> r = GROUP_WINDOWS_PID_TIMEOUT"
      using collect_pids_frame [OF c] f1 True by (auto simp: collected_def)
    show ?thesis
    proof (cases "r = GROUP_WINDOWS_SUCCESS")
      case timeout: False
      obtain w3 where w3: "sys_free (Block_Pids g) (KillPids os pids w2) = Some w3" "w_trace w3 = w_trace w2 @ kills_of pids"
          "w_stdin w3 = w_stdin w2" "w_live w3 = w_live w" "other_live w3 = other_live w"
        using give_up [of w2 "[]" g w os pids] f2(2) by auto
      have "tracked gw w g r gw w3"
        by (rule tracked_failed [where pes = pes and pids = pids]) (use f2 w3 timeout inv m in auto)
      then show ?thesis using that a1 True c timeout w3(1) by (simp add: track_windows_def)
    next
      case collected: True
      obtain r gw' w' where "store_windows M os gw g pids w2 = Some (r, Some gw', w')" "tracked gw w g r gw' w'"
        using store_total [OF inv new f2(1-4)] f2(5) collected by blast
      then show ?thesis using that a1 True c collected by (simp add: track_windows_def)
    qed
  qed
qed

lemma tracked_safe:
  assumes "tracked gw w g r gw' w'" and "windows_safe M gw w"
  shows "windows_safe M gw' w'"
proof -
  obtain pes pids where c: "collected pes pids"
    and alt: "if r = GROUP_WINDOWS_SUCCESS
         then length pes = 2 \<and> windows_view M gw' = (windows_view M gw)(g \<mapsto> pids) \<and> w_trace w' = w_trace w @ pes
         else windows_view M gw' = windows_view M gw \<and> w_trace w' = w_trace w @ pes @ kills_of pids"
    using assms(1) unfolding tracked_def by blast
  have p: "\<forall>e \<in> set pes. \<exists>role p. e = Ev_Pid role p" "pids_known (w_trace w @ pes) pids"
    using c collected_known by (auto simp: collected_def)
  have j: "justified (w_trace w @ pes)" using assms(2) p(1) by (intro justified_quiet) (auto simp: windows_safe_def)
  have j': "justified ((w_trace w @ pes) @ kills_of pids)" using j p(2) by (rule justified_kills)
  show ?thesis using alt j j' p(2) assms(2) pids_known_append
    by (cases "r = GROUP_WINDOWS_SUCCESS") (auto simp: windows_safe_def)
qed

text \<open>A trace may grow by anything but signals.\<close>

lemma windows_safe_quiet:
  assumes "windows_safe M gw w" and "w_trace w' = w_trace w @ evs" and "\<forall>e \<in> set evs. \<forall>p. e \<noteq> Ev_Kill p"
    and "windows_view M gw' = windows_view M gw"
  shows "windows_safe M gw' w'"
  using assms justified_quiet [OF _ assms(3)] pids_known_append by (auto simp: windows_safe_def)

lemma windows_frame_trans:
  assumes "windows_frame gw w gw1 w1" and "windows_frame gw1 w1 gw2 w2" shows "windows_frame gw w gw2 w2"
proof -
  obtain a b where "w_trace w1 = w_trace w @ a" "w_trace w2 = w_trace w1 @ b" "\<forall>e \<in> set a. window_event e" "\<forall>e \<in> set b. window_event e"
    using assms unfolding windows_frame_def by blast
  then have "w_trace w2 = w_trace w @ (a @ b) \<and> (\<forall>e \<in> set (a @ b). window_event e)" by auto
  then show ?thesis using assms unfolding windows_frame_def by (metis (no_types, lifting))
qed

text \<open>What \<open>GroupWindows_Open\<close> guarantees.\<close>

definition opened :: "'m GroupWindows \<Rightarrow> 's world \<Rightarrow> string \<Rightarrow> string list \<Rightarrow> GroupWindowsResult \<Rightarrow> 'm GroupWindows \<Rightarrow> 's world \<Rightarrow> bool" where
  "opened gw w g cmds r gw' w' \<longleftrightarrow> windows_inv M gw' w' \<and> windows_frame gw w gw' w'
     \<and> (windows_safe M gw w \<longrightarrow> windows_safe M gw' w')
     \<and> r \<noteq> GROUP_WINDOWS_NOT_FOUND \<and> r \<noteq> GROUP_WINDOWS_NULL_PTR \<and> Ev_System (hd cmds) \<in> set (w_trace w')
     \<and> (if r = GROUP_WINDOWS_SUCCESS
        then (\<exists>pids pes. windows_view M gw' = (windows_view M gw)(g \<mapsto> pids) \<and> collected pes pids \<and> length pes = 2
                \<and> w_trace w' = w_trace w @ (case windows_view M gw g of None \<Rightarrow> [] | Some old \<Rightarrow> kills_of old)
                    @ map Ev_System cmds @ pes)
        else windows_view M gw' = (windows_view M gw)(g := None))"

lemma close_safe:
  assumes "windows_safe M gw w" and "windows_view M gw' = (windows_view M gw)(g := None)"
    and "w_trace w' = w_trace w @ (case windows_view M gw g of None \<Rightarrow> [] | Some pids \<Rightarrow> kills_of pids)"
  shows "windows_safe M gw' w'"
proof (cases "windows_view M gw g")
  case None
  then show ?thesis using assms by (auto simp: windows_safe_def)
next
  case (Some pids)
  then have "pids_known (w_trace w) pids" "justified (w_trace w)" using assms(1) by (auto simp: windows_safe_def)
  then show ?thesis using Some assms justified_kills pids_known_append by (auto simp: windows_safe_def)
qed

text \<open>The two launches of \<open>GroupWindows_Open\<close>, with the commands as the buffer holds them.\<close>

definition launch :: "'s client_os \<Rightarrow> string list \<Rightarrow> 'm GroupWindows \<Rightarrow> string \<Rightarrow> 's world
    \<Rightarrow> (GroupWindowsResult \<times> 'm GroupWindows option \<times> 's world) option" where
  "launch os cmds gw g w =
     (case SpawnWindow os (cmds ! 0) w of
        (r2, w2) \<Rightarrow> if r2 \<noteq> GROUP_WINDOWS_SUCCESS then Some (r2, Some gw, w2)
          else case SpawnWindow os (cmds ! 1) w2 of
            (r3, w3) \<Rightarrow> if r3 \<noteq> GROUP_WINDOWS_SUCCESS then Some (r3, Some gw, w3) else track_windows M os gw g w3)"

lemma open_launch:
  assumes inv: "windows_inv M gw w" and un: "uninit_ok os"
    and nul: "NUL \<notin> set (receiver_command ip port)" "NUL \<notin> set (sender_command ip port user)"
  defines "cmds \<equiv> [take 255 (receiver_command ip port), take 255 (sender_command ip port user)]"
  obtains gw1 w1 where "GroupWindows_Open M os (Some gw) (Some g) (Some ip) port (Some user) w = launch os cmds gw1 g w1"
    and "windows_inv M gw1 w1" and "windows_view M gw1 = (windows_view M gw)(g := None)" and "windows_frame gw w gw1 w1"
    and "w_trace w1 = w_trace w @ (case windows_view M gw g of None \<Rightarrow> [] | Some pids \<Rightarrow> kills_of pids)"
    and "windows_view M gw g = None \<longrightarrow> gw1 = gw \<and> w1 = w"
proof -
  obtain gw1 w1 where c: "(if windows_find M gw g = MAP_SUCCESS
      then do { (_, s, w') \<leftarrow> GroupWindows_Close M os (Some gw) (Some g) w; Some (s, w') } else Some (Some gw, w)) = Some (Some gw1, w1)"
    "windows_inv M gw1 w1" "windows_view M gw1 = (windows_view M gw)(g := None)" "windows_frame gw w gw1 w1"
    "w_trace w1 = w_trace w @ (case windows_view M gw g of None \<Rightarrow> [] | Some pids \<Rightarrow> kills_of pids)"
    using close_stale [OF inv] .
  let ?buf = "os_uninit os CONF_CHAT_SPAWN_CMD_MAX (w_sys w1)"
  have len: "length ?buf = 256" using un by (simp add: uninit_ok_def config_defs)
  obtain b1 where b1: "snprintf ?buf 0 256 (receiver_command ip port) = Some (snprintf_result (receiver_command ip port), b1)"
      "length b1 = length ?buf" "c_string_at b1 0 = Some (take (256 - 1) (receiver_command ip port))"
    using snprintf_text [of 256 ?buf, OF _ _ nul(1)] len by auto
  obtain b2 where b2: "snprintf b1 0 256 (sender_command ip port user) = Some (snprintf_result (sender_command ip port user), b2)"
      "length b2 = length b1" "c_string_at b2 0 = Some (take (256 - 1) (sender_command ip port user))"
    using snprintf_text [of 256 b1, OF _ _ nul(2)] b1(2) len by auto
  have o: "GroupWindows_Open M os (Some gw) (Some g) (Some ip) port (Some user) w = launch os cmds gw1 g w1"
    using c(1) b1 b2 by (simp add: GroupWindows_Open_def config_defs launch_def cmds_def split: prod.split)
  have same: "windows_view M gw g = None \<longrightarrow> gw1 = gw \<and> w1 = w" using c(1) find_view [OF inv, of g] by auto
  show ?thesis by (rule that [OF o c(2-5) same])
qed

lemma launched_frame:
  assumes "windows_inv M gw w" and "w_stdin v = w_stdin w" and "w_live v = w_live w" and "w_trace v = w_trace w @ map Ev_System cs"
  shows "windows_inv M gw v" and "windows_frame gw w gw v" and "windows_safe M gw w \<longrightarrow> windows_safe M gw v"
proof -
  show "windows_inv M gw v" using assms(1,3) by (simp add: windows_inv_def owns_def)
  show "windows_frame gw w gw v" using assms by (auto simp: windows_frame_def other_live_def window_event_def)
  show "windows_safe M gw w \<longrightarrow> windows_safe M gw v" using windows_safe_quiet [OF _ assms(4)] by auto
qed

lemma open_total:
  assumes inv: "windows_inv M gw w" and un: "uninit_ok os"
    and nul: "NUL \<notin> set (receiver_command ip port)" "NUL \<notin> set (sender_command ip port user)"
  defines "cmds \<equiv> [take 255 (receiver_command ip port), take 255 (sender_command ip port user)]"
  obtains r gw' w' where "GroupWindows_Open M os (Some gw) (Some g) (Some ip) port (Some user) w = Some (r, Some gw', w')"
    and "opened gw w g cmds r gw' w'"
proof -
  obtain gw1 w1 where c: "GroupWindows_Open M os (Some gw) (Some g) (Some ip) port (Some user) w = launch os cmds gw1 g w1"
    "windows_inv M gw1 w1" "windows_view M gw1 = (windows_view M gw)(g := None)" "windows_frame gw w gw1 w1"
    "w_trace w1 = w_trace w @ (case windows_view M gw g of None \<Rightarrow> [] | Some pids \<Rightarrow> kills_of pids)"
    unfolding cmds_def by (rule open_launch [OF inv un nul])
  have safe1: "windows_safe M gw1 w1" if "windows_safe M gw w" using close_safe [OF that c(3,5)] .
  obtain r2 w2 where s2: "SpawnWindow os (cmds ! 0) w1 = (r2, w2)" by (cases "SpawnWindow os (cmds ! 0) w1")
  obtain r3 w3 where s3: "SpawnWindow os (cmds ! 1) w2 = (r3, w3)" by (cases "SpawnWindow os (cmds ! 1) w2")
  note f2 = SpawnWindow_frame [OF s2] and f3 = SpawnWindow_frame [OF s3]
  have tr: "w_trace w2 = w_trace w1 @ map Ev_System [cmds ! 0]" "w_trace w3 = w_trace w1 @ map Ev_System cmds"
    using f2 f3 by (simp_all add: cmds_def)
  note l2 = launched_frame [OF c(2) f2(1,2) tr(1)]
  have l3: "windows_inv M gw1 w3" "windows_frame gw1 w1 gw1 w3" "windows_safe M gw1 w1 \<longrightarrow> windows_safe M gw1 w3"
    using launched_frame [OF c(2) _ _ tr(2)] f2 f3 by simp_all
  show ?thesis
  proof (cases "r2 = GROUP_WINDOWS_SUCCESS \<and> r3 = GROUP_WINDOWS_SUCCESS")
    case False
    let ?r = "if r2 = GROUP_WINDOWS_SUCCESS then r3 else r2" and ?w = "if r2 = GROUP_WINDOWS_SUCCESS then w3 else w2"
    have "launch os cmds gw1 g w1 = Some (?r, Some gw1, ?w)" using False s2 s3 by (simp add: launch_def)
    moreover have "opened gw w g cmds ?r gw1 ?w"
      using False c(3) l2 l3 windows_frame_trans [OF c(4)] safe1 f2 f3 by (auto simp: opened_def cmds_def)
    ultimately show ?thesis using that c(1) by simp
  next
    case True
    obtain r gw' w' where t: "track_windows M os gw1 g w3 = Some (r, Some gw', w')" "tracked gw1 w3 g r gw' w'"
      using track_total [OF l3(1), of g os] c(3) by auto
    have "launch os cmds gw1 g w1 = Some (r, Some gw', w')" using True s2 s3 t(1) by (simp add: launch_def)
    moreover have "windows_frame gw w gw' w'"
      using t(2) windows_frame_trans [OF windows_frame_trans [OF c(4) l3(2)]] unfolding tracked_def by blast
    moreover have "opened gw w g cmds r gw' w'"
      using t(2) calculation(2) safe1 l3(3) tracked_safe [OF t(2)] c(3,5) tr(2) unfolding tracked_def opened_def by (auto simp: cmds_def)
    ultimately show ?thesis using that c(1) by simp
  qed
qed

text \<open>Closing everything: each tracked pair is signalled and every key and pair is freed.\<close>

definition all_kills :: "'m \<Rightarrow> sys_event list" where
  "all_kills m = concat (map (kills_of \<circ> snd) (HashMap_Items M m))"

lemma kill_and_free_total:
  assumes "windows_inv M gw w" and "gw_groups gw = Some m"
  obtains w' where "kill_and_free M os m w = Some w'" and "owns w' Map.empty" and "w_stdin w' = w_stdin w"
    and "other_live w' = other_live w" and "w_trace w' = w_trace w @ all_kills m"
proof -
  have ok: "HashMap_Ok M m" and own: "owns w (hm_lookup M m)" using assms by (auto simp: windows_inv_def windows_view_def)
  obtain w1 where w1: "HashMap_ForEach M m (KillPidsForEach os) w = Some w1" "w_stdin w1 = w_stdin w"
      "w_live w1 = w_live w" "w_trace w1 = w_trace w @ all_kills m"
    using kill_all [of os "HashMap_Items M m" w] by (auto simp: HashMap_ForEach_def all_kills_def)
  have dom: "fst ` set (HashMap_Items M m) = dom (hm_lookup M m)"
    by (simp add: hm_lookup_def dom_map_of_conv_image_fst)
  have "\<forall>k \<in> fst ` set (HashMap_Items M m). count (mset (w_live w)) (Block_Key k) = 1 \<and> count (mset (w_live w)) (Block_Pids k) = 1"
    using own unfolding dom by (auto simp: owns_def)
  from free_pairs [OF items_distinct [OF ok] this] obtain live where
    live: "for_each free_pair (HashMap_Items M m) (w_live w) = Some live"
      "\<forall>b. count (mset live) b = (if \<exists>k \<in> dom (hm_lookup M m). b = Block_Key k \<or> b = Block_Pids k then 0 else count (mset (w_live w)) b)"
      "filter (\<lambda>b. \<not> window_block b) live = filter (\<lambda>b. \<not> window_block b) (w_live w)"
    unfolding dom by blast
  show ?thesis
  proof (rule that [of "w1\<lparr>w_live := live\<rparr>"])
    show "kill_and_free M os m w = Some (w1\<lparr>w_live := live\<rparr>)"
      using w1 live(1) by (simp add: kill_and_free_def HashMap_Destroy_def HashMap_ForEach_def free_pair_def [abs_def])
    show "owns (w1\<lparr>w_live := live\<rparr>) Map.empty" using live(2) own by (auto simp: owns_def)
  qed (use w1 live(3) in \<open>simp_all add: other_live_def\<close>)
qed

lemma all_kills_safe:
  assumes "windows_safe M gw w" and "gw_groups gw = Some m" and "HashMap_Ok M m"
  shows "justified (w_trace w @ all_kills m)"
proof (rule justified_append)
  show "justified (w_trace w)" using assms(1) by (simp add: windows_safe_def)
  fix pre p post
  assume "all_kills m = pre @ Ev_Kill p # post"
  then have "Ev_Kill p \<in> set (all_kills m)" by simp
  then obtain k pids where kp: "(k, pids) \<in> set (HashMap_Items M m)" "Ev_Kill p \<in> set (kills_of pids)"
    by (auto simp: all_kills_def)
  have "windows_view M gw k = Some pids"
    using kp(1) assms(2) items_distinct [OF assms(3)] by (simp add: windows_view_def hm_lookup_def)
  then have "pids_known (w_trace w) pids" using assms(1) by (auto simp: windows_safe_def)
  then show "0 < p \<and> reported (w_trace w @ pre) p"
    using kp(2) reported_append(1) by (auto simp: kills_of_def pids_known_def split: if_splits)
qed

lemma all_kills_events: "\<forall>e \<in> set (all_kills m). window_event e"
  using kills_of_events by (auto simp: all_kills_def)

lemma close_all_total:
  assumes inv: "windows_inv M gw w" and ok: "\<And>s. fst (os_alloc os Block_Map s)"
  obtains gw' w' m where "GroupWindows_CloseAll M os (Some gw) w = Some (Some gw', w')" and "gw_groups gw = Some m"
    and "windows_inv M gw' w'" and "windows_view M gw' = Map.empty" and "windows_frame gw w gw' w'"
    and "w_trace w' = w_trace w @ all_kills m" and "windows_safe M gw w \<Longrightarrow> windows_safe M gw' w'"
proof -
  obtain m where m: "gw_groups gw = Some m" "HashMap_Ok M m" "windows_view M gw = hm_lookup M m"
    using windows_invD [OF inv] .
  obtain w1 where w1: "kill_and_free M os m w = Some w1" "owns w1 Map.empty" "w_stdin w1 = w_stdin w"
      "other_live w1 = other_live w" "w_trace w1 = w_trace w @ all_kills m"
    using kill_and_free_total [OF inv m(1)] .
  obtain mok w2 where o: "sys_outcome os Block_Map w1 = (mok, w2)" by (cases "sys_outcome os Block_Map w1")
  have mok: mok using o ok [of "w_sys w1"] by (auto simp: sys_outcome_def split: prod.splits)
  note f = sys_outcome_frame [OF o]
  obtain m' where m': "HashMap_Create M True CONF_CHAT_WINDOWS_MAP_SIZE HashGroupName GroupNamesEqual = Some m'"
      "HashMap_Ok M m'" "hm_lookup M m' = Map.empty"
    using create_empty .
  let ?gw = "gw\<lparr>gw_groups := Some m'\<rparr>"
  have v: "windows_view M ?gw = Map.empty" using m' by (simp add: windows_view_def)
  show ?thesis
  proof (rule that [of ?gw w2 m, OF _ m(1) _ v])
    show "GroupWindows_CloseAll M os (Some gw) w = Some (Some ?gw, w2)"
      using m w1(1) o mok m'(1) by (simp add: GroupWindows_CloseAll_def)
    show "windows_inv M ?gw w2" using m' v w1(2) f(3) by (simp add: windows_inv_def owns_def)
    show "windows_frame gw w ?gw w2" using w1 f all_kills_events by (auto simp: windows_frame_def other_live_def)
    show "w_trace w2 = w_trace w @ all_kills m" using f(2) w1(5) by simp
    then show "windows_safe M ?gw w2" if "windows_safe M gw w"
      using all_kills_safe [OF that m(1,2)] v by (simp add: windows_safe_def)
  qed
qed

text \<open>Creation either fails without a trace in memory or gives an empty manager.\<close>

lemma create_cases:
  assumes "owns w Map.empty"
  obtains (failed) w' where "GroupWindows_Create M os w = Some (None, w')" and "w_stdin w' = w_stdin w"
      and "w_live w' = w_live w" and "justified (w_trace w) \<Longrightarrow> justified (w_trace w')"
  | (created) gw w' where "GroupWindows_Create M os w = Some (Some gw, w')" and "w_stdin w' = w_stdin w"
      and "w_live w' = Block_Windows # w_live w" and "windows_inv M gw w'" and "windows_view M gw = Map.empty"
      and "w_trace w' = w_trace w @ [Ev_QueueUnlink, Ev_QueueOpen (gw_queue gw)]" and "gw_queue gw \<noteq> - 1"
proof -
  obtain ok w1 where a: "sys_alloc os Block_Windows w = (ok, w1)" by (cases "sys_alloc os Block_Windows w")
  note f = sys_alloc_frame [OF a]
  obtain mok w2 where o: "sys_outcome os Block_Map w1 = (mok, w2)" by (cases "sys_outcome os Block_Map w1")
  note g = sys_outcome_frame [OF o]
  obtain q w3 where q: "sys_mq_open os (sys_mq_unlink os w2) = (q, w3)" by (cases "sys_mq_open os (sys_mq_unlink os w2)")
  note h = sys_result_frame(6) [OF q, unfolded sys_call_frame]
  have free: "sys_free Block_Windows v = Some (v\<lparr>w_live := bs\<rparr>)" if "w_live v = Block_Windows # bs" for v :: "'a world" and bs
    using that by (simp add: sys_free_def)
  obtain m where m: "HashMap_Create M True CONF_CHAT_WINDOWS_MAP_SIZE HashGroupName GroupNamesEqual = Some m"
      "HashMap_Ok M m" "hm_lookup M m = Map.empty" using create_empty .
  have tr: "justified (w_trace w) \<Longrightarrow> justified (w_trace w3)"
    using f(2) g(2) h justified_quiet [of "w_trace w" "[Ev_QueueUnlink, Ev_QueueOpen q]"] by simp
  have items: "HashMap_Items M m = []" using m(3) by (cases "HashMap_Items M m") (auto simp: hm_lookup_def map_upd_nonempty split: prod.splits)
  consider "\<not> ok" | "ok" "\<not> mok" | "ok" "mok" "q = - 1" | "ok" "mok" "q \<noteq> - 1" by blast
  then show ?thesis
  proof cases
    case 1
    then show ?thesis using a f by (intro failed [of w1]) (auto simp: GroupWindows_Create_def)
  next
    case 2
    then show ?thesis using a f o g free [of w2 "w_live w"] create_fail
      by (intro failed [of "w2\<lparr>w_live := w_live w\<rparr>"]) (auto simp: GroupWindows_Create_def)
  next
    case 3
    then show ?thesis using a f o g q h m(1) items free [of w3 "w_live w"] tr
      by (intro failed [of "w3\<lparr>w_live := w_live w\<rparr>"])
        (auto simp: GroupWindows_Create_def HashMap_Destroy_def HashMap_ForEach_def)
  next
    case 4
    let ?gw = "\<lparr>gw_groups = Some m, gw_queue = q\<rparr>"
    have v: "windows_view M ?gw = Map.empty" using m(3) by (simp add: windows_view_def)
    have l: "w_live w3 = Block_Windows # w_live w" using 4 f g h by simp
    show ?thesis
    proof (rule created [of ?gw w3])
      show "GroupWindows_Create M os w = Some (Some ?gw, w3)" using 4 a o q m(1) by (simp add: GroupWindows_Create_def)
      show "windows_inv M ?gw w3" using m(2) assms l v by (auto simp: windows_inv_def owns_def)
    qed (use 4 f g h l v in auto)
  qed
qed

lemma destroy_total:
  assumes "windows_inv M gw w" and "Block_Windows \<in> set (w_live w)"
  obtains w' where "GroupWindows_Destroy M os (Some gw) w = Some (None, w')" and "owns w' Map.empty"
    and "w_stdin w' = w_stdin w" and "other_live w' = remove1 Block_Windows (other_live w)"
    and "windows_safe M gw w \<Longrightarrow> justified (w_trace w')"
proof -
  obtain m where m: "gw_groups gw = Some m" "HashMap_Ok M m" "windows_view M gw = hm_lookup M m"
    using windows_invD [OF assms(1)] .
  obtain w1 where w1: "kill_and_free M os m w = Some w1" "owns w1 Map.empty" "w_stdin w1 = w_stdin w"
      "other_live w1 = other_live w" "w_trace w1 = w_trace w @ all_kills m"
    using kill_and_free_total [OF assms(1) m(1)] .
  let ?w2 = "sys_mq_unlink os (if gw_queue gw \<noteq> - 1 then sys_mq_close os (gw_queue gw) w1 else w1)"
  have w2: "w_live ?w2 = w_live w1" "w_stdin ?w2 = w_stdin w" using w1(3) by (simp_all add: sys_call_frame)
  obtain qs where qs: "w_trace ?w2 = w_trace w1 @ qs" "\<forall>e \<in> set qs. \<forall>p. e \<noteq> Ev_Kill p"
    by (cases "gw_queue gw = - 1") (auto simp: sys_call_frame)
  have "Block_Windows \<in> set (other_live w1)" using assms(2) w1(4) by (simp add: other_live_def)
  then have "Block_Windows \<in> set (w_live ?w2)" by (simp add: w2 other_live_def)
  then obtain w3 where w3: "sys_free Block_Windows ?w2 = Some w3" by (auto simp: sys_free_def)
  note f = sys_free_frame [OF w3]
  show ?thesis
  proof (rule that [of w3])
    show "GroupWindows_Destroy M os (Some gw) w = Some (None, w3)"
      using m(1) w1(1) w3 by (simp add: GroupWindows_Destroy_def)
    show "owns w3 Map.empty" using w1(2) f(3) w2 by (auto simp: owns_def)
    show "other_live w3 = remove1 Block_Windows (other_live w)"
      using w1(4) f(3) w2 by (simp add: other_live_def filter_remove1)
    show "justified (w_trace w3)" if "windows_safe M gw w"
      using justified_quiet [OF all_kills_safe [OF that m(1,2)] qs(2)] f(2) qs(1) w1(5) by simp
  qed (use f w2 in simp)
qed

end

end
