(* ===== verification/Client_Run.thy ===== *)
theory Client_Run
  imports Client_App Group_Windows_Inv
begin

text \<open>
  The client never does anything undefined and its menu loop ends.  \<open>client_os_ok\<close> lists what is asked
  of the operating system, \<open>endpoints_terminated\<close> what is asked of the server; \<open>app_ok\<close> is the invariant of
  the application.  Every handler keeps it and returns, and the loop returns because reading a line consumes
  input.
\<close>

section \<open>Assumptions and invariant\<close>

definition client_os_ok :: "'s client_os \<Rightarrow> bool" where
  "client_os_ok os \<longleftrightarrow> uninit_ok os \<and> recv_ok os \<and> (\<forall>s. fst (os_alloc os Block_Map s))
     \<and> (\<forall>n s. fst (os_alloc os (Block_Username n) s))"

text \<open>An accepted create or join request is answered by a frame whose text carries its terminator.\<close>

definition endpoints_terminated :: "'s client_os \<Rightarrow> bool" where
  "endpoints_terminated os \<longleftrightarrow>
     (\<forall>fd bytes s rc s1 n reply s2. os_send os fd bytes s = (rc, s1) \<longrightarrow> os_recv os fd CONF_RECV_BUF_SIZE s1 = ((n, reply), s2)
        \<longrightarrow> 0 < n \<longrightarrow> bytes \<noteq> [] \<longrightarrow> hd bytes \<in> {char_of_word OPCODE_CREATE_GROUP, char_of_word OPCODE_JOIN_GROUP}
        \<longrightarrow> (\<exists>status text rest. take (nat n) reply = frame OPCODE_RESPONSE status text @ rest \<and> length text \<le> CHAT_MAX_VALUE
              \<and> status < 128 \<and> (status = CHAT_OK \<longrightarrow> NUL \<in> set text)))"

definition credential_block :: "client_block \<Rightarrow> bool" where
  "credential_block b \<longleftrightarrow> (\<exists>n. b = Block_Username n \<or> b = Block_Password n)"

definition core_live :: "'s world \<Rightarrow> client_block list" where
  "core_live w = filter (\<lambda>b. \<not> credential_block b) (other_live w)"

definition app_ok :: "'m windows_ops \<Rightarrow> 'm ClientApp \<Rightarrow> 's world \<Rightarrow> bool" where
  "app_ok M app w \<longleftrightarrow>
     (\<exists>c. ca_controller app = Some c \<and> (ca_state app \<noteq> SESSION_DISCONNECTED \<longrightarrow> cc_state c = CLIENT_STATE_RUNNING))
     \<and> (\<exists>gw. ca_windows app = Some gw \<and> windows_inv M gw w \<and> windows_safe M gw w)
     \<and> (\<forall>u. ca_username app = Some u \<longrightarrow> NUL \<notin> set u \<and> length u < 64)
     \<and> (ca_state app = SESSION_LOGGED_IN \<longrightarrow> ca_username app \<noteq> None)
     \<and> mset (core_live w) = {#Block_App, Block_Controller, Block_Windows#}"

text \<open>What everything but the window manager does to the world: no block changes, no signal, input only shrinks.\<close>

definition quiet :: "'s world \<Rightarrow> 's world \<Rightarrow> bool" where
  "quiet w w' \<longleftrightarrow> w_live w' = w_live w \<and> length (w_stdin w') \<le> length (w_stdin w)
     \<and> (\<exists>evs. w_trace w' = w_trace w @ evs \<and> (\<forall>e \<in> set evs. \<forall>p. e \<noteq> Ev_Kill p))"

lemma quiet_refl [simp]: "quiet w w"
  by (auto simp: quiet_def)

lemma quiet_trans: "quiet a b \<Longrightarrow> quiet b c \<Longrightarrow> quiet a c"
  unfolding quiet_def by (metis (no_types, lifting) Un_iff append.assoc le_trans set_append)

lemma quiet_print: "quiet w w1 \<Longrightarrow> quiet w (c_print s w1)"
  by (rule quiet_trans) (auto simp: quiet_def)

lemma windows_ok_quiet:
  assumes "windows_inv M gw w" and "windows_safe M gw w" and "quiet w w'"
  shows "windows_inv M gw w'" and "windows_safe M gw w'"
proof -
  show "windows_inv M gw w'" using assms by (simp add: windows_inv_def owns_def quiet_def)
  obtain evs where "w_trace w' = w_trace w @ evs" "\<forall>e \<in> set evs. \<forall>p. e \<noteq> Ev_Kill p" using assms(3) by (auto simp: quiet_def)
  then show "windows_safe M gw w'"
    using assms(2) justified_quiet [of "w_trace w" evs] pids_known_append by (auto simp: windows_safe_def)
qed

lemma app_ok_quiet: "app_ok M app w \<Longrightarrow> quiet w w' \<Longrightarrow> app_ok M app w'"
proof -
  assume a: "app_ok M app w" and q: "quiet w w'"
  then have "core_live w' = core_live w" by (simp add: core_live_def other_live_def quiet_def)
  then show ?thesis using a q windows_ok_quiet [of M _ w w'] unfolding app_ok_def by metis
qed

lemma app_ok_disconnect: "app_ok M app w \<Longrightarrow> app_ok M (app\<lparr>ca_state := SESSION_DISCONNECTED\<rparr>) w"
  by (auto simp: app_ok_def)

text \<open>The window manager's part of the invariant can be replaced.\<close>

lemma app_ok_windows:
  assumes "app_ok M app w" and "ca_windows app = Some gw" and "windows_frame gw w gw' w'"
    and "windows_inv M gw' w'" and "windows_safe M gw w \<longrightarrow> windows_safe M gw' w'"
  shows "app_ok M (app\<lparr>ca_windows := Some gw'\<rparr>) w'" and "length (w_stdin w') \<le> length (w_stdin w)"
  using assms by (auto simp: app_ok_def windows_frame_def core_live_def)

section \<open>Reading\<close>

lemma read_line:
  assumes "n \<le> length buf" and "1 < n"
  obtains ok buf' w' where "Menu_ReadLine (Some p) (Some buf) n w = Some (ok, Some buf', w')" and "quiet w w'"
    and "length buf' = length buf" and "w_sys w' = w_sys w"
    and "ok \<longrightarrow> (\<exists>s. c_string_at buf' 0 = Some s \<and> length s < n \<and> NUL \<notin> set s)"
    and "ok \<longrightarrow> length (w_stdin w') < length (w_stdin w)"
  using assms
proof (cases rule: Menu_ReadLine_cases [where w = w and p = p])
  case eof
  then show ?thesis by (intro that [of False buf "c_print p w"]) (auto intro: quiet_print)
next
  case (line l rest buf')
  have "quiet w ((c_print p w)\<lparr>w_stdin := rest\<rparr>)" using line(1) by (auto simp: quiet_def)
  moreover have "length (line_of l) < n" using line_of_bounds(2) [of l] line(3) by linarith
  ultimately show ?thesis using line line_of_bounds(1) by (intro that [OF line(5)]) auto
qed

lemma first_char: "c_string_at buf 0 = Some s \<Longrightarrow> buf ! 0 = NUL \<longleftrightarrow> s = []"
  by (cases buf) (auto simp: c_string_at_def split: if_splits)

lemma read_credentials:
  assumes "length a = 64" and "length b = 64"
  obtains ok name password w' where "ReadCredentials a 64 b 64 w = Some (ok, name, password, w')" and "quiet w w'"
    and "ok \<longrightarrow> (\<exists>n p. c_string_at name 0 = Some n \<and> c_string_at password 0 = Some p \<and> n \<noteq> [] \<and> p \<noteq> []
               \<and> length n < 64 \<and> length p < 64 \<and> NUL \<notin> set n \<and> NUL \<notin> set p)"
proof -
  obtain ok1 nb w1 where r1: "Menu_ReadLine (Some ''  username: '') (Some a) 64 w = Some (ok1, Some nb, w1)" "quiet w w1"
      "ok1 \<longrightarrow> (\<exists>s. c_string_at nb 0 = Some s \<and> length s < 64 \<and> NUL \<notin> set s)"
    using read_line [of 64 a "''  username: ''" w] assms(1) by (metis order_refl one_less_numeral_iff semiring_norm(76))
  obtain ok2 pb w2 where r2: "Menu_ReadLine (Some ''  password: '') (Some b) 64 w1 = Some (ok2, Some pb, w2)" "quiet w1 w2"
      "ok2 \<longrightarrow> (\<exists>s. c_string_at pb 0 = Some s \<and> length s < 64 \<and> NUL \<notin> set s)"
    using read_line [of 64 b "''  password: ''" w1] assms(2) by (metis order_refl one_less_numeral_iff semiring_norm(76))
  note def = ReadCredentials_def r1(1) r2(1)
  note failed = that [of False, simplified]
  show ?thesis
  proof (cases "ok1 \<and> nb ! 0 \<noteq> NUL")
    case False
    then show ?thesis using r1(2)
      by (intro failed [of nb b "if ok1 then c_print (''Username cannot be empty.'' @ newline) w1 else w1"])
        (auto simp: def intro: quiet_print)
  next
    case name: True
    show ?thesis
    proof (cases "ok2 \<and> pb ! 0 \<noteq> NUL")
      case False
      then show ?thesis using name r1(2) r2(2)
        by (intro failed [of nb pb "if ok2 then c_print (''Password cannot be empty.'' @ newline) w2 else w2"])
          (auto simp: def intro: quiet_print quiet_trans)
    next
      case True
      then show ?thesis using name r1(2,3) r2(2,3) first_char
        by (intro that [of True nb pb w2]) (auto simp: def intro: quiet_trans)
    qed
  qed
qed

lemma read_group_name:
  assumes "length a = 128"
  obtains ok name w' where "ReadGroupName a 128 w = Some (ok, name, w')" and "quiet w w'"
    and "ok \<longrightarrow> (\<exists>g. c_string_at name 0 = Some g \<and> g \<noteq> [] \<and> length g < 128 \<and> NUL \<notin> set g)"
proof -
  obtain ok nb w1 where r: "Menu_ReadLine (Some ''  group name: '') (Some a) 128 w = Some (ok, Some nb, w1)" "quiet w w1"
      "ok \<longrightarrow> (\<exists>s. c_string_at nb 0 = Some s \<and> length s < 128 \<and> NUL \<notin> set s)"
    using read_line [of 128 a "''  group name: ''" w] assms by (metis order_refl one_less_numeral_iff semiring_norm(76))
  show ?thesis
  proof (cases "ok \<and> nb ! 0 \<noteq> NUL")
    case True
    then show ?thesis using r first_char by (intro that [of True nb w1]) (auto simp: ReadGroupName_def)
  next
    case False
    then show ?thesis using r
      by (intro that [of False nb "if ok then c_print (''Group name cannot be empty.'' @ newline) w1 else w1"])
        (auto simp: ReadGroupName_def intro: quiet_print)
  qed
qed

section \<open>Exchanging messages\<close>

lemma client_os_okD:
  assumes "client_os_ok os"
  shows "uninit_ok os" "recv_ok os" "fst (os_alloc os Block_Map s)" "fst (os_alloc os (Block_Username n) s)"
    "length (os_uninit os k s) = k"
  using assms by (simp_all add: client_os_ok_def uninit_ok_def)

lemma uninit_message_ok: "client_os_ok os \<Longrightarrow> msg_ok (uninit_message os w)"
  by (simp add: msg_ok_def uninit_message_def client_os_okD)

text \<open>Sending a request: the bytes on the wire are its frame.\<close>

definition msg_frame :: "ChatMessage \<Rightarrow> string" where
  "msg_frame req = frame (m_opcode req) (m_status req) (take (unat (m_length req)) (m_value req))"

lemma serialize_request:
  assumes "client_os_ok os" and "msg_ok req" and "unat (m_length req) \<le> CHAT_MAX_VALUE"
  obtains rest where "SerializeChatMessage (Some req) (Some (os_uninit os CHAT_MAX_TOTAL s)) CHAT_MAX_TOTAL
      = Some (int (length (msg_frame req)), Some (msg_frame req @ rest))"
proof -
  have "length (msg_frame req) = CHAT_HEADER_SIZE + unat (m_length req)"
    using assms(2,3) by (simp add: msg_frame_def msg_ok_def)
  then show ?thesis
    using SerializeChatMessage_frame [OF assms(2,3), of CHAT_MAX_TOTAL "os_uninit os CHAT_MAX_TOTAL s"] assms(1,3)
    by (intro that) (simp add: msg_frame_def CHAT_MAX_TOTAL_def client_os_okD)
qed

lemma msg_frame_nonempty: "0 < length (msg_frame req)" "msg_frame req \<noteq> []" "hd (msg_frame req) = char_of_word (m_opcode req)"
  by (simp_all add: msg_frame_def frame_def)

text \<open>Receiving a response: a terminated text stays terminated.\<close>

lemma received_text:
  assumes "mem_write buf 0 (frame OPCODE_RESPONSE status t @ rest) = Some buf'" and "length t \<le> CHAT_MAX_VALUE"
    and "status < 128" and "status = CHAT_OK \<longrightarrow> NUL \<in> set t" and "msg_ok out" and "length buf = CONF_RECV_BUF_SIZE"
    and "DeserializeChatMessage (Some buf') CONF_RECV_BUF_SIZE (Some out) = Some (CHAT_OK, Some resp)"
    and "m_status resp = CHAT_OK"
  shows "NUL \<in> set (m_value resp)"
proof -
  have len: "length buf' = CONF_RECV_BUF_SIZE" using length_mem_write [OF assms(1)] assms(6) by simp
  obtain rest' where buf': "buf' = frame OPCODE_RESPONSE status t @ rest'"
    using assms(1) by (auto simp: mem_write_def split: if_splits)
  have "OPCODE_RESPONSE < 256" by (simp add: opcode_defs)
  moreover have "CHAT_HEADER_SIZE + length t \<le> CONF_RECV_BUF_SIZE" using assms(2) by (simp add: size_defs config_defs)
  ultimately have "DeserializeChatMessage (Some buf') CONF_RECV_BUF_SIZE (Some out) =
    (if length t mod 256 < 128
     then Some (CHAT_OK, Some \<lparr>m_opcode = OPCODE_RESPONSE, m_length = of_nat (length t),
             m_status = status, m_value = t @ drop (length t) (m_value out)\<rparr>)
     else Some (CHAT_ERR_MALFORMED, Some out))"
    using DeserializeChatMessage_frame [OF assms(2) _ assms(3), of OPCODE_RESPONSE CONF_RECV_BUF_SIZE rest' out] assms(5) len buf'
    by simp
  then show ?thesis using assms(4,7,8) by (auto simp: status_defs split: if_splits)
qed

lemma quiet_same: "w_stdin w' = w_stdin w \<Longrightarrow> w_live w' = w_live w \<Longrightarrow> w_trace w' = w_trace w \<Longrightarrow> quiet w w'"
  by (auto simp: quiet_def)

text \<open>The accepted reply to a create or join holds a terminated text when the peer sends such replies.\<close>

lemma endpoint_reply_terminated:
  assumes "endpoints_terminated os" and "m_opcode req \<in> {OPCODE_CREATE_GROUP, OPCODE_JOIN_GROUP}" and "m_status resp = CHAT_OK"
    and "msg_ok out" and "length rb = CONF_RECV_BUF_SIZE"
    and send: "ClientController_Send os (Some c) (Some (msg_frame req @ rest)) (length (msg_frame req)) w = Some (CLIENT_RESULT_SUCCESS, w1)"
    and recv: "ClientController_Receive os (Some c) (Some rb) CONF_RECV_BUF_SIZE w1 = Some (CLIENT_RESULT_SUCCESS, Some rbuf, w2)"
    and des: "DeserializeChatMessage (Some rbuf) CONF_RECV_BUF_SIZE (Some out) = Some (CHAT_OK, Some resp)"
  shows "NUL \<in> set (m_value resp)"
proof -
  obtain k bytes where k: "os_recv os (cc_fd c) CONF_RECV_BUF_SIZE (w_sys w1) = ((k, bytes), w_sys w2)" "0 < k"
      "mem_write rb 0 (take (nat k) bytes) = Some rbuf"
    using ClientController_Receive_success recv by metis
  have "hd (msg_frame req) \<in> {char_of_word OPCODE_CREATE_GROUP, char_of_word OPCODE_JOIN_GROUP}"
    using assms(2) msg_frame_nonempty(3) by auto
  moreover have "os_send os (cc_fd c) (msg_frame req) (w_sys w) = (fst (os_send os (cc_fd c) (msg_frame req) (w_sys w)), w_sys w1)"
    using ClientController_Send_success(1) [OF send] by simp
  ultimately obtain status t rest' where "take (nat k) bytes = frame OPCODE_RESPONSE status t @ rest'" "length t \<le> CHAT_MAX_VALUE"
      "status < 128" "status = CHAT_OK \<longrightarrow> NUL \<in> set t"
    using assms(1) k(1,2) msg_frame_nonempty(2) unfolding endpoints_terminated_def by blast
  then show ?thesis using received_text [OF _ _ _ _ assms(4,5) _ assms(3)] k(3) des by metis
qed

lemma exchange:
  assumes os: "client_os_ok os" and c: "ca_controller app = Some c" and req: "msg_ok req" "unat (m_length req) \<le> CHAT_MAX_VALUE"
    and out: "msg_ok out"
  obtains got resp closed w' where "ExchangeMessage os app req out w = Some (got, resp, closed, w')" and "quiet w w'"
    and "msg_ok resp" and "got \<longrightarrow> unat (m_length resp) \<le> CHAT_MAX_VALUE \<and> \<not> closed"
    and "endpoints_terminated os \<longrightarrow> got \<longrightarrow> m_opcode req \<in> {OPCODE_CREATE_GROUP, OPCODE_JOIN_GROUP}
      \<longrightarrow> m_status resp = CHAT_OK \<longrightarrow> NUL \<in> set (m_value resp)"
proof -
  obtain rest where ser: "SerializeChatMessage (Some req) (Some (os_uninit os CHAT_MAX_TOTAL (w_sys w))) CHAT_MAX_TOTAL
      = Some (int (length (msg_frame req)), Some (msg_frame req @ rest))"
    using serialize_request [OF os req] .
  let ?n = "length (msg_frame req)" and ?buf = "msg_frame req @ rest"
  obtain sr w1 where send: "ClientController_Send os (Some c) (Some ?buf) ?n w = Some (sr, w1)"
    using ClientController_Send_total [of ?n ?buf os c w] by auto
  have q1: "quiet w w1" using ClientController_Send_frame [OF send] by (auto simp: quiet_def)
  let ?rb = "os_uninit os CONF_RECV_BUF_SIZE (w_sys w1)"
  have lrb: "length ?rb = CONF_RECV_BUF_SIZE" using os by (simp add: client_os_okD)
  obtain rr rbuf w2 where recv: "ClientController_Receive os (Some c) (Some ?rb) CONF_RECV_BUF_SIZE w1 = Some (rr, Some rbuf, w2)"
      "length rbuf = CONF_RECV_BUF_SIZE" "quiet w1 w2"
    by (rule ClientController_Receive_total [OF client_os_okD(2) [OF os], of CONF_RECV_BUF_SIZE ?rb c w1])
      (use lrb quiet_same in auto)
  note q2 = quiet_trans [OF q1 recv(3)]
  obtain st resp where des: "DeserializeChatMessage (Some rbuf) CONF_RECV_BUF_SIZE (Some out) = Some (st, Some resp)"
      "msg_ok resp" "st = CHAT_OK \<longrightarrow> unat (m_length resp) \<le> CHAT_MAX_VALUE"
    using DeserializeChatMessage_total [of CONF_RECV_BUF_SIZE rbuf out] recv(2) out by (metis order_refl)
  note def = ExchangeMessage_def c ser send recv(1) des(1)
  note that1 = that
  have lost: thesis
    if "\<exists>r closed v. ExchangeMessage os app req out w = Some (False, r, closed, v) \<and> quiet w v \<and> msg_ok r"
    using that that1 by blast
  consider "sr \<noteq> CLIENT_RESULT_SUCCESS" | "sr = CLIENT_RESULT_SUCCESS" "rr \<noteq> CLIENT_RESULT_SUCCESS"
    | "sr = CLIENT_RESULT_SUCCESS" "rr = CLIENT_RESULT_SUCCESS" "st \<noteq> CHAT_OK \<or> m_opcode resp \<noteq> OPCODE_RESPONSE"
    | "sr = CLIENT_RESULT_SUCCESS" "rr = CLIENT_RESULT_SUCCESS" "st = CHAT_OK" "m_opcode resp = OPCODE_RESPONSE" by blast
  then show ?thesis
  proof cases
    case 1
    then show ?thesis using q1 out by (intro lost) (auto simp: def intro: quiet_print)
  next
    case 2
    then show ?thesis using q2 out
      by (intro lost, cases "rr = CLIENT_RESULT_CONNECTION_CLOSED") (auto simp: def intro: quiet_print)
  next
    case 3
    then show ?thesis using q2 des(2) by (intro lost, cases "st = CHAT_OK") (auto simp: def intro: quiet_print)
  next
    case 4
    have "NUL \<in> set (m_value resp)"
      if "endpoints_terminated os" and "m_opcode req \<in> {OPCODE_CREATE_GROUP, OPCODE_JOIN_GROUP}" and "m_status resp = CHAT_OK"
      by (rule endpoint_reply_terminated [OF that out lrb send [unfolded 4(1)] recv(1) [unfolded 4(2)] des(1) [unfolded 4(3)]])
    then show ?thesis using 4 q2 des(2,3) by (intro that [of True resp False w2]) (auto simp: def)
  qed
qed

text \<open>What a request puts into the trace: its frame, then only messages to the user.\<close>

definition prints :: "sys_event list \<Rightarrow> bool" where
  "prints evs \<longleftrightarrow> (\<forall>e \<in> set evs. \<exists>s. e = Ev_Print s)"

lemma prints_simps [simp]: "prints []" "prints (e # evs) \<longleftrightarrow> (\<exists>s. e = Ev_Print s) \<and> prints evs" "prints (a @ b) \<longleftrightarrow> prints a \<and> prints b"
  by (auto simp: prints_def)

lemma PrintResponse_trace: "PrintResponse resp w = Some w' \<Longrightarrow> \<exists>evs. w_trace w' = w_trace w @ evs \<and> prints evs"
  by (auto simp: PrintResponse_def Let_def split: if_splits Option.bind_splits)

lemma exchange_trace:
  assumes "client_os_ok os" and "ca_controller app = Some c" and "cc_state c = CLIENT_STATE_RUNNING"
    and "msg_ok req" and "unat (m_length req) \<le> CHAT_MAX_VALUE" and "ExchangeMessage os app req out w = Some (got, resp, closed, w')"
  shows "\<exists>evs. w_trace w' = w_trace w @ Ev_Send (cc_fd c) (msg_frame req) # evs \<and> prints evs"
proof -
  obtain rest where ser: "SerializeChatMessage (Some req) (Some (os_uninit os CHAT_MAX_TOTAL (w_sys w))) CHAT_MAX_TOTAL
      = Some (int (length (msg_frame req)), Some (msg_frame req @ rest))"
    using serialize_request [OF assms(1,4,5)] .
  obtain rc w1 where s: "sys_send os (cc_fd c) (msg_frame req) w = (rc, w1)" by (cases "sys_send os (cc_fd c) (msg_frame req) w")
  have tr: "w_trace w1 = w_trace w @ [Ev_Send (cc_fd c) (msg_frame req)]" using sys_result_frame(3) [OF s] by simp
  have send: "ClientController_Send os (Some c) (Some (msg_frame req @ rest)) (length (msg_frame req)) w
      = Some (if rc < 0 then CLIENT_RESULT_SEND_ERROR else CLIENT_RESULT_SUCCESS, w1)"
    using assms(3) s msg_frame_nonempty(2) [of req] by (simp add: ClientController_Send_def mem_read_def)
  have recv: "w_trace w2 = w_trace w1" if "ClientController_Receive os (Some c) (Some buf) n w1 = Some (r, b, w2)" for buf n r b w2
    using that by (auto simp: ClientController_Receive_def dest: sys_recv_frame(3) split: if_splits Option.bind_splits prod.splits)
  show ?thesis using assms(6) unfolding ExchangeMessage_def ser assms(2)
    by (auto simp: send tr split: if_splits Option.bind_splits prod.splits dest!: recv)
qed

lemma print_response:
  assumes "msg_ok resp" and "unat (m_length resp) \<le> CHAT_MAX_VALUE"
  obtains w' where "PrintResponse resp w = Some w'" and "quiet w w'"
proof -
  have "\<exists>s. printf_prefix (unat (m_length resp)) (m_value resp) = Some s"
    using assms by (simp add: printf_prefix_def msg_ok_def)
  then have "\<exists>w'. PrintResponse resp w = Some w' \<and> quiet w w'"
    by (auto simp: PrintResponse_def intro!: quiet_print)
  then show ?thesis using that by blast
qed

section \<open>Parsing an endpoint\<close>

lemma c_strchr_first:
  assumes "NUL \<notin> set pre" and "c \<notin> set pre" and "d = c \<or> d = NUL" and "c \<noteq> NUL"
  shows "c_strchr (pre @ d # rest) c = Some (if d = c then Some (length pre) else None)"
proof -
  have "takeWhile (\<lambda>x. x \<noteq> c \<and> x \<noteq> NUL) (pre @ d # rest) = pre"
    using assms by (subst takeWhile_append2) auto
  then show ?thesis using assms(3,4) by (auto simp: c_strchr_def Let_def)
qed

lemma c_strchr_total:
  assumes "NUL \<in> set buf" and "c \<noteq> NUL"
  obtains (none) "c_strchr buf c = Some None"
  | (hit) pre rest where "buf = pre @ c # rest" and "c_strchr buf c = Some (Some (length pre))" and "NUL \<in> set rest"
      and "NUL \<notin> set pre"
proof -
  obtain pre d rest where b: "buf = pre @ d # rest" "d = c \<or> d = NUL" "\<forall>x \<in> set pre. \<not> (x = c \<or> x = NUL)"
    using split_list_first_prop [of buf "\<lambda>x. x = c \<or> x = NUL"] assms(1) by blast
  then have "c_strchr buf c = Some (if d = c then Some (length pre) else None)" using c_strchr_first assms(2) by metis
  then show ?thesis using b assms none hit by (cases "d = c") auto
qed

lemma c_atoi_total:
  assumes "NUL \<in> set buf" shows "\<exists>v. c_atoi buf = Some v"
proof -
  have ns: "\<not> isspace NUL" "\<not> is_digit NUL" by (simp_all add: isspace_def is_digit_def NUL_def)
  have stop: "NUL \<in> set s \<Longrightarrow> length (takeWhile is_digit s) \<noteq> length s" for s
    using ns(2) by (metis takeWhile_eq_all_conv takeWhile_eq_take take_all order_refl)
  let ?s = "dropWhile isspace buf"
  have s: "NUL \<in> set ?s" using assms ns(1) by (induction buf) auto
  then have "NUL \<in> set (if ?s \<noteq> [] \<and> (hd ?s = CHR ''-'' \<or> hd ?s = CHR ''+'') then tl ?s else ?s)"
    by (cases ?s) (auto simp: NUL_def)
  then show ?thesis using stop by (auto simp: c_atoi_def Let_def)
qed

lemma parse_endpoint_total:
  assumes "NUL \<in> set v" and "length ip = n"
  obtains ok ip' port where "ParseEndpoint v ip n p = Some (ok, ip', port)"
    and "ok \<longrightarrow> (\<exists>s. c_string_at ip' 0 = Some s \<and> length s < n)"
proof -
  have cs: "\<exists>s. c_string_at v 0 = Some s" using assms(1) by (simp add: c_string_at_def)
  have colon: "CHR '':'' \<noteq> NUL" by (simp add: NUL_def)
  from assms(1) colon show ?thesis
  proof (cases rule: c_strchr_total)
    case none
    then show ?thesis using cs that [of False] by (auto simp: ParseEndpoint_def)
  next
    case (hit pre rest)
    show ?thesis
    proof (cases "pre = [] \<or> n \<le> length pre")
      case True
      then show ?thesis using cs hit that [of False] by (auto simp: ParseEndpoint_def)
    next
      case False
      obtain val where val: "c_atoi rest = Some val" using c_atoi_total hit(3) by blast
      have w1: "mem_write ip 0 pre = Some (pre @ drop (length pre) ip)" using False assms(2) by (intro mem_write_start) simp
      have ne: "drop (length pre) ip \<noteq> []" using False assms(2) by simp
      then have w2: "mem_write (pre @ drop (length pre) ip) (length pre) [NUL] = Some (pre @ [NUL] @ drop 1 (drop (length pre) ip))"
        by (subst mem_write_append) (auto simp: Suc_le_eq)
      have c: "c_string_at (pre @ [NUL] @ drop 1 (drop (length pre) ip)) 0 = Some pre"
        using c_string_at_append [OF hit(4), of "[]"] by simp
      have tk: "take (length pre) v = pre" "drop (length pre + 1) v = rest" using hit(1) by auto
      let ?ok = "\<not> (val \<le> 0 \<or> val > 65535)"
      have "ParseEndpoint v ip n p = Some (?ok, pre @ [NUL] @ drop 1 (drop (length pre) ip), if ?ok then of_int val else p)"
        using False cs hit(2) val w1 w2 tk by (auto simp: ParseEndpoint_def)
      then show ?thesis using c False by (intro that) auto
    qed
  qed
qed

lemma commands_no_NUL:
  assumes "NUL \<notin> set ip" and "NUL \<notin> set user"
  shows "NUL \<notin> set (receiver_command ip port)" and "NUL \<notin> set (sender_command ip port user)"
  using assms decimal_no_NUL by (auto simp: receiver_command_def sender_command_def CHAT_RECEIVER_BIN_def CHAT_SENDER_BIN_def NUL_def)

section \<open>The handlers\<close>

text \<open>A handler keeps the invariant, returns, and reads on.\<close>

definition handled :: "'m windows_ops \<Rightarrow> 's world \<Rightarrow> ('m ClientApp \<times> 's world) option \<Rightarrow> bool" where
  "handled M w result \<longleftrightarrow>
     (\<exists>app' w'. result = Some (app', w') \<and> app_ok M app' w' \<and> length (w_stdin w') \<le> length (w_stdin w))"

lemma handledI: "app_ok M app' w' \<Longrightarrow> length (w_stdin w') \<le> length (w_stdin w) \<Longrightarrow> handled M w (Some (app', w'))"
  by (simp add: handled_def)

lemma handled_quiet: "app_ok M app w \<Longrightarrow> quiet w w' \<Longrightarrow> handled M w (Some (app, w'))"
  by (auto simp: handled_def quiet_def intro: app_ok_quiet)

lemma handled_after: "handled M w1 r \<Longrightarrow> quiet w w1 \<Longrightarrow> handled M w r"
  by (fastforce simp: handled_def quiet_def)

text \<open>The failure branch all request handlers share.\<close>

lemma handled_lost:
  "app_ok M app w \<Longrightarrow> quiet w w' \<Longrightarrow> handled M w (Some (if closed then app\<lparr>ca_state := SESSION_DISCONNECTED\<rparr> else app, w'))"
  by (cases closed) (auto intro: app_ok_disconnect handled_quiet)

lemma connect_handled:
  assumes "app_ok M app w" and "ca_state app = SESSION_DISCONNECTED"
  shows "handled M w (Some (HandleConnect os app w))"
proof -
  obtain c where c: "ca_controller app = Some c" using assms(1) by (auto simp: app_ok_def)
  obtain r c' w1 where st: "ClientController_Start os (Some c) w = (r, c', w1)" by (cases "ClientController_Start os (Some c) w")
  obtain c'' where f: "c' = Some c''" "w_stdin w1 = w_stdin w" "w_live w1 = w_live w"
      "r = CLIENT_RESULT_SUCCESS \<longrightarrow> cc_state c'' = CLIENT_STATE_RUNNING"
      "\<exists>evs. w_trace w1 = w_trace w @ evs \<and> (\<forall>e \<in> set evs. case e of Ev_Connect _ _ _ \<Rightarrow> True | Ev_Close _ \<Rightarrow> True | _ \<Rightarrow> False)"
    by (rule ClientController_Start_frame [OF st]) blast
  have q: "quiet w w1" using f(2,3,5) by (fastforce simp: quiet_def)
  have "app_ok M (app\<lparr>ca_controller := Some c''\<rparr>) w" using assms by (auto simp: app_ok_def)
  moreover have "r = CLIENT_RESULT_SUCCESS \<Longrightarrow> app_ok M (app\<lparr>ca_controller := Some c'', ca_state := SESSION_CONNECTED\<rparr>) w"
    using assms f(4) by (auto simp: app_ok_def)
  ultimately show ?thesis using c st f(1) quiet_print [OF q]
    by (cases "r = CLIENT_RESULT_SUCCESS") (auto simp: HandleConnect_def intro: handled_quiet)
qed

lemma pack_credentials:
  assumes "msg_ok m" and "c_string_at a 0 = Some n" and "c_string_at b 0 = Some p" and "length n + length p + 2 \<le> CHAT_MAX_VALUE"
  shows "PackCredentials m a b = Some (m\<lparr>m_value := (n @ [NUL]) @ (p @ [NUL]) @ drop (length n + length p + 2) (m_value m),
           m_length := of_nat (length n + length p + 2)\<rparr>)"
proof -
  have l: "length (m_value m) = CHAT_MAX_VALUE" using assms(1) by (simp add: msg_ok_def)
  have "mem_write (m_value m) 0 (n @ [NUL]) = Some ((n @ [NUL]) @ drop (length (n @ [NUL])) (m_value m))"
    using l assms(4) by (intro mem_write_start) simp
  moreover have "mem_write ((n @ [NUL]) @ drop (length (n @ [NUL])) (m_value m)) (length n + 1) (p @ [NUL])
      = Some ((n @ [NUL]) @ (p @ [NUL]) @ drop (length (p @ [NUL])) (drop (length (n @ [NUL])) (m_value m)))"
    using l assms(4) by (intro mem_write_append) auto
  ultimately show ?thesis using assms(2,3) by (simp add: PackCredentials_def add.commute add.left_commute)
qed

lemma zero_message_ok: "msg_ok zero_message"
  by (simp add: msg_ok_def zero_message_def)

lemma unat_small: "k \<le> CHAT_MAX_VALUE \<Longrightarrow> unat (of_nat k :: 16 word) = k"
  by (rule unat_word16) (simp add: size_defs)

lemma sys_alloc_core:
  assumes "sys_alloc os b w = (ok, w')" and "credential_block b" and "app_ok M app w"
  shows "app_ok M app w'" and "w_stdin w' = w_stdin w"
proof -
  note f = sys_alloc_frame [OF assms(1)]
  have "core_live w' = core_live w" using f(3) assms(2) by (auto simp: core_live_def other_live_def)
  moreover have "owns w' v = owns w v" for v using f(3) assms(2) by (auto simp: owns_def credential_block_def)
  ultimately show "app_ok M app w'" using assms(3) f(2) by (simp add: app_ok_def windows_inv_def windows_safe_def)
qed (use sys_alloc_frame [OF assms(1)] in simp)

lemma credentials_handled:
  assumes "client_os_ok os" and "app_ok M app w" and "ca_state app = SESSION_CONNECTED"
  shows "handled M w (HandleCredentialedAction os app op SESSION_LOGGED_IN w)"
proof -
  let ?b = "os_uninit os 64 (w_sys w)"
  obtain ok nb pb w1 where rc: "ReadCredentials ?b 64 ?b 64 w = Some (ok, nb, pb, w1)" "quiet w w1"
      "ok \<longrightarrow> (\<exists>n p. c_string_at nb 0 = Some n \<and> c_string_at pb 0 = Some p \<and> n \<noteq> [] \<and> p \<noteq> []
               \<and> length n < 64 \<and> length p < 64 \<and> NUL \<notin> set n \<and> NUL \<notin> set p)"
    using read_credentials [of ?b ?b w] client_os_okD(5) [OF assms(1)] by blast
  show ?thesis
  proof (cases ok)
    case False
    then show ?thesis using rc(1) handled_quiet [OF assms(2) rc(2)] by (simp add: HandleCredentialedAction_def)
  next
    case True
    then obtain n p where np: "c_string_at nb 0 = Some n" "c_string_at pb 0 = Some p" "length n < 64" "length p < 64" "NUL \<notin> set n"
      using rc(3) by blast
    let ?m = "zero_message\<lparr>m_opcode := op, m_status := CHAT_OK\<rparr>"
    have m: "msg_ok ?m" by (simp add: msg_ok_def zero_message_def)
    have fit: "length n + length p + 2 \<le> CHAT_MAX_VALUE" using np by (simp add: size_defs)
    obtain req where req: "PackCredentials ?m nb pb = Some req" "msg_ok req" "unat (m_length req) \<le> CHAT_MAX_VALUE"
      using pack_credentials [OF m np(1,2) fit] m fit unat_small [OF fit]
      by (auto simp: msg_ok_def simp del: of_nat_add)
    obtain c where c: "ca_controller app = Some c" using assms(2) by (auto simp: app_ok_def)
    obtain got resp closed w2 where ex: "ExchangeMessage os app req (uninit_message os w1) w1 = Some (got, resp, closed, w2)"
        "quiet w1 w2" "msg_ok resp" "got \<longrightarrow> unat (m_length resp) \<le> CHAT_MAX_VALUE \<and> \<not> closed"
      by (rule exchange [OF assms(1) c req(2,3) uninit_message_ok [OF assms(1)]])
    note q2 = quiet_trans [OF rc(2) ex(2)]
    note def = HandleCredentialedAction_def rc(1) np(1,2) req(1) ex(1)
    show ?thesis
    proof (cases got)
      case False
      then show ?thesis using True fit handled_lost [OF assms(2) q2, of closed] by (simp add: def)
    next
      case got: True
      obtain w3 where pr: "PrintResponse resp w2 = Some w3" "quiet w2 w3" using print_response ex(3,4) got by blast
      note q3 = quiet_trans [OF q2 pr(2)]
      obtain nok w4 where a4: "sys_alloc os (Block_Username n) w3 = (nok, w4)" by (cases "sys_alloc os (Block_Username n) w3")
      obtain pok w5 where a5: "sys_alloc os (Block_Password p) w4 = (pok, w5)" by (cases "sys_alloc os (Block_Password p) w4")
      have nok: nok using a4 client_os_okD(4) [OF assms(1), of n "w_sys w3"]
        by (auto simp: sys_alloc_def sys_outcome_def split: prod.splits)
      let ?app = "app\<lparr>ca_username := Some n, ca_password := (if pok then Some p else None), ca_state := SESSION_LOGGED_IN\<rparr>"
      have "app_ok M ?app w3" using app_ok_quiet [OF assms(2) q3] assms(3) np by (auto simp: app_ok_def)
      note s4 = sys_alloc_core [OF a4 _ this]
      note s5 = sys_alloc_core [OF a5 _ s4(1)]
      have "handled M w (Some (?app, w5))"
        using s4 s5 q3 by (intro handledI) (auto simp: credential_block_def quiet_def)
      then show ?thesis using True got fit pr(1) a4 a5 nok handled_quiet [OF assms(2) q3]
        by (cases "m_status resp = CHAT_OK") (auto simp: def)
    qed
  qed
qed

text \<open>Requests without a payload of their own: the value may hold anything.\<close>

lemma request_exchange:
  fixes op :: MessageOpcode
  assumes os: "client_os_ok os" and app: "app_ok M app w" and "quiet w w1" and "length v = CHAT_MAX_VALUE" and "unat l \<le> CHAT_MAX_VALUE"
  defines "req \<equiv> zero_message\<lparr>m_opcode := op, m_status := CHAT_OK, m_value := v, m_length := l\<rparr>"
  obtains got resp closed w2 where "ExchangeMessage os app req (uninit_message os w1) w1 = Some (got, resp, closed, w2)"
    and "quiet w w2" and "\<not> got \<longrightarrow> handled M w (Some (if closed then app\<lparr>ca_state := SESSION_DISCONNECTED\<rparr> else app, w2))"
    and "got \<longrightarrow> (\<exists>w3. PrintResponse resp w2 = Some w3 \<and> quiet w w3 \<and> app_ok M app w3)"
    and "got \<longrightarrow> unat (m_length resp) \<le> CHAT_MAX_VALUE \<and> msg_ok resp"
    and "endpoints_terminated os \<longrightarrow> got \<longrightarrow> op \<in> {OPCODE_CREATE_GROUP, OPCODE_JOIN_GROUP}
      \<longrightarrow> m_status resp = CHAT_OK \<longrightarrow> NUL \<in> set (m_value resp)"
proof -
  obtain c where c: "ca_controller app = Some c" using app by (auto simp: app_ok_def)
  have req: "msg_ok req" "unat (m_length req) \<le> CHAT_MAX_VALUE" "m_opcode req = op"
    using assms(4,5) by (simp_all add: req_def msg_ok_def)
  obtain got resp closed w2 where ex: "ExchangeMessage os app req (uninit_message os w1) w1 = Some (got, resp, closed, w2)"
      "quiet w1 w2" "msg_ok resp" "got \<longrightarrow> unat (m_length resp) \<le> CHAT_MAX_VALUE \<and> \<not> closed"
      "endpoints_terminated os \<longrightarrow> got \<longrightarrow> m_opcode req \<in> {OPCODE_CREATE_GROUP, OPCODE_JOIN_GROUP}
        \<longrightarrow> m_status resp = CHAT_OK \<longrightarrow> NUL \<in> set (m_value resp)"
    by (rule exchange [OF os c req(1,2) uninit_message_ok [OF os]])
  note q = quiet_trans [OF assms(3) ex(2)]
  have "\<exists>w3. PrintResponse resp w2 = Some w3 \<and> quiet w w3 \<and> app_ok M app w3" if got
    using print_response [OF ex(3), of w2] ex(4) that quiet_trans [OF q] app_ok_quiet [OF app] by metis
  then show ?thesis using that [OF ex(1) q] handled_lost [OF app q, of closed] ex(3-5) req(3) by blast
qed

context group_windows
begin

lemma close_handled:
  assumes "app_ok M app w"
  shows "handled M w (do { (_, windows, w1) \<leftarrow> GroupWindows_Close M os (ca_windows app) (Some g) w;
                           Some (app\<lparr>ca_windows := windows\<rparr>, w1) })"
proof -
  obtain gw where gw: "ca_windows app = Some gw" "windows_inv M gw w" "windows_safe M gw w"
    using assms by (auto simp: app_ok_def)
  show ?thesis
  proof (cases "windows_view M gw g")
    case None
    then show ?thesis using close_miss [OF gw(2) None] gw(1) assms by (auto simp: handled_def app_ok_def)
  next
    case (Some pids)
    obtain gw' w' where c: "GroupWindows_Close M os (Some gw) (Some g) w = Some (GROUP_WINDOWS_SUCCESS, Some gw', w')"
        "windows_inv M gw' w'" "windows_view M gw' = (windows_view M gw)(g := None)" "w_trace w' = w_trace w @ kills_of pids"
        "windows_frame gw w gw' w'"
      using close_hit [OF gw(2) Some] .
    have "windows_safe M gw' w'" using close_safe [OF gw(3) c(3)] c(4) Some by simp
    then show ?thesis using app_ok_windows [OF assms gw(1) c(5,2)] c(1) gw(1) by (auto simp: handled_def)
  qed
qed

lemma done_handled:
  assumes os: "client_os_ok os" and app: "app_ok M app w" and log: "ca_state app = SESSION_LOGGED_IN"
    and resp: "unat (m_length resp) \<le> CHAT_MAX_VALUE" "msg_ok resp"
    and nul: "op \<in> {OPCODE_CREATE_GROUP, OPCODE_JOIN_GROUP} \<longrightarrow> NUL \<in> set (m_value resp)"
  shows "handled M w (group_action_done M os app op g resp w)"
proof (cases "op \<in> {OPCODE_CREATE_GROUP, OPCODE_JOIN_GROUP}")
  case False
  then show ?thesis using close_handled [OF app] handled_quiet [OF app quiet_refl] by (simp add: group_action_done_def)
next
  case True
  obtain gw where gw: "ca_windows app = Some gw" "windows_inv M gw w" using app by (auto simp: app_ok_def)
  obtain u where u: "ca_username app = Some u" "NUL \<notin> set u" using app log by (auto simp: app_ok_def)
  let ?ip = "os_uninit os CONF_MULTICAST_ENDPOINT_STR_MAX (w_sys w)"
  obtain ok ip port where pe: "ParseEndpoint (m_value resp) ?ip CONF_MULTICAST_ENDPOINT_STR_MAX 0 = Some (ok, ip, port)"
      "ok \<longrightarrow> (\<exists>s. c_string_at ip 0 = Some s \<and> length s < CONF_MULTICAST_ENDPOINT_STR_MAX)"
    by (rule parse_endpoint_total [of "m_value resp" ?ip CONF_MULTICAST_ENDPOINT_STR_MAX 0]) (use nul True client_os_okD(5) [OF os] in auto)
  show ?thesis
  proof (cases ok)
    case False
    have "\<exists>s. printf_prefix (unat (m_length resp)) (m_value resp) = Some s"
      using resp by (simp add: printf_prefix_def msg_ok_def)
    then show ?thesis using True False pe(1) handled_quiet [OF app quiet_print [OF quiet_refl]]
      by (auto simp: group_action_done_def)
  next
    case parsed: True
    then obtain s where s: "c_string_at ip 0 = Some s" using pe(2) by blast
    have n: "NUL \<notin> set s" using c_string_at_no_NUL [OF s] .
    obtain r gw' w' where op: "GroupWindows_Open M os (Some gw) (Some g) (Some s) port (Some u) w = Some (r, Some gw', w')"
        "opened gw w g [take 255 (receiver_command s port), take 255 (sender_command s port u)] r gw' w'"
      by (rule open_total [OF gw(2) client_os_okD(1) [OF os] commands_no_NUL [OF n u(2)]])
    have app': "app_ok M (app\<lparr>ca_windows := Some gw'\<rparr>) w'" "length (w_stdin w') \<le> length (w_stdin w)"
      using app_ok_windows [OF app gw(1)] op(2) unfolding opened_def by blast+
    have "app_ok M (app\<lparr>ca_windows := Some gw'\<rparr>) (c_print t w')" for t
      using app_ok_quiet [OF app'(1) quiet_print [OF quiet_refl]] .
    then show ?thesis using True parsed pe(1) s gw(1) u(1) op(1) app'
      by (auto simp: group_action_done_def handled_def)
  qed
qed

lemma group_handled:
  assumes os: "client_os_ok os" "endpoints_terminated os" and app: "app_ok M app w" and log: "ca_state app = SESSION_LOGGED_IN"
  shows "handled M w (HandleGroupAction M os app op w)"
proof -
  obtain ok nb w1 where rg: "ReadGroupName (os_uninit os 128 (w_sys w)) 128 w = Some (ok, nb, w1)" "quiet w w1"
      "ok \<longrightarrow> (\<exists>g. c_string_at nb 0 = Some g \<and> g \<noteq> [] \<and> length g < 128 \<and> NUL \<notin> set g)"
    by (rule read_group_name [of "os_uninit os 128 (w_sys w)"]) (use client_os_okD(5) [OF os(1)] in auto)
  show ?thesis
  proof (cases ok)
    case False
    then show ?thesis using rg(1) handled_quiet [OF app rg(2)] by (simp add: HandleGroupAction_def)
  next
    case True
    then obtain g where g: "c_string_at nb 0 = Some g" "length g < 128" using rg(3) by blast
    have lz: "length (m_value zero_message) = CHAT_MAX_VALUE" by (simp add: zero_message_def)
    have fit: "length g + 1 \<le> CHAT_MAX_VALUE" using g(2) by (simp add: size_defs)
    obtain v where v: "mem_write (m_value zero_message) 0 (g @ [NUL]) = Some v" using lz fit by (simp add: mem_write_def)
    have lv: "length v = CHAT_MAX_VALUE" using length_mem_write [OF v] lz by simp
    have ll: "unat (of_nat (length g + 1) :: 16 word) \<le> CHAT_MAX_VALUE" using unat_small [OF fit] fit by (simp only:)
    obtain got resp closed w2 where ex: "ExchangeMessage os app (zero_message\<lparr>m_opcode := op, m_status := CHAT_OK, m_value := v, m_length := of_nat (length g + 1)\<rparr>)
          (uninit_message os w1) w1 = Some (got, resp, closed, w2)"
        "quiet w w2" "\<not> got \<longrightarrow> handled M w (Some (if closed then app\<lparr>ca_state := SESSION_DISCONNECTED\<rparr> else app, w2))"
        "got \<longrightarrow> (\<exists>w3. PrintResponse resp w2 = Some w3 \<and> quiet w w3 \<and> app_ok M app w3)"
        "got \<longrightarrow> unat (m_length resp) \<le> CHAT_MAX_VALUE \<and> msg_ok resp"
        "endpoints_terminated os \<longrightarrow> got \<longrightarrow> op \<in> {OPCODE_CREATE_GROUP, OPCODE_JOIN_GROUP}
          \<longrightarrow> m_status resp = CHAT_OK \<longrightarrow> NUL \<in> set (m_value resp)"
      by (rule request_exchange [OF os(1) app rg(2) lv ll])
    note def = HandleGroupAction_def rg(1) g(1) v ex(1) [unfolded Suc_eq_plus1 [symmetric] of_nat_Suc]
    show ?thesis
    proof (cases got)
      case False
      then show ?thesis using True fit ex(3) by (simp add: def)
    next
      case got: True
      then obtain w3 where w3: "PrintResponse resp w2 = Some w3" "quiet w w3" "app_ok M app w3" using ex(4) by blast
      have "m_status resp = CHAT_OK \<Longrightarrow> handled M w (group_action_done M os app op g resp w3)"
        using got ex(5,6) os w3 log by (intro handled_after [OF done_handled w3(2)]) auto
      then show ?thesis using True got fit w3(1) handled_quiet [OF app w3(2)]
        by (cases "m_status resp = CHAT_OK") (simp_all add: def)
    qed
  qed
qed

lemma logout_handled:
  assumes os: "client_os_ok os" and app: "app_ok M app w" and log: "ca_state app = SESSION_LOGGED_IN"
  shows "handled M w (HandleLogout M os app w)"
proof -
  obtain u where u: "ca_username app = Some u" "length u < 64" using app log by (auto simp: app_ok_def)
  have lz: "length (m_value zero_message) = CHAT_MAX_VALUE" by (simp add: zero_message_def)
  obtain v where v: "mem_write (m_value zero_message) 0 (u @ [NUL]) = Some v" using lz u(2) by (simp add: mem_write_def size_defs)
  have lv: "length v = CHAT_MAX_VALUE" using length_mem_write [OF v] lz by simp
  obtain got resp closed w1 where ex: "ExchangeMessage os app (zero_message\<lparr>m_opcode := OPCODE_LOGOUT, m_status := CHAT_OK, m_value := v, m_length := 0\<rparr>)
        (uninit_message os w) w = Some (got, resp, closed, w1)"
      "quiet w w1" "\<not> got \<longrightarrow> handled M w (Some (if closed then app\<lparr>ca_state := SESSION_DISCONNECTED\<rparr> else app, w1))"
      "got \<longrightarrow> (\<exists>w3. PrintResponse resp w1 = Some w3 \<and> quiet w w3 \<and> app_ok M app w3)"
    by (rule request_exchange [OF os app quiet_refl lv, of 0]) simp
  note def = HandleLogout_def u(1) v ex(1)
  show ?thesis
  proof (cases got)
    case False
    then show ?thesis using ex(3) by (simp add: def)
  next
    case True
    then obtain w2 where w2: "PrintResponse resp w1 = Some w2" "quiet w w2" "app_ok M app w2" using ex(4) by blast
    obtain gw where gw: "ca_windows app = Some gw" "windows_inv M gw w2" using w2(3) by (auto simp: app_ok_def)
    obtain gw' w' m where ca: "GroupWindows_CloseAll M os (Some gw) w2 = Some (Some gw', w')" "windows_inv M gw' w'"
        "windows_frame gw w2 gw' w'" "windows_safe M gw w2 \<longrightarrow> windows_safe M gw' w'"
      by (rule close_all_total [OF gw(2) client_os_okD(3) [OF os]]) blast
    note ok = app_ok_windows [OF w2(3) gw(1) ca(3,2,4)]
    have "app_ok M (app\<lparr>ca_windows := Some gw', ca_state := SESSION_CONNECTED\<rparr>) w'"
      using ok(1) log by (auto simp: app_ok_def)
    then have "handled M w2 (Some (app\<lparr>ca_windows := Some gw', ca_state := SESSION_CONNECTED\<rparr>, w'))"
      using ok(2) by (rule handledI)
    note this = handled_after [OF this w2(2)]
    then show ?thesis using True w2(1) gw(1) ca(1) handled_quiet [OF app w2(2)] by (auto simp: def)
  qed
qed

lemma list_handled:
  assumes os: "client_os_ok os" and app: "app_ok M app w"
  shows "handled M w (HandleListAction os app op w)"
proof -
  have lz: "length (m_value zero_message) = CHAT_MAX_VALUE" by (simp add: zero_message_def)
  obtain got resp closed w1 where ex: "ExchangeMessage os app (zero_message\<lparr>m_opcode := op, m_status := CHAT_OK, m_value := m_value zero_message, m_length := 0\<rparr>)
        (uninit_message os w) w = Some (got, resp, closed, w1)"
      "quiet w w1" "\<not> got \<longrightarrow> handled M w (Some (if closed then app\<lparr>ca_state := SESSION_DISCONNECTED\<rparr> else app, w1))"
      "got \<longrightarrow> (\<exists>w3. PrintResponse resp w1 = Some w3 \<and> quiet w w3 \<and> app_ok M app w3)"
    by (rule request_exchange [OF os app quiet_refl lz, of 0]) simp
  have req: "zero_message\<lparr>m_opcode := op, m_status := CHAT_OK, m_value := m_value zero_message, m_length := 0\<rparr>
      = zero_message\<lparr>m_opcode := op, m_status := CHAT_OK, m_length := 0\<rparr>" by (simp add: zero_message_def)
  show ?thesis using ex handled_quiet [OF app] unfolding req
    by (cases got) (auto simp: HandleListAction_def)
qed

lemma exit_handled:
  assumes os: "client_os_ok os" and app: "app_ok M app w"
  obtains app' w' where "HandleExit M os app w = Some (app', w')" and "app_ok M app' w'" and "ca_state app' = SESSION_DISCONNECTED"
proof (cases "ca_state app = SESSION_DISCONNECTED")
  case True
  then show ?thesis using app by (intro that [of app w]) (auto simp: HandleExit_def)
next
  case False
  obtain c where c: "ca_controller app = Some c" "cc_state c = CLIENT_STATE_RUNNING" using app False by (auto simp: app_ok_def)
  let ?req = "zero_message\<lparr>m_opcode := OPCODE_EXIT, m_status := CHAT_OK, m_length := 0\<rparr>"
  have req: "msg_ok ?req" "unat (m_length ?req) \<le> CHAT_MAX_VALUE" by (simp_all add: msg_ok_def zero_message_def)
  obtain rest where ser: "SerializeChatMessage (Some ?req) (Some (os_uninit os CHAT_MAX_TOTAL (w_sys w))) CHAT_MAX_TOTAL
      = Some (int (length (msg_frame ?req)), Some (msg_frame ?req @ rest))"
    using serialize_request [OF os req] .
  obtain r w1 where send: "ClientController_Send os (Some c) (Some (msg_frame ?req @ rest)) (length (msg_frame ?req)) w = Some (r, w1)"
    by (rule ClientController_Send_total [of "length (msg_frame ?req)" "msg_frame ?req @ rest"]) auto
  have q: "quiet w w1" using ClientController_Send_frame [OF send] by (auto simp: quiet_def)
  have app1: "app_ok M app w1" using app_ok_quiet [OF app q] .
  obtain gw where gw: "ca_windows app = Some gw" "windows_inv M gw w1" using app1 by (auto simp: app_ok_def)
  obtain gw' w2 m where ca: "GroupWindows_CloseAll M os (Some gw) w1 = Some (Some gw', w2)" "windows_inv M gw' w2"
      "windows_frame gw w1 gw' w2" "windows_safe M gw w1 \<longrightarrow> windows_safe M gw' w2"
    by (rule close_all_total [OF gw(2) client_os_okD(3) [OF os]]) blast
  note ok = app_ok_windows [OF app1 gw(1) ca(3,2,4)]
  let ?app = "app\<lparr>ca_windows := Some gw', ca_controller := Some (c\<lparr>cc_state := CLIENT_STATE_STOPPED, cc_fd := - 1\<rparr>), ca_state := SESSION_DISCONNECTED\<rparr>"
  have "app_ok M ?app w2" using ok(1) by (auto simp: app_ok_def)
  moreover have "quiet w2 (sys_close os (cc_fd c) w2)" by (auto simp: quiet_def sys_call_frame)
  ultimately have "app_ok M ?app (sys_close os (cc_fd c) w2)" by (rule app_ok_quiet)
  moreover have "HandleExit M os app w = Some (?app, sys_close os (cc_fd c) w2)"
    using False c ser send gw(1) ca(1) msg_frame_nonempty(1) [of ?req] by (simp add: HandleExit_def ClientController_Stop_eq)
  ultimately show ?thesis by (intro that) auto
qed

section \<open>The loop\<close>

lemma dispatch_handled:
  assumes os: "client_os_ok os" "endpoints_terminated os" and app: "app_ok M app w"
    and "choice = MENU_NONE \<or> choice \<in> set (GetOptions (ca_state app))"
  shows "handled M w (dispatch M os app choice w)"
proof (cases choice)
  case MENU_NONE
  then show ?thesis using handled_quiet [OF app quiet_print [OF quiet_refl]] by simp
next
  case MENU_EXIT
  then show ?thesis using handled_quiet [OF app quiet_print [OF quiet_refl]] by simp
next
  case MENU_DISPLAY_USERS
  then show ?thesis using list_handled [OF os(1) app] by simp
next
  case MENU_DISPLAY_GROUPS
  then show ?thesis using list_handled [OF os(1) app] by simp
qed (use assms(4) connect_handled [OF app] credentials_handled [OF os(1) app] logout_handled [OF os(1) app] group_handled [OF os app] in
  \<open>cases "ca_state app"; simp add: s_disconnectedOptions_def s_connectedOptions_def s_loggedInOptions_def\<close>)+

lemma render_quiet: "quiet w (Menu_Render st w)"
proof -
  have "quiet w (render_options i opts w)" for i opts and w :: "'s world"
    by (induction opts arbitrary: i w) (auto intro: quiet_trans [OF quiet_print [OF quiet_refl]])
  then show ?thesis unfolding Menu_Render_def by (rule quiet_trans [OF quiet_print [OF quiet_refl]])
qed

lemma loop_total:
  assumes "client_os_ok os" and "endpoints_terminated os" and "app_ok M app w" and "length line = CONF_MENU_LINE_MAX"
  shows "\<exists>app' w'. client_loop M os app line w = Some (0, app', w') \<and> app_ok M app' w' \<and> ca_state app' = SESSION_DISCONNECTED"
  using assms
proof (induction "length (w_stdin w)" arbitrary: app w line rule: less_induct)
  case less
  let ?w = "Menu_Render (ca_state app) w"
  have q0: "quiet w ?w" by (rule render_quiet)
  obtain ok line1 w1 where rl: "Menu_ReadLine (Some ''> '') (Some line) CONF_MENU_LINE_MAX ?w = Some (ok, Some line1, w1)"
      "quiet ?w w1" "length line1 = length line" "ok \<longrightarrow> (\<exists>s. c_string_at line1 0 = Some s)"
      "ok \<longrightarrow> length (w_stdin w1) < length (w_stdin ?w)"
    by (rule read_line [of CONF_MENU_LINE_MAX line "''> ''" ?w]) (use less.prems(4) in \<open>auto simp: config_defs\<close>)
  have app1: "app_ok M app w1" using app_ok_quiet [OF app_ok_quiet [OF less.prems(3) q0] rl(2)] .
  have exit: ?case if "app_ok M app v" "client_loop M os app line w = Option.bind (HandleExit M os app v) (\<lambda>(app', w'). Some (0, app', w'))" for v
    using exit_handled [OF less.prems(1) that(1)] that(2) by (metis (no_types, lifting) bind.bind_lunit case_prod_conv)
  show ?case
  proof (cases ok)
    case False
    show ?thesis
      by (rule exit [OF app_ok_quiet [OF app1 quiet_print [OF quiet_refl]]])
        (subst client_loop.simps, use False rl(1) in simp)
  next
    case True
    then obtain s where s: "c_string_at line1 0 = Some s" using rl(4) by blast
    let ?choice = "Menu_Parse (Some s) (ca_state app)"
    show ?thesis
    proof (cases "?choice = MENU_EXIT")
      case True
      show ?thesis by (rule exit [OF app1]) (subst client_loop.simps, use \<open>ok\<close> True rl(1) s in simp)
    next
      case False
      obtain app' w' where d: "dispatch M os app ?choice w1 = Some (app', w')" "app_ok M app' w'"
          "length (w_stdin w') \<le> length (w_stdin w1)"
        using dispatch_handled [OF less.prems(1,2) app1 Menu_Parse_option] unfolding handled_def by blast
      have "length (w_stdin w') < length (w_stdin w)" using d(3) rl(5) \<open>ok\<close> q0 by (auto simp: quiet_def)
      moreover have "client_loop M os app line w = client_loop M os app' line1 w'"
        by (subst client_loop.simps) (use \<open>ok\<close> False rl(1) s d(1) in simp)
      ultimately show ?thesis using less.hyps [OF _ less.prems(1,2) d(2)] rl(3) less.prems(4) by metis
    qed
  qed
qed

end

end
