(* ===== verification/Client_Properties.thy ===== *)
theory Client_Properties
  imports Client_Run Data_Structures_Ref
begin

text \<open>
  What the client's runs mean for its user.  The theorems hold over any hash map that keeps its contract
  and any operating system that keeps the one stated; the examples use the reference hash map and a small
  operating system that answers from constants.
\<close>

interpretation windows: group_windows "chain_ops :: (string, GroupPids) chain_map windows_ops"
  by unfold_locales

section \<open>Creation and destruction\<close>

context group_windows
begin

lemma app_create_cases:
  assumes "w_live w = []" and "w_trace w = []" and "is_valid_ip_address (Some ip)" and "length ip < INET_ADDRSTRLEN"
  obtains (failed) w' where "ClientApp_Create M os (Some ip) port w = Some (None, w')" and "w_live w' = []"
      and "justified (w_trace w')"
  | (created) app w' where "ClientApp_Create M os (Some ip) port w = Some (Some app, w')" and "app_ok M app w'"
      and "ca_state app = SESSION_DISCONNECTED" and "length (w_stdin w') = length (w_stdin w)"
proof -
  obtain ok w1 where a1: "sys_alloc os Block_App w = (ok, w1)" by (cases "sys_alloc os Block_App w")
  note f1 = sys_alloc_frame [OF a1]
  obtain cok w2 where a2: "sys_alloc os Block_Controller w1 = (cok, w2)" by (cases "sys_alloc os Block_Controller w1")
  note f2 = sys_alloc_frame [OF a2]
  have free: "sys_free b v = Some (v\<lparr>w_live := bs\<rparr>)" if "w_live v = b # bs" for b bs and v :: "'a world"
    using that by (simp add: sys_free_def)
  let ?c = "\<lparr>cc_fd = - 1, cc_ip = network_convert_ip_p_to_n (Some ip), cc_port = port, cc_state = CLIENT_STATE_STOPPED\<rparr>"
  have cc: "ClientController_Create os (Some ip) port w1 = (if cok then (Some ?c, w2) else (None, w2))"
    using a2 assms(3) by (simp add: ClientController_Create_def)
  note def = ClientApp_Create_def a1 cc
  have j: "justified (w_trace w1)" "justified (w_trace w2)" using f1(2) f2(2) assms(2) by (simp_all add: justified_def)
  show ?thesis
  proof (cases "ok \<and> cok")
    case False
    then show ?thesis using a1 f1(3) f2(3) assms(1,4) j free [of w2 Block_App "[]"]
      by (intro failed [of "if ok then w2\<lparr>w_live := []\<rparr> else w1"]) (auto simp: def)
  next
    case True
    have l2: "w_live w2 = [Block_Controller, Block_App]" using True f1(3) f2(3) assms(1) by simp
    then have "owns w2 Map.empty" by (simp add: owns_def)
    then show ?thesis
    proof (cases rule: create_cases [where os = os])
      case (failed w3)
      have "sys_free Block_Controller w3 = Some (w3\<lparr>w_live := [Block_App]\<rparr>)" using failed(3) l2 free by simp
      then have "ClientController_Destroy (Some ?c) w3 = Some (None, w3\<lparr>w_live := [Block_App]\<rparr>)"
        by (simp add: ClientController_Destroy_def)
      then show ?thesis using True failed(1,4) j assms(4) free [of "w3\<lparr>w_live := [Block_App]\<rparr>" Block_App "[]"]
        by (intro \<open>\<And>w'. _ \<Longrightarrow> w_live w' = [] \<Longrightarrow> _ \<Longrightarrow> thesis\<close> [of "w3\<lparr>w_live := []\<rparr>"]) (auto simp: def)
    next
      case (created gw w3)
      let ?app = "\<lparr>ca_controller = Some ?c, ca_windows = Some gw, ca_state = SESSION_DISCONNECTED, ca_username = None,
                   ca_password = None, ca_ip = ip, ca_port = port\<rparr>"
      have tr: "w_trace w3 = [Ev_QueueUnlink, Ev_QueueOpen (gw_queue gw)]" using created(6) f1(2) f2(2) assms(2) by simp
      have "justified (w_trace w3)" unfolding tr using justified_quiet [of "[]" "[Ev_QueueUnlink, Ev_QueueOpen (gw_queue gw)]"]
        by (simp add: justified_def)
      then have "windows_safe M gw w3" using created(5) by (simp add: windows_safe_def)
      moreover have "mset (core_live w3) = {#Block_App, Block_Controller, Block_Windows#}"
        using created(3) l2 by (auto simp: core_live_def other_live_def credential_block_def add_mset_commute)
      ultimately have "app_ok M ?app w3" using created(4) by (simp add: app_ok_def)
      then show ?thesis using True created(1,2) f1(1) f2(1) assms(4)
        by (intro \<open>\<And>app w'. _ \<Longrightarrow> app_ok M app w' \<Longrightarrow> _ \<Longrightarrow> _ \<Longrightarrow> thesis\<close> [of ?app w3]) (auto simp: def)
    qed
  qed
qed

text \<open>Destruction frees what the application owns; only the copies of the credentials stay behind.\<close>

lemma app_destroy_total:
  assumes "app_ok M app w"
  obtains w' where "ClientApp_Destroy M os (Some app) w = Some (None, w')" and "justified (w_trace w')"
    and "set (w_live w') \<subseteq> {b. credential_block b}"
proof -
  obtain c gw where c: "ca_controller app = Some c" and gw: "ca_windows app = Some gw" using assms by (auto simp: app_ok_def)
  obtain c1 w1 where st: "(if ca_state app \<noteq> SESSION_DISCONNECTED then snd (ClientController_Stop os (Some c) w) else (Some c, w)) = (Some c1, w1)"
      "quiet w w1"
    by (cases "ca_state app \<noteq> SESSION_DISCONNECTED"; cases "cc_state c")
      (auto simp: ClientController_Stop_eq quiet_def sys_call_frame)
  note ok1 = app_ok_quiet [OF assms st(2)]
  have inv: "windows_inv M gw w1" "windows_safe M gw w1" and core: "mset (core_live w1) = {#Block_App, Block_Controller, Block_Windows#}"
    using ok1 gw by (auto simp: app_ok_def)
  have "set (core_live w1) = {Block_App, Block_Controller, Block_Windows}" using core by (metis set_mset_mset set_mset_add_mset_insert set_mset_single)
  then have "Block_Windows \<in> set (w_live w1)" by (auto simp: core_live_def other_live_def)
  then obtain w2 where w2: "GroupWindows_Destroy M os (Some gw) w1 = Some (None, w2)" "owns w2 Map.empty"
      "other_live w2 = remove1 Block_Windows (other_live w1)" "justified (w_trace w2)"
    using destroy_total [OF inv(1), of os] inv(2) by metis
  have core2: "mset (core_live w2) = {#Block_App, Block_Controller#}"
    using core w2(3) by (simp add: core_live_def filter_remove1 credential_block_def)
  have "set (core_live w2) = {Block_App, Block_Controller}" using core2 by (metis set_mset_mset set_mset_add_mset_insert set_mset_single)
  then have "Block_Controller \<in> set (w_live w2)" by (auto simp: core_live_def other_live_def)
  then obtain w3 where w3: "sys_free Block_Controller w2 = Some w3" by (auto simp: sys_free_def)
  note f3 = sys_free_frame [OF w3]
  have core3: "mset (core_live w3) = {#Block_App#}"
    using core2 f3(3) by (simp add: core_live_def other_live_def filter_remove1 credential_block_def)
  then have "set (core_live w3) = {Block_App}" by (metis set_mset_mset set_mset_single)
  then have "Block_App \<in> set (w_live w3)" by (auto simp: core_live_def other_live_def)
  then obtain w4 where w4: "sys_free Block_App w3 = Some w4" by (auto simp: sys_free_def)
  note f4 = sys_free_frame [OF w4]
  have "core_live w4 = []"
    using core3 f4(3) by (simp add: core_live_def other_live_def filter_remove1 credential_block_def flip: mset_zero_iff)
  moreover have "owns w4 Map.empty" using w2(2) f3(3) f4(3) by (simp add: owns_def)
  then have "\<not> window_block b" if "b \<in> set (w_live w4)" for b
    using that by (auto simp: owns_def window_block_def count_eq_zero_iff)
  ultimately have "set (w_live w4) \<subseteq> {b. credential_block b}" by (auto simp: core_live_def other_live_def filter_empty_conv)
  moreover have "ClientApp_Destroy M os (Some app) w = Some (None, w4)"
    using c gw st(1) w2(1) w3 w4
    by (cases "ca_state app = SESSION_DISCONNECTED") (auto simp: ClientApp_Destroy_def ClientController_Destroy_def)
  ultimately show ?thesis using w2(4) f3(2) f4(2) by (intro that) auto
qed

lemma main_total:
  assumes "client_os_ok os" and "endpoints_terminated os" and "w_live w = []" and "w_trace w = []"
  obtains (failed) w' where "client_main M os w = Some (1, w')" and "w_live w' = []" and "justified (w_trace w')"
  | (ran) w' where "client_main M os w = Some (0, w')" and "justified (w_trace w')" and "set (w_live w') \<subseteq> {b. credential_block b}"
proof -
  have ip: "is_valid_ip_address (Some CONF_SERVER_IP)" "length CONF_SERVER_IP < INET_ADDRSTRLEN"
    by (simp_all add: CONF_SERVER_IP_def is_valid_ip_address_def inet_pton4_def is_digit_def digit_value_def of_char_def INET_ADDRSTRLEN_def)
  from assms(3,4) ip show ?thesis
  proof (cases rule: app_create_cases [where os = os and port = CONF_SERVER_PORT])
    case (failed w1)
    then show ?thesis by (intro that(1) [of w1]) (simp_all add: client_main_def)
  next
    case (created app w1)
    have "length (os_uninit os CONF_MENU_LINE_MAX (w_sys w1)) = CONF_MENU_LINE_MAX" using assms(1) by (simp add: client_os_okD)
    from loop_total [OF assms(1,2) created(2) this] obtain app' w2 where
      l: "client_loop M os app (os_uninit os CONF_MENU_LINE_MAX (w_sys w1)) w1 = Some (0, app', w2)" "app_ok M app' w2" by blast
    obtain w3 where d: "ClientApp_Destroy M os (Some app') w2 = Some (None, w3)" "justified (w_trace w3)"
        "set (w_live w3) \<subseteq> {b. credential_block b}"
      using app_destroy_total [OF l(2)] .
    show ?thesis using created(1) l(1) d by (intro that(2) [of w3]) (simp_all add: client_main_def ClientApp_Run_def)
  qed
qed

end

section \<open>A small operating system\<close>

text \<open>
  Every call succeeds; the server answers every request with the endpoint of a group; a window reports
  process id 11 for the sender and 12 for the receiver in turn.
\<close>

definition ref_reply :: string where
  "ref_reply = frame OPCODE_RESPONSE CHAT_OK (''239.0.0.1:5000'' @ [NUL])"

definition ref_os :: "bool client_os" where
  "ref_os = \<lparr>os_alloc = (\<lambda>_ s. (True, s)), os_uninit = (\<lambda>n _. replicate n NUL), os_socket = (\<lambda>s. (7, s)),
     os_connect = (\<lambda>_ _ _ s. (0, s)), os_close = (\<lambda>_ s. s), os_send = (\<lambda>_ bytes s. (int (length bytes), s)),
     os_recv = (\<lambda>_ len s. ((int (min len 19), ref_reply), s)), os_system = (\<lambda>_ s. (0, s)), os_mq_open = (\<lambda>s. (3, s)),
     os_mq_timedreceive = (\<lambda>_ s. (Some (if s then \<lparr>m_role = 1, m_pid = 12\<rparr> else \<lparr>m_role = 0, m_pid = 11\<rparr>), \<not> s)),
     os_mq_close = (\<lambda>_ s. s), os_mq_unlink = (\<lambda>s. s), os_kill = (\<lambda>_ s. (0, s))\<rparr>"

definition ref_world :: "string \<Rightarrow> bool world" where
  "ref_world input = \<lparr>w_sys = False, w_stdin = input, w_trace = [], w_live = []\<rparr>"

lemma ref_reply_length: "length ref_reply = 19"
  by (simp add: ref_reply_def size_defs)

lemma ref_os_ok: "client_os_ok ref_os"
  by (simp add: client_os_ok_def uninit_ok_def recv_ok_def ref_os_def ref_reply_length)


section \<open>Runs\<close>





section \<open>Chat windows\<close>

lemma commands_fit:
  assumes "length ip < 22" and "length user < 64"
  shows "length (receiver_command ip port) \<le> 255" and "length (sender_command ip port user) \<le> 255"
proof -
  have "unat port < 2 ^ 16" using unsigned_less [of port, where ?'a = nat] by simp
  then have "unat port < 10 ^ Suc 4" by simp
  then have "length (decimal (unat port)) \<le> 5" using decimal_length [of "unat port" 4] by simp
  then show "length (receiver_command ip port) \<le> 255" "length (sender_command ip port user) \<le> 255"
    using assms by (simp_all add: receiver_command_def sender_command_def CHAT_RECEIVER_BIN_def CHAT_SENDER_BIN_def)
qed

text \<open>
  C23. Opening the windows of a group.  For an address and a user name that fit the client's buffers,
  \<open>GroupWindows_Open\<close> returns; the pair of a group that was already open is signalled and dropped first;
  on success exactly that group is (re)bound to the new pair, after launching the two complete, untruncated
  commands and receiving exactly two process ids, each stored by the role its window reported; on every
  failure the group is left untracked.  The other groups stay as they are, and the
  live key and pair blocks are again exactly those of the tracked groups.
\<close>

theorem open_windows_correct:
  assumes "group_windows M" and "windows_inv M gw w" and "uninit_ok os"
    and "NUL \<notin> set ip" and "length ip < 22" and "NUL \<notin> set user" and "length user < 64"
  shows "\<exists>r gw' w'. GroupWindows_Open M os (Some gw) (Some g) (Some ip) port (Some user) w = Some (r, Some gw', w')
    \<and> windows_inv M gw' w' \<and> other_live w' = other_live w
    \<and> (if r = GROUP_WINDOWS_SUCCESS
       then (\<exists>pids reports. windows_view M gw' = (windows_view M gw)(g \<mapsto> pids) \<and> collected reports pids \<and> length reports = 2
              \<and> w_trace w' = w_trace w @ (case windows_view M gw g of None \<Rightarrow> [] | Some old \<Rightarrow> kills_of old)
                  @ [Ev_System (receiver_command ip port), Ev_System (sender_command ip port user)] @ reports)
       else windows_view M gw' = (windows_view M gw)(g := None))"
proof -
  have fit: "take 255 (receiver_command ip port) = receiver_command ip port" "take 255 (sender_command ip port user) = sender_command ip port user"
    using commands_fit [OF assms(5,7), of port] by simp_all
  obtain r gw' w' where o: "GroupWindows_Open M os (Some gw) (Some g) (Some ip) port (Some user) w = Some (r, Some gw', w')"
      "group_windows.opened M gw w g [receiver_command ip port, sender_command ip port user] r gw' w'"
    by (rule group_windows.open_total [OF assms(1-3) commands_no_NUL [OF assms(4,6)], where port = port and g = g, unfolded fit])
  show ?thesis
    using o(2) unfolding group_windows.opened_def [OF assms(1)] windows_frame_def
    by (intro exI [of _ r] exI [of _ gw'] exI [of _ w'] conjI o(1)) (auto split: if_splits)
qed

text \<open>A manager that tracks nothing yet.\<close>

definition ref_windows :: "(string, GroupPids) chain_map GroupWindows" where
  "ref_windows = \<lparr>gw_groups = HashMap_Create chain_ops True CONF_CHAT_WINDOWS_MAP_SIZE HashGroupName GroupNamesEqual, gw_queue = 3\<rparr>"

lemma ref_windows_inv:
  "windows_inv chain_ops ref_windows (ref_world s)" "windows_view chain_ops ref_windows = Map.empty"
proof -
  obtain m where m: "HashMap_Create (chain_ops :: (string, GroupPids) chain_map windows_ops) True CONF_CHAT_WINDOWS_MAP_SIZE HashGroupName GroupNamesEqual = Some m"
      "HashMap_Ok (chain_ops :: (string, GroupPids) chain_map windows_ops) m" "hm_lookup chain_ops m = Map.empty"
    using windows.create_empty by blast
  then show v: "windows_view chain_ops ref_windows = Map.empty" by (simp add: windows_view_def ref_windows_def)
  show "windows_inv chain_ops ref_windows (ref_world s)"
    unfolding windows_inv_def v using m by (simp add: ref_windows_def owns_def ref_world_def)
qed

theorem open_windows_correct_witness:
  "\<exists>r gw' w'. GroupWindows_Open chain_ops ref_os (Some ref_windows) (Some ''g'') (Some ''239.0.0.1'') 5000 (Some ''ann'') (ref_world []) = Some (r, Some gw', w')
     \<and> windows_inv chain_ops gw' w'"
  using open_windows_correct [OF windows.group_windows_axioms ref_windows_inv(1) client_os_okD(1) [OF ref_os_ok],
      where ip = "''239.0.0.1''" and user = "''ann''" and g = "''g''" and port = 5000]
  by (simp add: NUL_def) blast

text \<open>
  Closing the windows of a group.  \<open>GroupWindows_Close\<close> reports an untracked group without doing anything;
  for a tracked one it signals exactly the positive ids of its pair, sender first, frees the key and the
  pair, and forgets the group and nothing else.
\<close>

lemma close_windows_correct:
  assumes "group_windows M" and "windows_inv M gw w"
  shows "case windows_view M gw g of
      None \<Rightarrow> GroupWindows_Close M os (Some gw) (Some g) w = Some (GROUP_WINDOWS_NOT_FOUND, Some gw, w)
    | Some pids \<Rightarrow> \<exists>gw' w'. GroupWindows_Close M os (Some gw) (Some g) w = Some (GROUP_WINDOWS_SUCCESS, Some gw', w')
        \<and> windows_inv M gw' w' \<and> windows_view M gw' = (windows_view M gw)(g := None) \<and> other_live w' = other_live w
        \<and> w_trace w' = w_trace w @ map Ev_Kill (filter (\<lambda>p. 0 < p) [m_sender pids, m_receiver pids])"
proof (cases "windows_view M gw g")
  case None
  then show ?thesis using group_windows.close_miss [OF assms None] by simp
next
  case (Some pids)
  then show ?thesis
    by (auto simp: windows_frame_def kills_of_def intro: group_windows.close_hit [OF assms Some, of os])
qed

text \<open>
  Leaving everything.  \<open>GroupWindows_CloseAll\<close>, called on logout and on exit, signals the positive ids of
  all tracked pairs and no others, frees every key and pair, and leaves an empty manager that can be
  used again, provided the new hash map can be allocated.
\<close>

lemma close_all_windows_correct:
  assumes "group_windows M" and "windows_inv M gw w" and "\<And>s. fst (os_alloc os Block_Map s)"
  shows "\<exists>gw' w' kills. GroupWindows_CloseAll M os (Some gw) w = Some (Some gw', w')
    \<and> windows_inv M gw' w' \<and> windows_view M gw' = Map.empty \<and> other_live w' = other_live w
    \<and> w_trace w' = w_trace w @ kills
    \<and> set kills = {Ev_Kill p | p g pids. windows_view M gw g = Some pids \<and> 0 < p \<and> (p = m_sender pids \<or> p = m_receiver pids)}"
proof -
  obtain gw' w' m where c: "GroupWindows_CloseAll M os (Some gw) w = Some (Some gw', w')" "gw_groups gw = Some m"
      "windows_inv M gw' w'" "windows_view M gw' = Map.empty" "windows_frame gw w gw' w'"
      "w_trace w' = w_trace w @ group_windows.all_kills M m"
    by (rule group_windows.close_all_total [OF assms])
  have "HashMap_Ok M m" and v: "windows_view M gw = hm_lookup M m"
    using assms(2) c(2) by (auto simp: windows_inv_def windows_view_def)
  then have items: "(k, pids) \<in> set (HashMap_Items M m) \<longleftrightarrow> windows_view M gw k = Some pids" for k pids
    using hash_map.items_distinct [OF group_windows.axioms [OF assms(1)]] by (simp add: hm_lookup_def)
  have kills: "e \<in> set (kills_of pids) \<longleftrightarrow> (\<exists>p. e = Ev_Kill p \<and> 0 < p \<and> (p = m_sender pids \<or> p = m_receiver pids))" for e pids
    by (auto simp: kills_of_def)
  have "e \<in> set (group_windows.all_kills M m) \<longleftrightarrow> (\<exists>g pids. windows_view M gw g = Some pids \<and> e \<in> set (kills_of pids))" for e
    using items by (force simp: group_windows.all_kills_def [OF assms(1)])
  then have "set (group_windows.all_kills M m)
      = {Ev_Kill p | p g pids. windows_view M gw g = Some pids \<and> 0 < p \<and> (p = m_sender pids \<or> p = m_receiver pids)}"
    unfolding kills by blast
  then show ?thesis using c unfolding windows_frame_def by blast
qed

section \<open>The menu\<close>

text \<open>
  C31. Selecting what the menu shows.  A line that consists of blanks, a decimal number \<open>n\<close> and blanks selects entry
  \<open>n\<close> of the menu shown for the state, the entry \<open>Menu_Render\<close> prints under that number; any other number
  selects nothing.  The number is kept in a \<open>size_t\<close>, so it counts modulo \<open>2 ^ 64\<close>: a number of twenty digits
  can select an entry.
\<close>

theorem menu_parse_number:
  assumes "\<forall>c \<in> set as. isspace c" and "\<forall>c \<in> set bs. isspace c"
  shows "Menu_Parse (Some (as @ decimal n @ bs)) st =
    (let k = n mod 2 ^ 64
     in if k = 0 \<or> length (GetOptions st) < k then MENU_NONE else GetOptions st ! (k - 1))"
  using Menu_Parse_digits [OF assms(1) decimal_nonempty decimal_digits assms(2), of n st] by (simp add: digits_value_decimal)

theorem menu_parse_number_witness:
  "Menu_Parse (Some ('' '' @ decimal 18446744073709551617 @ '''')) SESSION_DISCONNECTED = MENU_CONNECT"
proof -
  have "\<forall>c \<in> set '' ''. isspace c" "\<forall>c \<in> set ''''. isspace c" by (simp_all add: isspace_def)
  from menu_parse_number [OF this, of "18446744073709551617" SESSION_DISCONNECTED] show ?thesis
    by (simp add: Let_def s_disconnectedOptions_def)
qed

section \<open>Requests\<close>

lemma take_line_typed:
  assumes "CHR 0x0A \<notin> set s" and "length s < n"
  shows "take_line n (s @ newline @ rest) = (s @ newline, rest)"
  using assms
proof (induction s arbitrary: n)
  case Nil
  then show ?case by (cases n) (auto simp: newline_def)
next
  case (Cons c s)
  then show ?case by (cases n) auto
qed

text \<open>A text the user can type into a field of the given size.\<close>

definition typed :: "nat \<Rightarrow> string \<Rightarrow> bool" where
  "typed n s \<longleftrightarrow> s \<noteq> [] \<and> length s + 1 < n \<and> CHR 0x0A \<notin> set s \<and> CHR 0x0D \<notin> set s \<and> NUL \<notin> set s"

lemma line_of_typed: "typed n s \<Longrightarrow> line_of (s @ newline) = s"
proof -
  assume t: "typed n s"
  then have "takeWhile (\<lambda>c. c \<noteq> NUL) (s @ newline) = s @ newline"
    by (subst takeWhile_eq_all_conv) (auto simp: typed_def newline_def NUL_def)
  moreover have "strip_end (s @ newline) = strip_end s" by (subst strip_end.simps) (simp add: newline_def)
  moreover have "last s \<noteq> CHR 0x0A" "last s \<noteq> CHR 0x0D" using t last_in_set [of s] by (metis typed_def)+
  then have "strip_end s = s" by (subst strip_end.simps) simp
  ultimately show ?thesis unfolding line_of_def by (simp only:)
qed

lemma read_typed:
  assumes "typed n s" and "n \<le> length buf" and "w_stdin w = s @ newline @ rest"
  obtains buf' where "Menu_ReadLine (Some p) (Some buf) n w = Some (True, Some buf', (c_print p w)\<lparr>w_stdin := rest\<rparr>)"
    and "c_string_at buf' 0 = Some s"
proof -
  have n: "1 < n" using assms(1) by (auto simp: typed_def)
  have tl: "take_line (n - 1) (w_stdin w) = (s @ newline, rest)"
    using assms(1,3) take_line_typed [of s "n - 1" rest] by (simp add: typed_def less_diff_conv)
  from assms(2) n show ?thesis
  proof (cases rule: Menu_ReadLine_cases [where w = w and p = p])
    case eof
    then show ?thesis using assms(3) by (simp add: newline_def)
  next
    case (line l rest' buf')
    then show ?thesis using tl that line_of_typed [OF assms(1)] by auto
  qed
qed

text \<open>Reading and packing typed credentials.\<close>

lemma typed_request:
  assumes "client_os_ok os" and "typed 64 n" and "typed 64 pw" and "w_stdin w = n @ newline @ pw @ newline @ rest"
  obtains nb pb w2 req where "ReadCredentials (os_uninit os 64 (w_sys w)) 64 (os_uninit os 64 (w_sys w)) 64 w = Some (True, nb, pb, w2)"
    and "c_string_at nb 0 = Some n" and "c_string_at pb 0 = Some pw" and "length n + length pw + 2 \<le> CHAT_MAX_VALUE"
    and "PackCredentials (zero_message\<lparr>m_opcode := op, m_status := CHAT_OK\<rparr>) nb pb = Some req" and "msg_ok req"
    and "unat (m_length req) \<le> CHAT_MAX_VALUE" and "msg_frame req = frame op CHAT_OK (n @ [NUL] @ pw @ [NUL])"
    and "w_sys w2 = w_sys w" and "w_live w2 = w_live w" and "w_stdin w2 = rest"
    and "w_trace w2 = w_trace w @ [Ev_Print ''  username: '', Ev_Print ''  password: '']"
proof -
  let ?b = "os_uninit os 64 (w_sys w)"
  have lb: "length ?b = 64" using client_os_okD(5) [OF assms(1)] .
  obtain nb where nb: "Menu_ReadLine (Some ''  username: '') (Some ?b) 64 w
        = Some (True, Some nb, (c_print ''  username: '' w)\<lparr>w_stdin := pw @ newline @ rest\<rparr>)" "c_string_at nb 0 = Some n"
    by (rule read_typed [OF assms(2) _ assms(4), where buf = ?b and p = "''  username: ''"]) (simp add: lb)
  let ?w1 = "(c_print ''  username: '' w)\<lparr>w_stdin := pw @ newline @ rest\<rparr>"
  obtain pb where pb: "Menu_ReadLine (Some ''  password: '') (Some ?b) 64 ?w1
        = Some (True, Some pb, (c_print ''  password: '' ?w1)\<lparr>w_stdin := rest\<rparr>)" "c_string_at pb 0 = Some pw"
    by (rule read_typed [OF assms(3), where buf = ?b and p = "''  password: ''" and w = ?w1 and rest = rest]) (simp_all add: lb)
  have ne: "n \<noteq> []" "pw \<noteq> []" "length n < 63" "length pw < 63" using assms(2,3) by (auto simp: typed_def)
  have rc: "ReadCredentials ?b 64 ?b 64 w = Some (True, nb, pb, (c_print ''  password: '' ?w1)\<lparr>w_stdin := rest\<rparr>)"
    using nb pb ne(1,2) first_char [OF nb(2)] first_char [OF pb(2)] by (simp add: ReadCredentials_def)
  let ?m = "zero_message\<lparr>m_opcode := op, m_status := CHAT_OK\<rparr>"
  have fit: "length n + length pw + 2 \<le> CHAT_MAX_VALUE" using ne by (simp add: size_defs)
  obtain req where req: "PackCredentials ?m nb pb = Some req" "msg_ok req" "unat (m_length req) \<le> CHAT_MAX_VALUE"
      "msg_frame req = frame op CHAT_OK (n @ [NUL] @ pw @ [NUL])"
    using pack_credentials [of ?m, OF _ nb(2) pb(2) fit] fit unat_small [OF fit]
    by (auto simp: msg_ok_def zero_message_def msg_frame_def simp del: of_nat_add)
  show ?thesis by (rule that [OF rc nb(2) pb(2) fit req]) simp_all
qed

text \<open>
  What the user types is what the server gets.  For a user name and a password that fit their fields,
  typed on two lines, the register and login handlers of a connected client return and send exactly one
  frame, before anything else: the opcode, the length and the two terminated strings in the value.
\<close>

lemma typed_credentials_sent:
  assumes "client_os_ok os" and "ca_controller app = Some c" and "cc_state c = CLIENT_STATE_RUNNING"
    and "typed 64 n" and "typed 64 pw" and "w_stdin w = n @ newline @ pw @ newline @ rest"
  shows "\<exists>app' w' evs. HandleCredentialedAction os app op st w = Some (app', w')
    \<and> w_trace w' = w_trace w @ [Ev_Print ''  username: '', Ev_Print ''  password: '',
          Ev_Send (cc_fd c) (frame op CHAT_OK (n @ [NUL] @ pw @ [NUL]))] @ evs
    \<and> (\<forall>e \<in> set evs. \<forall>fd bytes. e \<noteq> Ev_Send fd bytes)"
proof -
  obtain nb pb w2 req where t: "ReadCredentials (os_uninit os 64 (w_sys w)) 64 (os_uninit os 64 (w_sys w)) 64 w = Some (True, nb, pb, w2)"
      "c_string_at nb 0 = Some n" "c_string_at pb 0 = Some pw" and fit: "length n + length pw + 2 \<le> CHAT_MAX_VALUE"
      and req: "PackCredentials (zero_message\<lparr>m_opcode := op, m_status := CHAT_OK\<rparr>) nb pb = Some req" "msg_ok req"
      "unat (m_length req) \<le> CHAT_MAX_VALUE" "msg_frame req = frame op CHAT_OK (n @ [NUL] @ pw @ [NUL])"
      and w2: "w_trace w2 = w_trace w @ [Ev_Print ''  username: '', Ev_Print ''  password: '']"
    by (rule typed_request [OF assms(1,4-6), where op = op])
  obtain got resp closed w3 where ex: "ExchangeMessage os app req (uninit_message os w2) w2 = Some (got, resp, closed, w3)"
      "msg_ok resp" "got \<longrightarrow> unat (m_length resp) \<le> CHAT_MAX_VALUE \<and> \<not> closed"
    by (rule exchange [OF assms(1,2) req(2,3) uninit_message_ok [OF assms(1)]])
  obtain evs where evs: "w_trace w3 = w_trace w2 @ Ev_Send (cc_fd c) (msg_frame req) # evs" "prints evs"
    using exchange_trace [OF assms(1-3) req(2,3) ex(1)] by blast
  note def = HandleCredentialedAction_def t req(1) ex(1)
  show ?thesis
  proof (cases got)
    case False
    then show ?thesis using fit evs req(4) w2 by (auto simp: def prints_def)
  next
    case True
    then obtain w4 where w4: "PrintResponse resp w3 = Some w4" using print_response ex(2,3) by blast
    obtain evs' where evs': "w_trace w4 = w_trace w3 @ evs'" "prints evs'" using PrintResponse_trace [OF w4] by blast
    obtain a w5 where a5: "sys_alloc os (Block_Username n) w4 = (a, w5)" by (cases "sys_alloc os (Block_Username n) w4")
    obtain b w6 where a6: "sys_alloc os (Block_Password pw) w5 = (b, w6)" by (cases "sys_alloc os (Block_Password pw) w5")
    have "w_trace w6 = w_trace w4" using sys_alloc_frame(2) [OF a5] sys_alloc_frame(2) [OF a6] by simp
    then show ?thesis using True fit evs evs' req(4) w2 w4 a5 a6
      by (cases "m_status resp = CHAT_OK") (auto simp: def prints_def)
  qed
qed

text \<open>An application that is connected over descriptor 7.\<close>

definition ref_app :: "(string, GroupPids) chain_map ClientApp" where
  "ref_app = \<lparr>ca_controller = Some \<lparr>cc_fd = 7, cc_ip = 0, cc_port = 8080, cc_state = CLIENT_STATE_RUNNING\<rparr>,
     ca_windows = Some ref_windows, ca_state = SESSION_CONNECTED, ca_username = None, ca_password = None,
     ca_ip = CONF_SERVER_IP, ca_port = CONF_SERVER_PORT\<rparr>"

section \<open>Weaknesses\<close>

text \<open>
  C37. A half-received reply is completed from the stack.  \<open>ExchangeMessage\<close> decodes its whole receive buffer
  instead of the bytes that arrived.  When only the four header bytes of a reply have arrived, the reply is
  accepted all the same, with the previous contents of the buffer as its value.
\<close>

theorem half_reply_accepted:
  assumes "client_os_ok os" and "ca_controller app = Some c" and "cc_state c = CLIENT_STATE_RUNNING"
    and "msg_ok req" and "unat (m_length req) \<le> CHAT_MAX_VALUE" and "msg_ok out"
    and "os_send os (cc_fd c) (msg_frame req) (w_sys w) = (rc, mid)" and "0 \<le> rc"
    and "os_recv os (cc_fd c) CONF_RECV_BUF_SIZE mid = ((4, take 4 (frame OPCODE_RESPONSE st t)), fin)"
    and "length t < 128" and "st < 128"
  shows "\<exists>w'. ExchangeMessage os app req out w = Some (True,
      \<lparr>m_opcode = OPCODE_RESPONSE, m_length = of_nat (length t), m_status = st,
       m_value = take (length t) (drop 4 (os_uninit os CONF_RECV_BUF_SIZE mid)) @ drop (length t) (m_value out)\<rparr>, False, w')"
proof -
  obtain rest where ser: "SerializeChatMessage (Some req) (Some (os_uninit os CHAT_MAX_TOTAL (w_sys w))) CHAT_MAX_TOTAL
      = Some (int (length (msg_frame req)), Some (msg_frame req @ rest))"
    using serialize_request [OF assms(1,4,5)] .
  let ?w1 = "emit (Ev_Send (cc_fd c) (msg_frame req)) (w\<lparr>w_sys := mid\<rparr>)"
  have send: "ClientController_Send os (Some c) (Some (msg_frame req @ rest)) (length (msg_frame req)) w = Some (CLIENT_RESULT_SUCCESS, ?w1)"
    using assms(3,7,8) msg_frame_nonempty(2) [of req] by (simp add: ClientController_Send_def mem_read_def sys_send_def)
  let ?b = "os_uninit os CONF_RECV_BUF_SIZE mid" and ?hdr = "take 4 (frame OPCODE_RESPONSE st t)"
  define v where "v = take (length t) (drop 4 ?b)"
  have lb: "length ?b = CONF_RECV_BUF_SIZE" using client_os_okD(5) [OF assms(1)] .
  have lv: "length v = length t" using lb assms(10) by (simp add: v_def config_defs)
  have "?hdr @ drop 4 ?b = frame OPCODE_RESPONSE st v @ drop (4 + length t) ?b"
    using lv append_take_drop_id [of "length t" "drop 4 ?b"] by (simp add: frame_def v_def add.commute)
  moreover have wr: "mem_write ?b 0 ?hdr = Some (?hdr @ drop 4 ?b)"
    using lb mem_write_start [of ?hdr ?b] by (simp add: config_defs size_defs)
  ultimately have recv: "ClientController_Receive os (Some c) (Some ?b) CONF_RECV_BUF_SIZE ?w1
      = Some (CLIENT_RESULT_SUCCESS, Some (frame OPCODE_RESPONSE st v @ drop (4 + length t) ?b), ?w1\<lparr>w_sys := fin\<rparr>)"
    using assms(3,9) by (simp add: ClientController_Receive_def sys_recv_def config_defs size_defs)
  have des: "DeserializeChatMessage (Some (frame OPCODE_RESPONSE st v @ drop (4 + length t) ?b)) CONF_RECV_BUF_SIZE (Some out) =
      Some (CHAT_OK, Some \<lparr>m_opcode = OPCODE_RESPONSE, m_length = of_nat (length t), m_status = st, m_value = v @ drop (length t) (m_value out)\<rparr>)"
    using DeserializeChatMessage_frame [of v OPCODE_RESPONSE st CONF_RECV_BUF_SIZE "drop (4 + length t) ?b" out] lv lb assms(6,10,11)
    by (simp add: config_defs size_defs opcode_defs)
  show ?thesis using ser send recv des assms(2) by (simp add: ExchangeMessage_def v_def)
qed

text \<open>An operating system whose \<open>recv\<close> delivers the header first.\<close>

definition half_os :: "bool client_os" where
  "half_os = ref_os\<lparr>os_recv := (\<lambda>_ len s. ((int (min len 4), take 4 ref_reply), s))\<rparr>"

theorem half_reply_accepted_witness:
  "\<exists>w'. ExchangeMessage half_os ref_app (zero_message\<lparr>m_opcode := OPCODE_LIST_USERS\<rparr>) zero_message (ref_world []) = Some (True,
      \<lparr>m_opcode = OPCODE_RESPONSE, m_length = 15, m_status = CHAT_OK, m_value = replicate 256 NUL\<rparr>, False, w')"
proof -
  have ok: "client_os_ok half_os"
    using ref_os_ok by (simp add: half_os_def client_os_ok_def uninit_ok_def recv_ok_def ref_reply_length ref_os_def)
  let ?req = "zero_message\<lparr>m_opcode := OPCODE_LIST_USERS\<rparr>"
  let ?t = "''239.0.0.1:5000'' @ [NUL]"
  let ?c = "\<lparr>cc_fd = 7, cc_ip = 0, cc_port = 8080, cc_state = CLIENT_STATE_RUNNING\<rparr>"
  have c: "ca_controller ref_app = Some ?c" "cc_state ?c = CLIENT_STATE_RUNNING" by (simp_all add: ref_app_def)
  have m: "msg_ok ?req" "unat (m_length ?req) \<le> CHAT_MAX_VALUE" "msg_ok zero_message"
    by (simp_all add: msg_ok_def zero_message_def)
  have send: "os_send half_os (cc_fd ?c) (msg_frame ?req) (w_sys (ref_world [])) = (int (length (msg_frame ?req)), False)"
    by (simp add: half_os_def ref_os_def ref_world_def)
  have recv: "os_recv half_os (cc_fd ?c) CONF_RECV_BUF_SIZE False = ((4, take 4 (frame OPCODE_RESPONSE CHAT_OK ?t)), False)"
    by (simp add: half_os_def config_defs ref_reply_def)
  have t: "length ?t < 128" "(CHAT_OK :: ChatStatus) < 128" by (simp_all add: status_defs)
  have v: "take (length ?t) (drop 4 (os_uninit half_os CONF_RECV_BUF_SIZE False)) @ drop (length ?t) (m_value zero_message)
      = replicate 256 NUL"
    by (rule replicate_eqI)
      (auto simp: half_os_def ref_os_def zero_message_def config_defs size_defs dest!: in_set_takeD in_set_dropD)
  from half_reply_accepted [OF ok c m send of_nat_0_le_iff recv t, unfolded v] show ?thesis by simp
qed

text \<open>
  C38. Reconnecting to a server that went away connects to nothing.  When the server has closed the connection, a
  list request tells the user and falls back to the disconnected state, but the controller keeps the dead
  socket.  Choosing \<open>Connect\<close> then reports a connection without any call of \<open>connect\<close>: the trace gains
  only the printed line and the controller is unchanged.
\<close>

theorem reconnect_keeps_dead_socket:
  assumes "client_os_ok os" and "ca_controller app = Some c" and "cc_state c = CLIENT_STATE_RUNNING"
    and "\<And>bytes s. 0 \<le> fst (os_send os (cc_fd c) bytes s)" and "\<And>len s. fst (fst (os_recv os (cc_fd c) len s)) = 0"
  shows "\<exists>w1 w2. HandleListAction os app op w = Some (app\<lparr>ca_state := SESSION_DISCONNECTED\<rparr>, w1)
    \<and> HandleConnect os (app\<lparr>ca_state := SESSION_DISCONNECTED\<rparr>) w1 = (app\<lparr>ca_state := SESSION_CONNECTED\<rparr>, w2)
    \<and> w_trace w2 = w_trace w1 @ [Ev_Print (''Connected to '' @ ca_ip app @ '':'' @ decimal (unat (ca_port app)) @ newline)]"
proof -
  let ?req = "zero_message\<lparr>m_opcode := op, m_status := CHAT_OK, m_length := 0\<rparr>"
  have req: "msg_ok ?req" "unat (m_length ?req) \<le> CHAT_MAX_VALUE" by (simp_all add: msg_ok_def zero_message_def)
  obtain rest where ser: "SerializeChatMessage (Some ?req) (Some (os_uninit os CHAT_MAX_TOTAL (w_sys w))) CHAT_MAX_TOTAL
      = Some (int (length (msg_frame ?req)), Some (msg_frame ?req @ rest))"
    using serialize_request [OF assms(1) req] .
  obtain rc s1 where os: "os_send os (cc_fd c) (msg_frame ?req) (w_sys w) = (rc, s1)" by (cases "os_send os (cc_fd c) (msg_frame ?req) (w_sys w)")
  let ?w1 = "emit (Ev_Send (cc_fd c) (msg_frame ?req)) (w\<lparr>w_sys := s1\<rparr>)"
  have send: "ClientController_Send os (Some c) (Some (msg_frame ?req @ rest)) (length (msg_frame ?req)) w = Some (CLIENT_RESULT_SUCCESS, ?w1)"
    using assms(3) assms(4) [of "msg_frame ?req" "w_sys w"] os msg_frame_nonempty(2) [of ?req]
    by (simp add: ClientController_Send_def mem_read_def sys_send_def)
  obtain b s2 where r: "os_recv os (cc_fd c) CONF_RECV_BUF_SIZE s1 = ((0, b), s2)"
    using assms(5) [of CONF_RECV_BUF_SIZE s1] by (metis prod.collapse)
  have "CONF_RECV_BUF_SIZE \<noteq> 0" by (simp add: config_defs)
  then have "HandleListAction os app op w = Some (app\<lparr>ca_state := SESSION_DISCONNECTED\<rparr>,
      c_print (''Server closed the connection.'' @ newline) (?w1\<lparr>w_sys := s2\<rparr>))"
    using ser send r assms(2,3)
    by (simp add: HandleListAction_def ExchangeMessage_def ClientController_Receive_def sys_recv_def)
  then show ?thesis using assms(2,3) by (auto simp: HandleConnect_def ClientController_Start_def)
qed

definition closed_os :: "bool client_os" where
  "closed_os = ref_os\<lparr>os_recv := (\<lambda>_ _ s. ((0, []), s))\<rparr>"

theorem reconnect_keeps_dead_socket_witness:
  "\<exists>w1 w2. HandleListAction closed_os ref_app OPCODE_LIST_USERS (ref_world []) = Some (ref_app\<lparr>ca_state := SESSION_DISCONNECTED\<rparr>, w1)
    \<and> HandleConnect closed_os (ref_app\<lparr>ca_state := SESSION_DISCONNECTED\<rparr>) w1 = (ref_app\<lparr>ca_state := SESSION_CONNECTED\<rparr>, w2)"
proof -
  have ok: "client_os_ok closed_os"
    by (simp add: closed_os_def client_os_ok_def uninit_ok_def recv_ok_def ref_os_def)
  show ?thesis
    using reconnect_keeps_dead_socket [OF ok, where app = ref_app and w = "ref_world []" and op = OPCODE_LIST_USERS]
    by (simp add: ref_app_def closed_os_def ref_os_def) blast
qed

end
