(* ===== verification/Server_Properties.thy ===== *)
theory Server_Properties
  imports Reference_Server
begin

text \<open>
  What the runs of the server mean for its clients.  Every theorem is about the callbacks of
  \<open>ServerManager.c\<close> in a state of some run, over any library that keeps its contracts; the examples
  instantiate it with the reference server.
\<close>

section \<open>Requests\<close>

lemma run_recv_outcome:
  assumes "chat_server S" and "server_run S exact sm" and "env_ok E" and "n \<le> length bytes"
  shows "recv_outcome S E sm rec (decoded E bytes n) (ServerManagerCallbackRecv S E sm rec bytes n)"
  using chat_server.run_invariant [OF assms(1,2)] chat_server.recv_cases [OF assms(1) _ assms(3) _ assms(4)] by blast

lemma run_recv_keeps:
  assumes "chat_server S" and "server_run S exact sm" and "env_ok E" and "n \<le> length bytes"
    and "ServerManagerCallbackRecv S E sm rec bytes n = Some (sm', out)"
  obtains (same) status where "sm' = sm" and "out = sent E (m_fdConnection rec) status []"
    | (answered) req copied order status payload where "out = sent E (m_fdConnection rec) status payload"
      and "\<forall>x \<in> set (request_names req). wire_name x"
      and "service (env_mem E) copied order (sm_view S sm) (m_fdConnection rec) req = (sm_view S sm', status, payload)"
proof -
  note rc = run_recv_outcome [OF assms(1-4), of rec]
  from assms(3,4) show ?thesis
  proof (cases rule: decoded_ok)
    case (rejected out' st)
    with rc assms(5) show ?thesis by (intro same) (auto simp: recv_outcome_def)
  next
    case (accepted msg)
    show ?thesis
    proof (cases "known_opcode (m_opcode msg)")
      case False
      with rc assms(5) accepted(1) show ?thesis by (intro same) (auto simp: recv_outcome_def)
    next
      case True
      then obtain req where req: "request_of msg = Some req"
        using rc assms(5) accepted(1) by (cases "request_of msg") (simp_all add: recv_outcome_def)
      then have "answers S E sm (m_fdConnection rec) req (Some (sm', out))"
        using rc assms(5) accepted(1) True by (simp add: recv_outcome_def split: if_splits)
      then show ?thesis using answered request_names_wire [OF accepted(2) req] by (fastforce simp: answers_def)
    qed
  qed
qed

text \<open>
  C1. The server refines the chat service.  In every reachable state and for every received buffer,
  \<open>ServerManagerCallbackRecv\<close> rejects a malformed frame with \<open>CHAT_ERR_MALFORMED\<close> and an unknown opcode with
  \<open>CHAT_ERR_GENERIC\<close>, leaving the state alone; it answers every other request with the one frame and the
  state change that \<open>service\<close> prescribes.  The only executions without a defined result are the two
  named ones: a value without its terminators, and a failed login longer than the text it is answered with.
\<close>

theorem server_refines_service:
  assumes "chat_server S" and "server_run S exact sm" and "env_ok E" and "n \<le> length bytes"
  shows "case decoded E bytes n of
      None \<Rightarrow> ServerManagerCallbackRecv S E sm rec bytes n
        = Some (sm, sent E (m_fdConnection rec) CHAT_ERR_MALFORMED [])
    | Some msg \<Rightarrow>
        if \<not> known_opcode (m_opcode msg)
        then ServerManagerCallbackRecv S E sm rec bytes n
          = Some (sm, sent E (m_fdConnection rec) CHAT_ERR_GENERIC [])
        else (case request_of msg of
                None \<Rightarrow> ServerManagerCallbackRecv S E sm rec bytes n = None
              | Some req \<Rightarrow>
                  if reply_fits (env_mem E) (sm_view S sm) (m_fdConnection rec) req
                  then answers S E sm (m_fdConnection rec) req (ServerManagerCallbackRecv S E sm rec bytes n)
                  else ServerManagerCallbackRecv S E sm rec bytes n = None)"
  using run_recv_outcome [OF assms, of rec] by (simp add: recv_outcome_def)

theorem server_refines_service_witness:
  "\<exists>msg. decoded ref_env (request_frame (Req_Register ''ann'' ''pw'')) (length (request_frame (Req_Register ''ann'' ''pw''))) = Some msg
     \<and> answers ref_lib ref_env fresh_server 5 (Req_Register ''ann'' ''pw'')
         (ServerManagerCallbackRecv ref_lib ref_env fresh_server ref_record (request_frame (Req_Register ''ann'' ''pw''))
           (length (request_frame (Req_Register ''ann'' ''pw''))))"
proof -
  let ?req = "Req_Register ''ann'' ''pw''"
  have ok: "request_ok ?req" by (simp add: request_ok_def terminated_def NUL_def)
  obtain msg where msg: "decoded ref_env (request_frame ?req) (length (request_frame ?req)) = Some msg"
      "known_opcode (m_opcode msg)" "request_of msg = Some ?req"
    using decoded_request [OF ref_env_ok(1) ok] .
  show ?thesis
    using server_refines_service [OF ref_server.chat_server_axioms fresh_server_run ref_env_ok(1) order_refl,
        where rec = ref_record and bytes = "request_frame ?req"] msg
    by (simp add: reply_fits_def ref_record_def)
qed



text \<open>
  C33. A failed login reads past its result text.  The reply to a failed login takes its length from
  the request, so a login with a wrong password or an unknown name whose payload is longer than the name of the
  result code (30 bytes with its terminator for both) makes the server copy bytes beyond the string constant:
  the execution has no defined result.
\<close>

theorem failed_login_overread:
  assumes "chat_server S" and "server_run S exact sm" and "env_ok E"
    and "request_ok (Req_Login n pw (length (request_payload (Req_Login n pw k))))" and "k = length n + length pw + 2"
    and "30 < k" and "db_password (sv_users (sm_view S sm)) n \<noteq> Some pw" and "n \<notin> ran (db_session (sv_users (sm_view S sm)))"
  shows "ServerManagerCallbackRecv S E sm rec (request_frame (Req_Login n pw k)) (length (request_frame (Req_Login n pw k))) = None"
proof -
  have k: "length (request_payload (Req_Login n pw k)) = k" using assms(5) by (simp add: terminated_def)
  obtain msg where "decoded E (request_frame (Req_Login n pw k)) (length (request_frame (Req_Login n pw k))) = Some msg"
      "known_opcode (m_opcode msg)" "request_of msg = Some (Req_Login n pw k)"
    using decoded_request [OF assms(3,4)] unfolding k by blast
  moreover have "\<not> reply_fits (env_mem E) (sm_view S sm) (m_fdConnection rec) (Req_Login n pw k)"
    using assms(6-8) by (auto simp: reply_fits_def spec_login_def split: option.splits)
  ultimately show ?thesis
    using run_recv_outcome [OF assms(1-3) order_refl, where rec = rec and bytes = "request_frame (Req_Login n pw k)"]
    by (simp add: recv_outcome_def)
qed

theorem failed_login_overread_witness:
  "ServerManagerCallbackRecv ref_lib ref_env fresh_server ref_record
     (request_frame (Req_Login ''a'' ''a-long-but-legal-password-of-31-'' 35))
     (length (request_frame (Req_Login ''a'' ''a-long-but-legal-password-of-31-'' 35))) = None"
  by (rule failed_login_overread [OF ref_server.chat_server_axioms fresh_server_run ref_env_ok(1)])
    (simp_all add: request_ok_def terminated_def NUL_def empty_view_def db_empty_def)

section \<open>Invariants of every run\<close>



text \<open>
  C15. Whatever is allocated or not, every reachable state is consistent: each session belongs to a
  registered user and no user has two; only connected users are in groups, in each at most once, and
  every group a user is in is live; a live group has a name of at most 32 characters, a positive count that
  never falls below its members, and an endpoint in the configured multicast range.
\<close>

theorem run_consistent:
  assumes "chat_server S" and "server_run S exact sm"
  shows "view_ok exact (sm_view S sm) \<and> um_inv (sl_users S) (sm_userManager sm) \<and> gm_inv (sl_groups S) (sm_groupManager sm)
    \<and> (\<forall>a b n. db_session (sv_users (sm_view S sm)) a = Some n \<and> db_session (sv_users (sm_view S sm)) b = Some n
         \<longrightarrow> a = b \<and> db_password (sv_users (sm_view S sm)) n \<noteq> None)
    \<and> (\<forall>n g. g \<in> set (db_groups (sv_users (sm_view S sm)) n)
         \<longrightarrow> n \<in> ran (db_session (sv_users (sm_view S sm))) \<and> sv_groups (sm_view S sm) g \<noteq> None)"
proof -
  have inv: "view_ok exact (sm_view S sm)" "sm_rep S sm" using chat_server.run_invariant [OF assms] by simp_all
  note db = db_okD [OF view_okD(1) [OF inv(1)]]
  have "db_groups (sv_users (sm_view S sm)) n \<noteq> []" if "g \<in> set (db_groups (sv_users (sm_view S sm)) n)" for n g using that by auto
  then show ?thesis using inv db(1-3) view_okD(5) [OF inv(1)] by (auto simp: sm_rep_def)
qed

theorem run_consistent_witness: "\<exists>sm. server_run ref_lib True sm \<and> sm_view ref_lib sm = ann_view \<and> view_ok True ann_view"
proof -
  obtain sm where sm: "server_run ref_lib True sm" "sm_view ref_lib sm = ann_view" using ann_server .
  from run_consistent [OF ref_server.chat_server_axioms sm(1)] sm show ?thesis by auto
qed

section \<open>What a client can and cannot do\<close>



text \<open>
  C14. A connection without a session cannot touch the groups: whatever bytes it sends, no group is
  created, removed or recounted and nobody's membership changes.  In particular a group creation that
  fails because the creator is not logged in is rolled back.
\<close>

theorem anonymous_cannot_change_groups:
  assumes "chat_server S" and "server_run S exact sm" and "env_ok E" and "n \<le> length bytes"
    and "ServerManagerCallbackRecv S E sm rec bytes n = Some (sm', out)"
    and "db_session (sv_users (sm_view S sm)) (m_fdConnection rec) = None"
  shows "sv_groups (sm_view S sm') = sv_groups (sm_view S sm)
    \<and> db_groups (sv_users (sm_view S sm')) = db_groups (sv_users (sm_view S sm))"
  using assms(1-5)
proof (cases rule: run_recv_keeps)
  case (answered req copied order status payload)
  then show ?thesis using service_anonymous [OF answered(3) assms(6)] by simp
qed simp

theorem anonymous_cannot_change_groups_witness:
  "\<exists>sm' out. ServerManagerCallbackRecv ref_lib ref_env fresh_server ref_record
       (request_frame (Req_CreateGroup ''room'')) (length (request_frame (Req_CreateGroup ''room''))) = Some (sm', out)
     \<and> sv_groups (sm_view ref_lib sm') = Map.empty"
proof -
  have ok: "request_ok (Req_CreateGroup ''room'')" by (simp add: request_ok_def terminated_def NUL_def)
  have fits: "reply_fits mem_ok (sm_view ref_lib fresh_server) (m_fdConnection ref_record) (Req_CreateGroup ''room'')"
    by (simp add: reply_fits_def)
  obtain sm' status payload where r: "ServerManagerCallbackRecv ref_lib ref_env fresh_server ref_record
       (request_frame (Req_CreateGroup ''room'')) (length (request_frame (Req_CreateGroup ''room'')))
         = Some (sm', [(m_fdConnection ref_record, frame OPCODE_RESPONSE status payload)])"
    using ref_request [OF fresh_server_run ok fits] by metis
  have n: "db_session (sv_users (sm_view ref_lib fresh_server)) (m_fdConnection ref_record) = None"
    by (simp add: empty_view_def db_empty_def)
  from anonymous_cannot_change_groups [OF ref_server.chat_server_axioms fresh_server_run ref_env_ok(1) order_refl r n] r
  show ?thesis by (auto simp: empty_view_def)
qed

text \<open>
  C13. Isolation of clients: a message on one connection leaves the session and the group list of every
  user connected through another descriptor as they are, and never changes or removes a password.
\<close>

theorem clients_isolated:
  assumes "chat_server S" and "server_run S exact sm" and "env_ok E" and "n \<le> length bytes"
    and "ServerManagerCallbackRecv S E sm rec bytes n = Some (sm', out)"
    and "fd \<noteq> m_fdConnection rec" and "db_session (sv_users (sm_view S sm)) fd = Some u"
  shows "db_session (sv_users (sm_view S sm')) fd = Some u
    \<and> db_groups (sv_users (sm_view S sm')) u = db_groups (sv_users (sm_view S sm)) u
    \<and> db_password (sv_users (sm_view S sm)) \<subseteq>\<^sub>m db_password (sv_users (sm_view S sm'))"
  using assms(1-5)
proof (cases rule: run_recv_keeps)
  case (answered req copied order status payload)
  have "db_ok (sv_users (sm_view S sm))" using chat_server.run_invariant [OF assms(1,2)] view_okD(1) by blast
  note f = service_frame [OF this assms(6) answered(3)]
  have "db_password (sv_users (sm_view S sm)) \<subseteq>\<^sub>m db_password (sv_users (sm_view S sm'))"
    using service_keeps_passwords [OF answered(3)] by (auto simp: map_le_def)
  then show ?thesis using f assms(7) by simp
qed (use assms(7) in simp)

theorem clients_isolated_witness:
  "\<exists>sm sm' out. server_run ref_lib True sm
     \<and> ServerManagerCallbackRecv ref_lib ref_env sm (ref_record\<lparr>m_fdConnection := 6\<rparr>)
         (request_frame Req_Exit) (length (request_frame Req_Exit)) = Some (sm', out)
     \<and> db_session (sv_users (sm_view ref_lib sm')) 5 = Some ''ann''
     \<and> db_groups (sv_users (sm_view ref_lib sm')) ''ann'' = [''room'']"
proof -
  let ?rec = "ref_record\<lparr>m_fdConnection := 6\<rparr>"
  obtain sm where sm: "server_run ref_lib True sm" "sm_view ref_lib sm = ann_view" using ann_server .
  have ok: "request_ok Req_Exit" by (simp add: request_ok_def)
  have fits: "reply_fits mem_ok (sm_view ref_lib sm) (m_fdConnection ?rec) Req_Exit" by (simp add: reply_fits_def)
  obtain sm' status payload where r: "ServerManagerCallbackRecv ref_lib ref_env sm ?rec
       (request_frame Req_Exit) (length (request_frame Req_Exit))
         = Some (sm', [(m_fdConnection ?rec, frame OPCODE_RESPONSE status payload)])"
    using ref_request [OF sm(1) ok fits] by metis
  have s: "db_session (sv_users (sm_view ref_lib sm)) 5 = Some ''ann''" and d: "5 \<noteq> m_fdConnection ?rec"
    by (simp_all add: sm(2) ann_view_def)
  from clients_isolated [OF ref_server.chat_server_axioms sm(1) ref_env_ok(1) order_refl r d s] sm r
  show ?thesis by (auto simp: ann_view_def)
qed

text \<open>
  C12. A disconnection always completes and cleans up: the callback returns, the connection's session is
  gone and its user is in no group, each of the user's groups has lost one reference and is removed when
  that was the last, and all other groups and sessions are as before.
\<close>

theorem disconnect_cleans_up:
  assumes "chat_server S" and "server_run S exact sm"
    and "db_session (sv_users (sm_view S sm)) (m_fdConnection rec) = Some u"
  shows "\<exists>sm'. ServerManagerCallbackDisconnect S E sm rec = Some sm' \<and> server_run S exact sm'
    \<and> db_session (sv_users (sm_view S sm')) = (db_session (sv_users (sm_view S sm)))(m_fdConnection rec := None)
    \<and> db_groups (sv_users (sm_view S sm')) = (db_groups (sv_users (sm_view S sm)))(u := [])
    \<and> (\<forall>g. sv_groups (sm_view S sm') g =
          (if g \<in> set (db_groups (sv_users (sm_view S sm)) u)
           then Option.bind (sv_groups (sm_view S sm) g) drop_ref else sv_groups (sm_view S sm) g))"
proof -
  have inv: "sm_rep S sm" "view_ok exact (sm_view S sm)" using chat_server.run_invariant [OF assms(1,2)] by auto
  obtain sm' where c: "ServerManager_CleanupSession S E sm rec = Some sm'"
      "sm_view S sm' = end_session (sm_view S sm) (m_fdConnection rec)"
    using chat_server.cleanup_session [OF assms(1) inv(1)] by blast
  have "distinct (db_groups (sv_users (sm_view S sm)) u)" using db_okD(4) [OF view_okD(1) [OF inv(2)]] .
  moreover have "server_run S exact sm'"
    using run_disconnect [OF assms(2)] c(1) by (auto simp: ServerManagerCallbackDisconnect_def)
  ultimately show ?thesis using c assms(3)
    by (simp add: ServerManagerCallbackDisconnect_def end_session_def spec_logout_def spec_leave_all_eq)
qed

theorem disconnect_cleans_up_witness:
  "\<exists>sm sm'. server_run ref_lib True sm \<and> sv_groups (sm_view ref_lib sm) ''room'' \<noteq> None
     \<and> ServerManagerCallbackDisconnect ref_lib ref_env sm ref_record = Some sm'
     \<and> sv_groups (sm_view ref_lib sm') ''room'' = None"
proof -
  obtain sm where sm: "server_run ref_lib True sm" "sm_view ref_lib sm = ann_view" using ann_server .
  have s: "db_session (sv_users (sm_view ref_lib sm)) (m_fdConnection ref_record) = Some ''ann''"
    by (simp add: sm(2) ann_view_def ref_record_def)
  from disconnect_cleans_up [OF ref_server.chat_server_axioms sm(1) s, of ref_env] sm show ?thesis
    by (auto simp: ann_view_def drop_ref_def)
qed

end
