(* ===== verification/Chat_System.thy ===== *)
theory Chat_System
  imports Client_Properties Server_Properties
begin

text \<open>
  Client and server together.  \<open>link\<close> is an operating system for the client whose network is the server:
  \<open>send\<close> hands the bytes to \<open>ServerManagerCallbackRecv\<close> and \<open>recv\<close> delivers the frame it answered with.
  The theorems follow a request from the keyboard of the client through both programs and back.
\<close>

section \<open>The link\<close>

type_synonym ('n, 'f, 'l, 'g, 'r) linked = "(('n, 'f, 'l, 'g) ServerManager \<times> string) \<times> 'r"

text \<open>The other calls are those of the given operating system.\<close>

definition on_rest :: "('r \<Rightarrow> 'a \<times> 'r) \<Rightarrow> 'x \<times> 'r \<Rightarrow> 'a \<times> 'x \<times> 'r" where
  "on_rest f s = (case f (snd s) of (a, r) \<Rightarrow> (a, fst s, r))"

definition link ::
  "('n, 'f, 'l, 'i, 'g) server_lib \<Rightarrow> server_env \<Rightarrow> TcpConnectionRecord \<Rightarrow> 'r client_os \<Rightarrow> ('n, 'f, 'l, 'g, 'r) linked client_os" where
  "link S E rec base =
     \<lparr>os_alloc = (\<lambda>b. on_rest (os_alloc base b)), os_uninit = (\<lambda>n s. os_uninit base n (snd s)),
      os_socket = on_rest (os_socket base), os_connect = (\<lambda>fd a p. on_rest (os_connect base fd a p)),
      os_close = (\<lambda>fd s. (fst s, os_close base fd (snd s))),
      os_send = (\<lambda>fd bytes s.
         case ServerManagerCallbackRecv S E (fst (fst s)) rec bytes (length bytes) of
           None \<Rightarrow> (- 1, s)
         | Some (sm', out) \<Rightarrow> (int (length bytes), (sm', concat (map snd out)), snd s)),
      os_recv = (\<lambda>fd len s.
         ((int (min len (length (snd (fst s)))), snd (fst s)), (fst (fst s), []), snd s)),
      os_system = (\<lambda>c. on_rest (os_system base c)), os_mq_open = on_rest (os_mq_open base),
      os_mq_timedreceive = (\<lambda>q. on_rest (os_mq_timedreceive base q)),
      os_mq_close = (\<lambda>q s. (fst s, os_mq_close base q (snd s))),
      os_mq_unlink = (\<lambda>s. (fst s, os_mq_unlink base (snd s))), os_kill = (\<lambda>p. on_rest (os_kill base p))\<rparr>"

lemma fst_on_rest [simp]: "fst (on_rest f s) = fst (f (snd s))"
  by (simp add: on_rest_def split: prod.split)

lemma link_ok: "client_os_ok base \<Longrightarrow> client_os_ok (link S E rec base)"
  by (simp add: client_os_ok_def uninit_ok_def recv_ok_def link_def)

text \<open>A request of the client is answered by the server, and the answer is decoded.\<close>

lemma link_exchange:
  assumes srv: "chat_server S" "server_run S exact sm" "env_ok E" "env_mem E = mem_ok"
    and base: "client_os_ok base" and c: "ca_controller app = Some c" "cc_state c = CLIENT_STATE_RUNNING"
    and m: "msg_ok m" "unat (m_length m) \<le> CHAT_MAX_VALUE" "msg_frame m = request_frame req"
    and req: "request_ok req" "reply_fits mem_ok (sm_view S sm) (m_fdConnection rec) req"
    and out: "msg_ok out" and w: "w_sys w = ((sm, pend), r)"
  obtains sm' order status payload w' where "server_run S exact sm'"
    and "service mem_ok True order (sm_view S sm) (m_fdConnection rec) req = (sm_view S sm', status, payload)"
    and "w_sys w' = ((sm', []), r)" and "w_stdin w' = w_stdin w" and "w_live w' = w_live w"
    and "w_trace w' = w_trace w @ [Ev_Send (cc_fd c) (request_frame req)]"
    and "status < 128 \<and> length payload < 128 \<longrightarrow> ExchangeMessage (link S E rec base) app m out w
      = Some (True, \<lparr>m_opcode = OPCODE_RESPONSE, m_length = of_nat (length payload), m_status = status,
                     m_value = payload @ drop (length payload) (m_value out)\<rparr>, False, w')"
proof -
  let ?os = "link S E rec base"
  have os: "client_os_ok ?os" using base by (rule link_ok)
  obtain msg where msg: "decoded E (request_frame req) (length (request_frame req)) = Some msg"
      "known_opcode (m_opcode msg)" "request_of msg = Some req"
    using decoded_request [OF srv(3) req(1)] .
  have "answers S E sm (m_fdConnection rec) req
      (ServerManagerCallbackRecv S E sm rec (request_frame req) (length (request_frame req)))"
    using run_recv_outcome [OF srv(1-3) order_refl, where rec = rec and bytes = "request_frame req"] msg req(2) srv(4)
    by (simp add: recv_outcome_def)
  then obtain sm' order status payload where a:
      "ServerManagerCallbackRecv S E sm rec (request_frame req) (length (request_frame req))
        = Some (sm', [(m_fdConnection rec, frame OPCODE_RESPONSE status payload)])"
      "service mem_ok True order (sm_view S sm) (m_fdConnection rec) req = (sm_view S sm', status, payload)"
    by (auto simp: answers_def sent_def srv(4))
  have run: "server_run S exact sm'" using run_recv [OF srv(2,3) _ order_refl a(1)] srv(4) by simp
  obtain rest where ser: "SerializeChatMessage (Some m) (Some (os_uninit ?os CHAT_MAX_TOTAL (w_sys w))) CHAT_MAX_TOTAL
      = Some (int (length (msg_frame m)), Some (msg_frame m @ rest))"
    using serialize_request [OF os m(1,2)] .
  let ?fr = "frame OPCODE_RESPONSE status payload"
  let ?w1 = "emit (Ev_Send (cc_fd c) (request_frame req)) (w\<lparr>w_sys := ((sm', ?fr), r)\<rparr>)"
  have send: "ClientController_Send ?os (Some c) (Some (msg_frame m @ rest)) (length (msg_frame m)) w = Some (CLIENT_RESULT_SUCCESS, ?w1)"
    using c(2) a(1) m(3) w msg_frame_nonempty(2) [of m]
    by (simp add: ClientController_Send_def mem_read_def sys_send_def link_def)
  let ?b = "os_uninit ?os CONF_RECV_BUF_SIZE (w_sys ?w1)"
  have lb: "length ?b = CONF_RECV_BUF_SIZE" using client_os_okD(5) [OF os] .
  let ?w2 = "?w1\<lparr>w_sys := ((sm', []), r)\<rparr>"
  show ?thesis
  proof (rule that [OF run a(2), of ?w2], simp_all, intro impI, elim conjE)
    assume st: "status < 128" and lp: "length payload < 128"
    have wr: "mem_write ?b 0 ?fr = Some (?fr @ drop (length ?fr) ?b)"
      using lb lp by (intro mem_write_start) (simp add: config_defs size_defs)
    have recv: "ClientController_Receive ?os (Some c) (Some ?b) CONF_RECV_BUF_SIZE ?w1
        = Some (CLIENT_RESULT_SUCCESS, Some (?fr @ drop (length ?fr) ?b), ?w2)"
    proof -
      have "os_recv ?os (cc_fd c) CONF_RECV_BUF_SIZE (w_sys ?w1) = ((int (length ?fr), ?fr), ((sm', []), r))"
        using lp by (simp add: link_def config_defs size_defs)
      then show ?thesis using c(2) wr lp by (simp add: ClientController_Receive_def sys_recv_def config_defs size_defs)
    qed
    have des: "DeserializeChatMessage (Some (?fr @ drop (length ?fr) ?b)) CONF_RECV_BUF_SIZE (Some out)
        = Some (CHAT_OK, Some \<lparr>m_opcode = OPCODE_RESPONSE, m_length = of_nat (length payload), m_status = status,
                     m_value = payload @ drop (length payload) (m_value out)\<rparr>)"
      using DeserializeChatMessage_frame [of payload OPCODE_RESPONSE status CONF_RECV_BUF_SIZE "drop (length ?fr) ?b" out] lb lp st out
      by (simp add: config_defs size_defs opcode_defs)
    show "ExchangeMessage ?os app m out w = Some (True, \<lparr>m_opcode = OPCODE_RESPONSE, m_length = of_nat (length payload),
        m_status = status, m_value = payload @ drop (length payload) (m_value out)\<rparr>, False, ?w2)"
      using ser send recv des c(1) by (simp add: ExchangeMessage_def)
  qed
qed

section \<open>Endpoints\<close>

lemma addr_text_no_colon: "CHR '':'' \<notin> set (ip_text a)"
  using decimal_digits by (fastforce simp: ip_text_def Let_def is_digit_def)

lemma c_atoi_decimal:
  assumes "n \<le> 65535" shows "c_atoi (decimal n @ NUL # rest) = Some (int n)"
proof -
  obtain c cs where d: "decimal n = c # cs" by (cases "decimal n") auto
  have c: "is_digit c" using decimal_digits [of n] by (simp add: d)
  then have "\<not> isspace c" "c \<noteq> CHR ''-''" "c \<noteq> CHR ''+''" using space_not_digit by (auto simp: is_digit_def)
  then have s: "dropWhile isspace (decimal n @ NUL # rest) = decimal n @ NUL # rest"
      "hd (decimal n @ NUL # rest) \<noteq> CHR ''-''" "hd (decimal n @ NUL # rest) \<noteq> CHR ''+''" by (simp_all add: d)
  have "\<not> is_digit NUL" by (simp add: is_digit_def NUL_def)
  then have t: "takeWhile is_digit (decimal n @ NUL # rest) = decimal n"
    using decimal_digits [of n] by (subst takeWhile_append2) auto
  have "(int n + 2 ^ 31) mod 2 ^ 32 - 2 ^ 31 = int n" using assms by simp
  moreover have "min (2 ^ 63 - 1) (int n) = int n" using assms by simp
  ultimately show ?thesis using s t by (simp add: c_atoi_def Let_def digits_value_decimal)
qed

lemma parse_endpoint_text:
  assumes "m_port ep \<noteq> 0" and "length ip = CONF_MULTICAST_ENDPOINT_STR_MAX"
  shows "\<exists>ip'. ParseEndpoint (terminated (endpoint_text ep) @ rest) ip CONF_MULTICAST_ENDPOINT_STR_MAX p = Some (True, ip', m_port ep)
    \<and> c_string_at ip' 0 = Some (ip_text (m_multicastAddr ep))
    \<and> network_convert_ip_p_to_n (c_string_at ip' 0) = m_multicastAddr ep"
proof -
  let ?a = "ip_text (m_multicastAddr ep)" and ?n = "unat (m_port ep)"
  let ?v = "?a @ CHR '':'' # decimal ?n @ NUL # rest"
  have v: "terminated (endpoint_text ep) @ rest = ?v" by (simp add: terminated_def endpoint_text_def)
  have a: "length ?a \<le> 15" "NUL \<notin> set ?a" using addr_text_bounds by auto
  have ne: "?a \<noteq> []" by (simp add: ip_text_def Let_def)
  have chr: "c_strchr ?v CHR '':'' = Some (Some (length ?a))"
    using c_strchr_first [OF a(2) addr_text_no_colon, of "CHR '':''"] by (simp add: NUL_def)
  have n: "?n \<le> 65535" "0 < ?n" using unsigned_less [of "m_port ep", where ?'a = nat] assms(1) by (auto simp: unat_gt_0)
  then have u: "int ?n \<le> 65535" "\<not> int ?n \<le> 0" by linarith+
  have w1: "mem_write ip 0 ?a = Some (?a @ drop (length ?a) ip)" using a assms(2) by (intro mem_write_start) (simp add: config_defs)
  have w2: "mem_write (?a @ drop (length ?a) ip) (length ?a) [NUL] = Some (?a @ [NUL] @ drop 1 (drop (length ?a) ip))"
    using a(1) assms(2) by (subst mem_write_append) (auto simp: config_defs)
  have cs: "c_string_at (?a @ [NUL] @ drop 1 (drop (length ?a) ip)) 0 = Some ?a"
    using c_string_first [OF a(2)] by simp
  have "ParseEndpoint ?v ip CONF_MULTICAST_ENDPOINT_STR_MAX p = Some (True, ?a @ [NUL] @ drop 1 (drop (length ?a) ip), m_port ep)"
    using chr ne a(1) w1 w2 c_atoi_decimal [OF n(1), of rest] u by (simp add: ParseEndpoint_def config_defs)
  then show ?thesis using cs unfolding v
    by (intro exI [of _ "?a @ [NUL] @ drop 1 (drop (length ?a) ip)"])
      (simp add: network_convert_ip_p_to_n_def inet_pton4_ntop addr_of_addr_bytes)
qed

text \<open>
  C30. The endpoint survives the wire.  The text the server sends for a group's endpoint is parsed by the client
  back to that endpoint: \<open>ParseEndpoint\<close> accepts it, its address buffer holds the dotted quad of the server's
  address, which denotes that address, and its port is the server's port, for every address and every
  port other than 0.
\<close>

theorem endpoint_roundtrip:
  assumes "m_port ep \<noteq> 0" and "length ip = CONF_MULTICAST_ENDPOINT_STR_MAX"
  shows "\<exists>ip'. ParseEndpoint (terminated (endpoint_text ep) @ rest) ip CONF_MULTICAST_ENDPOINT_STR_MAX p = Some (True, ip', m_port ep)
    \<and> c_string_at ip' 0 = Some (ip_text (m_multicastAddr ep))
    \<and> network_convert_ip_p_to_n (c_string_at ip' 0) = m_multicastAddr ep"
  using parse_endpoint_text [OF assms] .

theorem endpoint_roundtrip_witness:
  "\<exists>ip'. ParseEndpoint (terminated (endpoint_text \<lparr>m_multicastAddr = 0x010000EF, m_port = 5000\<rparr>) @ []) (replicate 22 NUL)
       CONF_MULTICAST_ENDPOINT_STR_MAX 0 = Some (True, ip', 5000)"
  using endpoint_roundtrip [of "\<lparr>m_multicastAddr = 0x010000EF, m_port = 5000\<rparr>" "replicate 22 NUL" "[]" 0]
  by (simp add: config_defs) blast

section \<open>End to end\<close>

lemma frame_request: "msg_frame m = frame (request_opcode req) CHAT_OK (request_payload req) \<Longrightarrow> msg_frame m = request_frame req"
  by (simp add: request_frame_def CHAT_OK_def)

text \<open>What an accepted response does to the world: messages to the user only.\<close>

lemma printed:
  assumes "PrintResponse resp w = Some w'"
  shows "w_sys w' = w_sys w" "w_stdin w' = w_stdin w" "w_live w' = w_live w" "\<exists>evs. w_trace w' = w_trace w @ evs \<and> prints evs"
  using assms by (auto simp: PrintResponse_def Let_def split: if_splits Option.bind_splits)

lemma response_printable:
  assumes "msg_ok out" and "length payload < 128"
  obtains w' where "PrintResponse \<lparr>m_opcode = OPCODE_RESPONSE, m_length = of_nat (length payload), m_status = st,
      m_value = payload @ drop (length payload) (m_value out)\<rparr> w = Some w'"
proof -
  have u: "unat (of_nat (length payload) :: 16 word) = length payload" using assms(2) by (intro unat_word16) simp
  have "length (payload @ drop (length payload) (m_value out)) = CHAT_MAX_VALUE"
    using assms by (simp add: msg_ok_def size_defs)
  then show ?thesis
    using print_response [of "\<lparr>m_opcode = OPCODE_RESPONSE, m_length = of_nat (length payload), m_status = st,
      m_value = payload @ drop (length payload) (m_value out)\<rparr>" w] that u assms(2)
    by (auto simp: msg_ok_def size_defs)
qed

text \<open>
  C6. Registering works end to end.  The user of a connected client types a free name and a password whose
  lengths add up to less than 126; the client's bytes reach the server, the server's answer comes back, and
  afterwards the client is logged in under that name, the server has a session of that name on this very
  connection and knows that password, and the server's state is again one of its runs.
\<close>

theorem register_end_to_end:
  assumes "chat_server S" and "server_run S exact sm" and "env_ok E" and "env_mem E = mem_ok"
    and "client_os_ok base" and "ca_controller app = Some c" and "cc_state c = CLIENT_STATE_RUNNING"
    and "typed 64 n" and "typed 64 pw" and "length n + length pw < 126"
    and "w_stdin w = n @ newline @ pw @ newline @ rest" and "w_sys w = ((sm, pend), r)"
    and "db_password (sv_users (sm_view S sm)) n = None" and "db_session (sv_users (sm_view S sm)) (m_fdConnection rec) = None"
  shows "\<exists>app' w' sm' r'. HandleCredentialedAction (link S E rec base) app OPCODE_REGISTER SESSION_LOGGED_IN w = Some (app', w')
    \<and> ca_state app' = SESSION_LOGGED_IN \<and> ca_username app' = Some n \<and> w_sys w' = ((sm', []), r') \<and> server_run S exact sm'
    \<and> db_session (sv_users (sm_view S sm')) (m_fdConnection rec) = Some n
    \<and> db_password (sv_users (sm_view S sm')) n = Some pw"
proof -
  let ?os = "link S E rec base"
  have os: "client_os_ok ?os" using assms(5) by (rule link_ok)
  obtain nb pb w2 m where t: "ReadCredentials (os_uninit ?os 64 (w_sys w)) 64 (os_uninit ?os 64 (w_sys w)) 64 w = Some (True, nb, pb, w2)"
      "c_string_at nb 0 = Some n" "c_string_at pb 0 = Some pw" and fit: "length n + length pw + 2 \<le> CHAT_MAX_VALUE"
      and m: "PackCredentials (zero_message\<lparr>m_opcode := OPCODE_REGISTER, m_status := CHAT_OK\<rparr>) nb pb = Some m" "msg_ok m"
      "unat (m_length m) \<le> CHAT_MAX_VALUE" "msg_frame m = frame OPCODE_REGISTER CHAT_OK (n @ [NUL] @ pw @ [NUL])"
      and w2: "w_sys w2 = w_sys w"
    by (rule typed_request [OF os assms(8,9,11), where op = OPCODE_REGISTER])
  let ?req = "Req_Register n pw"
  have fr: "msg_frame m = request_frame ?req" using m(4) by (intro frame_request) (simp add: terminated_def)
  have req: "request_ok ?req" using assms(8-10) by (simp add: request_ok_def terminated_def typed_def)
  have fits: "reply_fits mem_ok (sm_view S sm) (m_fdConnection rec) ?req" by (simp add: reply_fits_def)
  obtain sm' order status payload w3 where x: "server_run S exact sm'"
      "service mem_ok True order (sm_view S sm) (m_fdConnection rec) ?req = (sm_view S sm', status, payload)"
      "w_sys w3 = ((sm', []), r)"
      "status < 128 \<and> length payload < 128 \<longrightarrow> ExchangeMessage ?os app m (uninit_message ?os w2) w2
        = Some (True, \<lparr>m_opcode = OPCODE_RESPONSE, m_length = of_nat (length payload), m_status = status,
                     m_value = payload @ drop (length payload) (m_value (uninit_message ?os w2))\<rparr>, False, w3)"
    by (rule link_exchange [OF assms(1-7) m(2,3) fr req fits uninit_message_ok [OF os, of w2] w2 [unfolded assms(12)]]) blast
  have sv: "sm_view S sm' = (sm_view S sm)\<lparr>sv_users := snd (spec_register mem_ok (sv_users (sm_view S sm)) (m_fdConnection rec) n pw)\<rparr>"
      "status = CHAT_OK" "payload = []"
    using x(2) assms(13,14) by (auto simp: spec_register_def split: if_splits)
  note ex = x(4) [unfolded sv(2,3), simplified CHAT_OK_def, simplified]
  have users: "db_session (sv_users (sm_view S sm')) (m_fdConnection rec) = Some n" "db_password (sv_users (sm_view S sm')) n = Some pw"
    using sv(1) assms(13,14) by (simp_all add: spec_register_def)
  let ?w4 = "c_print (''OK'' @ newline) w3"
  obtain a w5 where a5: "sys_alloc ?os (Block_Username n) ?w4 = (a, w5)" by (cases "sys_alloc ?os (Block_Username n) ?w4")
  obtain b w6 where a6: "sys_alloc ?os (Block_Password pw) w5 = (b, w6)" by (cases "sys_alloc ?os (Block_Password pw) w5")
  have a: a using a5 client_os_okD(4) [OF os, of n "w_sys ?w4"] by (auto simp: sys_alloc_def sys_outcome_def split: prod.splits)
  have link: "fst (w_sys v') = fst (w_sys v)" if "sys_alloc ?os bl v = (k, v')" for bl v k v'
    using that by (auto simp: sys_alloc_def sys_outcome_def link_def on_rest_def split: prod.splits if_splits)
  have w6: "w_sys w6 = ((sm', []), snd (w_sys w6))" using link [OF a5] link [OF a6] x(3) by (metis c_print_frame(3) fst_conv prod.collapse)
  have "HandleCredentialedAction ?os app OPCODE_REGISTER SESSION_LOGGED_IN w
      = Some (app\<lparr>ca_username := Some n, ca_password := (if b then Some pw else None), ca_state := SESSION_LOGGED_IN\<rparr>, w6)"
    using t fit m(1) ex a a5 a6 by (simp add: HandleCredentialedAction_def PrintResponse_def CHAT_OK_def)
  then show ?thesis using users x(1) w6 by force
qed

theorem register_end_to_end_witness:
  "\<exists>app' w' sm' r'. HandleCredentialedAction (link ref_lib ref_env ref_record ref_os) ref_app OPCODE_REGISTER SESSION_LOGGED_IN
        \<lparr>w_sys = ((fresh_server, []), False), w_stdin = ''ann'' @ newline @ ''pw'' @ newline, w_trace = [], w_live = []\<rparr> = Some (app', w')
     \<and> ca_state app' = SESSION_LOGGED_IN \<and> w_sys w' = ((sm', []), r')
     \<and> db_session (sv_users (sm_view ref_lib sm')) 5 = Some ''ann''"
proof -
  have t: "typed 64 ''ann''" "typed 64 ''pw''" by (simp_all add: typed_def NUL_def)
  show ?thesis
    using register_end_to_end [OF ref_server.chat_server_axioms fresh_server_run [of True] ref_env_ok ref_os_ok _ _ t, where app = ref_app and rec = ref_record
        and rest = "[]" and pend = "[]" and r = False
        and w = "\<lparr>w_sys = ((fresh_server, []), False), w_stdin = ''ann'' @ newline @ ''pw'' @ newline, w_trace = [], w_live = []\<rparr>"]
    by (simp add: ref_app_def empty_view_def db_empty_def ref_record_def) blast
qed

text \<open>Reading a typed group name.\<close>

lemma typed_group:
  assumes "client_os_ok os" and "typed 128 g" and "w_stdin w = g @ newline @ rest"
  obtains nb w1 v where "ReadGroupName (os_uninit os 128 (w_sys w)) 128 w = Some (True, nb, w1)" and "c_string_at nb 0 = Some g"
    and "w_sys w1 = w_sys w" and "w_live w1 = w_live w" and "w_trace w1 = w_trace w @ [Ev_Print ''  group name: '']"
    and "mem_write (m_value zero_message) 0 (g @ [NUL]) = Some v" and "length v = CHAT_MAX_VALUE"
    and "take (length g + 1) v = g @ [NUL]" and "length g + 1 \<le> CHAT_MAX_VALUE"
proof -
  let ?b = "os_uninit os 128 (w_sys w)"
  obtain nb where nb: "Menu_ReadLine (Some ''  group name: '') (Some ?b) 128 w
        = Some (True, Some nb, (c_print ''  group name: '' w)\<lparr>w_stdin := rest\<rparr>)" "c_string_at nb 0 = Some g"
    by (rule read_typed [OF assms(2) _ assms(3), where buf = ?b and p = "''  group name: ''"]) (simp add: client_os_okD(5) [OF assms(1)])
  have g: "g \<noteq> []" "length g + 1 \<le> CHAT_MAX_VALUE" using assms(2) by (auto simp: typed_def size_defs)
  have lz: "length (m_value zero_message) = CHAT_MAX_VALUE" by (simp add: zero_message_def)
  have w: "mem_write (m_value zero_message) 0 (g @ [NUL]) = Some ((g @ [NUL]) @ drop (length (g @ [NUL])) (m_value zero_message))"
    using g(2) lz by (intro mem_write_start) simp
  show ?thesis
    by (rule that [of nb "(c_print ''  group name: '' w)\<lparr>w_stdin := rest\<rparr>", OF _ nb(2) _ _ _ w _ _ g(2)])
      (use nb g first_char [OF nb(2)] length_mem_write [OF w] lz in \<open>simp_all add: ReadGroupName_def\<close>)
qed

text \<open>
  A request about a group, whichever it is: the typed name reaches the server, the answer comes back and
  is shown, and the client goes on with it.
\<close>

lemma linked_group_request:
  assumes srv: "chat_server S" "server_run S exact sm" "env_ok E" "env_mem E = mem_ok"
    and base: "client_os_ok base" and c: "ca_controller app = Some c" "cc_state c = CLIENT_STATE_RUNNING"
    and g: "typed 128 g" "w_stdin w = g @ newline @ rest" and w: "w_sys w = ((sm, pend), r)"
    and req: "req \<in> {Req_CreateGroup g, Req_JoinGroup g, Req_LeaveGroup g}"
  obtains sm' order status payload resp w3 evs where "server_run S exact sm'"
    and "service mem_ok True order (sm_view S sm) (m_fdConnection rec) req = (sm_view S sm', status, payload)"
    and "w_sys w3 = ((sm', []), r)" and "w_live w3 = w_live w" and "prints evs"
    and "status < 128 \<and> length payload < 128 \<longrightarrow>
      (\<exists>tail. m_value resp = payload @ tail)
      \<and> w_trace w3 = w_trace w @ [Ev_Print ''  group name: '', Ev_Send (cc_fd c) (request_frame req)] @ evs
      \<and> HandleGroupAction M (link S E rec base) app (request_opcode req) w
        = (if status \<noteq> CHAT_OK then Some (app, w3) else group_action_done M (link S E rec base) app (request_opcode req) g resp w3)"
proof -
  let ?os = "link S E rec base"
  have os: "client_os_ok ?os" using base by (rule link_ok)
  obtain nb w1 v where t: "ReadGroupName (os_uninit ?os 128 (w_sys w)) 128 w = Some (True, nb, w1)" "c_string_at nb 0 = Some g"
      "w_sys w1 = w_sys w" "w_live w1 = w_live w" "w_trace w1 = w_trace w @ [Ev_Print ''  group name: '']"
      "mem_write (m_value zero_message) 0 (g @ [NUL]) = Some v" "length v = CHAT_MAX_VALUE"
      "take (length g + 1) v = g @ [NUL]" "length g + 1 \<le> CHAT_MAX_VALUE"
    by (rule typed_group [OF os g])
  define m where "m = zero_message\<lparr>m_opcode := request_opcode req, m_status := CHAT_OK, m_value := v, m_length := of_nat (length g + 1)\<rparr>"
  have m: "msg_ok m" "unat (m_length m) \<le> CHAT_MAX_VALUE" "msg_frame m = request_frame req"
    using t(7-9) unat_small [OF t(9)] req
    by (auto simp: m_def msg_ok_def msg_frame_def request_frame_def CHAT_OK_def terminated_def simp del: of_nat_add of_nat_Suc)
  have "request_ok req" "reply_fits mem_ok (sm_view S sm) (m_fdConnection rec) req"
    using g(1) req by (auto simp: request_ok_def terminated_def typed_def reply_fits_def)
  note req = this
  let ?out = "uninit_message ?os w1"
  obtain sm' order status payload w2 where x: "server_run S exact sm'"
      "service mem_ok True order (sm_view S sm) (m_fdConnection rec) req = (sm_view S sm', status, payload)"
      "w_sys w2 = ((sm', []), r)" "w_live w2 = w_live w1" "w_trace w2 = w_trace w1 @ [Ev_Send (cc_fd c) (request_frame req)]"
      "status < 128 \<and> length payload < 128 \<longrightarrow> ExchangeMessage ?os app m ?out w1
        = Some (True, \<lparr>m_opcode = OPCODE_RESPONSE, m_length = of_nat (length payload), m_status = status,
                     m_value = payload @ drop (length payload) (m_value ?out)\<rparr>, False, w2)"
    by (rule link_exchange [OF srv base c m req uninit_message_ok [OF os, of w1] t(3) [unfolded w]]) blast
  let ?resp = "\<lparr>m_opcode = OPCODE_RESPONSE, m_length = of_nat (length payload), m_status = status,
                     m_value = payload @ drop (length payload) (m_value ?out)\<rparr>"
  show ?thesis
  proof (cases "status < 128 \<and> length payload < 128")
    case True
    then have ex: "ExchangeMessage ?os app m ?out w1 = Some (True, ?resp, False, w2)" using x(6) by blast
    obtain w3 where pr: "PrintResponse ?resp w2 = Some w3" using response_printable [OF uninit_message_ok [OF os] conjunct2 [OF True]] .
    obtain evs where evs: "w_trace w3 = w_trace w2 @ evs" "prints evs" using printed(4) [OF pr] by blast
    show ?thesis
      by (rule that [OF x(1,2), of w3 evs ?resp])
        (use t ex [unfolded m_def] pr evs x printed [OF pr] in \<open>simp_all add: HandleGroupAction_def\<close>)
  next
    case False
    show ?thesis by (rule that [OF x(1,2), of w2 "[]" ?resp]) (use x(3,4) t(4) False in \<open>auto simp: prints_def\<close>)
  qed
qed

lemma spawned_receiver:
  assumes "group_windows M" and "windows_inv M gw w" and "client_os_ok os" and "NUL \<notin> set ip" and "length ip < 22"
    and "NUL \<notin> set user" and "length user < 64"
  obtains res gw' w' where "GroupWindows_Open M os (Some gw) (Some g) (Some ip) port (Some user) w = Some (res, Some gw', w')"
    and "Ev_System (receiver_command ip port) \<in> set (w_trace w')"
    and "res = GROUP_WINDOWS_SUCCESS \<longrightarrow> (\<exists>pids. windows_view M gw' g = Some pids) \<and> Ev_System (sender_command ip port user) \<in> set (w_trace w')"
    and "res \<noteq> GROUP_WINDOWS_SUCCESS \<longrightarrow> windows_view M gw' g = None"
proof -
  have fit: "take 255 (receiver_command ip port) = receiver_command ip port" "take 255 (sender_command ip port user) = sender_command ip port user"
    using commands_fit [OF assms(5,7), of port] by simp_all
  obtain r gw' w' where o: "GroupWindows_Open M os (Some gw) (Some g) (Some ip) port (Some user) w = Some (r, Some gw', w')"
      "group_windows.opened M gw w g [receiver_command ip port, sender_command ip port user] r gw' w'"
    by (rule group_windows.open_total [OF assms(1,2) client_os_okD(1) [OF assms(3)] commands_no_NUL [OF assms(4,6)], where port = port and g = g, unfolded fit])
  then show ?thesis by (intro that [OF o(1)]) (auto simp: group_windows.opened_def [OF assms(1)])
qed

text \<open>The window manager does not touch the server.\<close>

lemma link_calls:
  "sys_outcome (link S E rec base) b w = (ok, w') \<Longrightarrow> fst (w_sys w') = fst (w_sys w)"
  "sys_alloc (link S E rec base) b w = (ok, w') \<Longrightarrow> fst (w_sys w') = fst (w_sys w)"
  "sys_free b w = Some w' \<Longrightarrow> w_sys w' = w_sys w"
  "sys_system (link S E rec base) cmd w = (rc, w') \<Longrightarrow> fst (w_sys w') = fst (w_sys w)"
  "sys_mq_timedreceive (link S E rec base) q w = (got, w') \<Longrightarrow> fst (w_sys w') = fst (w_sys w)"
  "fst (w_sys (snd (sys_kill (link S E rec base) p w))) = fst (w_sys w)"
  by (auto simp: sys_outcome_def sys_alloc_def sys_free_def sys_system_def sys_mq_timedreceive_def sys_kill_def link_def on_rest_def
      split: prod.splits if_splits option.splits)

lemma link_kill [simp]: "fst (w_sys (KillPids (link S E rec base) pids w)) = fst (w_sys w)"
  by (simp add: KillPids_def Let_def link_calls(6))

lemma link_spawn: "SpawnWindow (link S E rec base) cmd w = (r, w') \<Longrightarrow> fst (w_sys w') = fst (w_sys w)"
  by (auto simp: SpawnWindow_def Let_def dest: link_calls(4) split: prod.splits)

lemma link_collect: "collect_pids n (link S E rec base) gw pids w = (r, pids', w') \<Longrightarrow> fst (w_sys w') = fst (w_sys w)"
  by (induction n arbitrary: pids w)
    (auto simp: CollectPid_def dest: link_calls(5) split: prod.splits option.splits if_splits)

lemma link_close: "GroupWindows_Close M (link S E rec base) gw g w = Some (r, gw', w') \<Longrightarrow> fst (w_sys w') = fst (w_sys w)"
  by (auto simp: GroupWindows_Close_def Let_def dest!: link_calls(3) split: option.splits prod.splits if_splits Option.bind_splits)

lemma link_store: "store_windows M (link S E rec base) gw g pids w = Some (r, gw', w') \<Longrightarrow> fst (w_sys w') = fst (w_sys w)"
  by (auto simp: store_windows_def Let_def dest!: link_calls(1-3) split: prod.splits if_splits Option.bind_splits)

lemma link_track: "track_windows M (link S E rec base) gw g w = Some (r, gw', w') \<Longrightarrow> fst (w_sys w') = fst (w_sys w)"
  by (auto simp: track_windows_def Let_def dest!: link_calls(2,3) link_collect link_store split: prod.splits if_splits Option.bind_splits)

lemma link_open:
  assumes "GroupWindows_Open M (link S E rec base) gw g ip port user w = Some (r, gw', w')"
  shows "fst (w_sys w') = fst (w_sys w)"
  using assms
  by (auto simp: GroupWindows_Open_def Let_def dest!: link_close link_spawn link_track
      split: option.splits prod.splits if_splits Option.bind_splits)

text \<open>The endpoint in an answer is the endpoint of the windows.\<close>

lemma opened_on_reply:
  assumes "group_windows M" and "client_os_ok base" and "op = OPCODE_CREATE_GROUP \<or> op = OPCODE_JOIN_GROUP"
    and "ca_windows app = Some gw" and "windows_inv M gw w" and "ca_username app = Some user" and "NUL \<notin> set user" and "length user < 64"
    and "m_value resp = terminated (endpoint_text ep) @ tail" and "m_port ep \<noteq> 0"
  obtains app' gw' w' where "group_action_done M (link S E rec base) app op g resp w = Some (app', w')"
    and "fst (w_sys w') = fst (w_sys w)" and "app' = app\<lparr>ca_windows := Some gw'\<rparr>"
    and "Ev_System (receiver_command (ip_text (m_multicastAddr ep)) (m_port ep)) \<in> set (w_trace w')"
    and "windows_view M gw' g \<noteq> None \<longrightarrow> Ev_System (sender_command (ip_text (m_multicastAddr ep)) (m_port ep) user) \<in> set (w_trace w')"
proof -
  let ?os = "link S E rec base" and ?ip = "ip_text (m_multicastAddr ep)"
  let ?ipb = "os_uninit ?os CONF_MULTICAST_ENDPOINT_STR_MAX (w_sys w)"
  have os: "client_os_ok ?os" using assms(2) by (rule link_ok)
  obtain ip' where pe: "ParseEndpoint (m_value resp) ?ipb CONF_MULTICAST_ENDPOINT_STR_MAX 0 = Some (True, ip', m_port ep)" "c_string_at ip' 0 = Some ?ip"
    using parse_endpoint_text [OF assms(10), of ?ipb tail 0] client_os_okD(5) [OF os] assms(9) by auto
  have ip: "NUL \<notin> set ?ip" "length ?ip < 22" using addr_text_bounds [of "m_multicastAddr ep"] by auto
  obtain res gw' w1 where o: "GroupWindows_Open M ?os (Some gw) (Some g) (Some ?ip) (m_port ep) (Some user) w = Some (res, Some gw', w1)"
      "Ev_System (receiver_command ?ip (m_port ep)) \<in> set (w_trace w1)"
      "res = GROUP_WINDOWS_SUCCESS \<longrightarrow> (\<exists>pids. windows_view M gw' g = Some pids) \<and> Ev_System (sender_command ?ip (m_port ep) user) \<in> set (w_trace w1)"
      "res \<noteq> GROUP_WINDOWS_SUCCESS \<longrightarrow> windows_view M gw' g = None"
    by (rule spawned_receiver [OF assms(1,5) os ip assms(7,8)]) blast
  let ?w2 = "if res \<noteq> GROUP_WINDOWS_SUCCESS then c_print (''Failed to open chat windows for group '' @ [CHR 0x27] @ g @ [CHR 0x27] @ ''.'' @ newline) w1 else w1"
  show ?thesis
    by (rule that [of "app\<lparr>ca_windows := Some gw'\<rparr>" ?w2])
      (use pe o assms(3,4,6) link_open [OF o(1)] in \<open>auto simp: group_action_done_def Let_def\<close>)
qed

lemma endpoint_text_length: "length (terminated (endpoint_text ep)) < 128"
proof -
  have "unat (m_port ep) < 2 ^ 16" using unsigned_less [of "m_port ep", where ?'a = nat] by simp
  then have "length (decimal (unat (m_port ep))) \<le> 5" using decimal_length [of "unat (m_port ep)" 4] by simp
  then show ?thesis using addr_text_bounds(1) [of "m_multicastAddr ep"] by (simp add: terminated_def endpoint_text_def)
qed

text \<open>
  A client that can enter a room: it is connected, keeps its windows, and knows its user.  Whatever request the
  server answers with an endpoint, the client opens the windows of the group on that endpoint.
\<close>

definition client_ready :: "'m windows_ops \<Rightarrow> 'r client_os \<Rightarrow> 'm ClientApp \<Rightarrow> 's world \<Rightarrow> string \<Rightarrow> bool" where
  "client_ready M base app w user \<longleftrightarrow>
     client_os_ok base \<and> (\<exists>c. ca_controller app = Some c \<and> cc_state c = CLIENT_STATE_RUNNING)
     \<and> (\<exists>gw. ca_windows app = Some gw \<and> windows_inv M gw w)
     \<and> ca_username app = Some user \<and> NUL \<notin> set user \<and> length user < 64"

lemma enter_room:
  assumes "group_windows M" and "chat_server S" and "server_run S exact sm" and "env_ok E" and "env_mem E = mem_ok"
    and "client_ready M base app w user" and "typed 128 g" and "w_stdin w = g @ newline @ rest" and "w_sys w = ((sm, pend), r)"
    and "req = Req_CreateGroup g \<or> req = Req_JoinGroup g"
    and "\<And>order v' status payload. service mem_ok True order (sm_view S sm) (m_fdConnection rec) req = (v', status, payload)
      \<Longrightarrow> status = CHAT_OK \<and> payload = terminated (endpoint_text ep) \<and> P v'" and "m_port ep \<noteq> 0"
  obtains app' gw' w' sm' r' where "HandleGroupAction M (link S E rec base) app (request_opcode req) w = Some (app', w')"
    and "w_sys w' = ((sm', []), r')" and "server_run S exact sm'" and "P (sm_view S sm')" and "ca_windows app' = Some gw'"
    and "Ev_System (receiver_command (ip_text (m_multicastAddr ep)) (m_port ep)) \<in> set (w_trace w')"
    and "windows_view M gw' g \<noteq> None \<longrightarrow> Ev_System (sender_command (ip_text (m_multicastAddr ep)) (m_port ep) user) \<in> set (w_trace w')"
proof -
  obtain c gw where ready: "client_os_ok base" "ca_controller app = Some c" "cc_state c = CLIENT_STATE_RUNNING"
      "ca_windows app = Some gw" "windows_inv M gw w" "ca_username app = Some user" "NUL \<notin> set user" "length user < 64"
    using assms(6) by (auto simp: client_ready_def)
  have req: "req \<in> {Req_CreateGroup g, Req_JoinGroup g, Req_LeaveGroup g}" using assms(10) by blast
  have op: "request_opcode req = OPCODE_CREATE_GROUP \<or> request_opcode req = OPCODE_JOIN_GROUP" using assms(10) by auto
  obtain sm' order status payload resp w3 evs where x: "server_run S exact sm'"
      "service mem_ok True order (sm_view S sm) (m_fdConnection rec) req = (sm_view S sm', status, payload)"
      "w_sys w3 = ((sm', []), r)" "w_live w3 = w_live w"
      "status < 128 \<and> length payload < 128 \<longrightarrow> (\<exists>tail. m_value resp = payload @ tail)
        \<and> w_trace w3 = w_trace w @ [Ev_Print ''  group name: '', Ev_Send (cc_fd c) (request_frame req)] @ evs
        \<and> HandleGroupAction M (link S E rec base) app (request_opcode req) w
        = (if status \<noteq> CHAT_OK then Some (app, w3) else group_action_done M (link S E rec base) app (request_opcode req) g resp w3)"
    by (rule linked_group_request [OF assms(2-5) ready(1-3) assms(7-9) req, of rec M]) blast
  note reply = assms(11) [OF x(2)]
  then obtain tail where resp: "m_value resp = terminated (endpoint_text ep) @ tail"
      "HandleGroupAction M (link S E rec base) app (request_opcode req) w = group_action_done M (link S E rec base) app (request_opcode req) g resp w3"
    using x(5) endpoint_text_length by (auto simp: CHAT_OK_def)
  have inv: "windows_inv M gw w3" using ready(5) x(4) by (simp add: windows_inv_def owns_def)
  obtain app' gw' w' where o: "group_action_done M (link S E rec base) app (request_opcode req) g resp w3 = Some (app', w')"
      "fst (w_sys w') = fst (w_sys w3)" "app' = app\<lparr>ca_windows := Some gw'\<rparr>"
      "Ev_System (receiver_command (ip_text (m_multicastAddr ep)) (m_port ep)) \<in> set (w_trace w')"
      "windows_view M gw' g \<noteq> None \<longrightarrow> Ev_System (sender_command (ip_text (m_multicastAddr ep)) (m_port ep) user) \<in> set (w_trace w')"
    by (rule opened_on_reply [OF assms(1) ready(1) op ready(4) inv ready(6-8) resp(1) assms(12)]) blast
  have "w_sys w' = ((sm', []), snd (w_sys w'))" using o(2) x(3) by (metis fst_conv prod.collapse)
  then show ?thesis using that resp(2) o reply x(1) by auto
qed

text \<open>Creating a group on the server.\<close>

lemma create_service:
  assumes "chat_server S" and "server_run S exact sm" and "db_session (sv_users (sm_view S sm)) fd = Some u"
    and "length g \<le> CONF_GROUP_MANAGER_MAX_NAME_LENGTH" and "sv_groups (sm_view S sm) g = None"
    and "card (dom (sv_groups (sm_view S sm))) < CONF_MULTICAST_MAX_GROUPS"
    and "service mem_ok True order (sm_view S sm) fd (Req_CreateGroup g) = (v', status, payload)"
  defines "grp \<equiv> (new_group g (card (dom (sv_groups (sm_view S sm)))))\<lparr>group_refCount := 1\<rparr>"
  shows "status = CHAT_OK \<and> payload = terminated (endpoint_text (group_endpoint grp))
    \<and> sv_groups v' g = Some grp \<and> g \<in> set (db_groups (sv_users v') u)
    \<and> db_session (sv_users v') = db_session (sv_users (sm_view S sm))
    \<and> (\<forall>n. n \<noteq> u \<longrightarrow> db_groups (sv_users v') n = db_groups (sv_users (sm_view S sm)) n)"
proof -
  let ?v = "sm_view S sm"
  have "view_ok exact ?v" using chat_server.run_invariant [OF assms(1,2)] by simp
  then have new: "g \<notin> set (db_groups (sv_users ?v) u)" using assms(5) unfolding view_ok_def by (metis (no_types))
  then show ?thesis using assms(3-7) unfolding grp_def
    by (auto simp: spec_add_def service_join_def spec_join_def spec_increase_def endpoint_reply_def new_group_def split: prod.splits if_splits)
qed

lemma group_port:
  assumes "k < CONF_MULTICAST_MAX_GROUPS" shows "m_port (group_endpoint (new_group g k)) \<noteq> 0"
proof -
  have "unat (m_port (group_endpoint (new_group g k))) = 5000 + k"
    using unat_word16 [of "5000 + k"] assms by (simp add: new_group_def config_defs)
  then show ?thesis by (metis add_is_0 unat_0 zero_neq_numeral)
qed

text \<open>
  Creating a group works end to end.  The logged-in user of a client types the name of a new group of at most 32
  characters while fewer than 1000 groups are alive.  The request reaches the server, which creates the group
  with the user as its only member, and the client reads the group's endpoint out of the answer and launches a
  receiver window on exactly that address and port; when both windows report, the group is tracked and the
  sender window was launched on the same endpoint under the user's name.
\<close>

lemma create_group_end_to_end:
  assumes "group_windows M" and "chat_server S" and "server_run S exact sm" and "env_ok E" and "env_mem E = mem_ok"
    and "client_os_ok base" and "ca_controller app = Some c" and "cc_state c = CLIENT_STATE_RUNNING"
    and "ca_windows app = Some gw" and "windows_inv M gw w" and "ca_username app = Some user" and "NUL \<notin> set user" and "length user < 64"
    and "typed 128 g" and "length g \<le> CONF_GROUP_MANAGER_MAX_NAME_LENGTH" and "w_stdin w = g @ newline @ rest" and "w_sys w = ((sm, pend), r)"
    and "db_session (sv_users (sm_view S sm)) (m_fdConnection rec) = Some u" and "sv_groups (sm_view S sm) g = None"
    and "card (dom (sv_groups (sm_view S sm))) < CONF_MULTICAST_MAX_GROUPS"
  shows "\<exists>app' gw' w' sm' r' grp. HandleGroupAction M (link S E rec base) app OPCODE_CREATE_GROUP w = Some (app', w')
    \<and> w_sys w' = ((sm', []), r') \<and> server_run S exact sm' \<and> sv_groups (sm_view S sm') g = Some grp \<and> group_refCount grp = 1
    \<and> g \<in> set (db_groups (sv_users (sm_view S sm')) u)
    \<and> (let ip = ip_text (m_multicastAddr (group_endpoint grp)); port = m_port (group_endpoint grp)
       in Ev_System (receiver_command ip port) \<in> set (w_trace w') \<and> ca_windows app' = Some gw'
          \<and> (windows_view M gw' g \<noteq> None \<longrightarrow> Ev_System (sender_command ip port user) \<in> set (w_trace w')))"
proof -
  let ?grp = "(new_group g (card (dom (sv_groups (sm_view S sm)))))\<lparr>group_refCount := 1\<rparr>"
  have ready: "client_ready M base app w user" using assms(6-13) by (auto simp: client_ready_def)
  have port: "m_port (group_endpoint ?grp) \<noteq> 0" using group_port [OF assms(20)] by (simp add: new_group_def)
  show ?thesis
    by (rule enter_room [OF assms(1-5) ready assms(14,16,17) disjI1 [OF refl] _ port,
          where P = "\<lambda>v'. sv_groups v' g = Some ?grp \<and> g \<in> set (db_groups (sv_users v') u)" and rec = rec])
      (use create_service [OF assms(2,3,18,15,19,20)] in \<open>blast\<close>, auto simp: Let_def)
qed

lemma create_group_example:
  "\<exists>sm app' gw' w' sm' r' grp. HandleGroupAction chain_ops (link ref_lib ref_env ref_record ref_os)
        (ref_app\<lparr>ca_windows := Some ref_windows, ca_username := Some ''ann''\<rparr>) OPCODE_CREATE_GROUP
        \<lparr>w_sys = ((sm, []), False), w_stdin = ''room'' @ newline, w_trace = [], w_live = []\<rparr> = Some (app', w')
     \<and> w_sys w' = ((sm', []), r') \<and> sv_groups (sm_view ref_lib sm') ''room'' = Some grp \<and> group_refCount grp = 1
     \<and> Ev_System (receiver_command (ip_text (m_multicastAddr (group_endpoint grp))) (m_port (group_endpoint grp))) \<in> set (w_trace w')
     \<and> ca_windows app' = Some gw'"
proof -
  obtain sm where sm: "server_run ref_lib True sm" "sm_view ref_lib sm =
      \<lparr>sv_users = \<lparr>db_password = [''ann'' \<mapsto> ''pw''], db_session = [5 \<mapsto> ''ann''], db_groups = (\<lambda>_. [])\<rparr>, sv_groups = Map.empty\<rparr>"
    using ann_registered .
  let ?w = "\<lparr>w_sys = ((sm, [] :: string), False), w_stdin = ''room'' @ newline, w_trace = [], w_live = []\<rparr>"
  have inv: "windows_inv chain_ops ref_windows ?w" using ref_windows_inv(1) by (simp add: windows_inv_def owns_def ref_world_def)
  have t: "typed 128 ''room''" "NUL \<notin> set ''ann''" by (simp_all add: typed_def NUL_def)
  show ?thesis
    using create_group_end_to_end [OF windows.group_windows_axioms ref_server.chat_server_axioms sm(1) ref_env_ok ref_os_ok _ _ _ inv _ t(2) _ t(1),
        where app = "ref_app\<lparr>ca_windows := Some ref_windows, ca_username := Some ''ann''\<rparr>" and rec = ref_record
        and rest = "[]" and pend = "[]" and r = False and u = "''ann''"]
    by (simp add: sm(2) ref_app_def ref_record_def config_defs Let_def) blast
qed

end
