(* ===== verification/Chat_Windows_Properties.thy ===== *)
theory Chat_Windows_Properties
  imports Chat_Windows Chat_System
begin

text \<open>
  What the chat windows do: the sender returns on every input and sends the typed lines in order, the receiver
  prints what arrives, and both stay inside their buffers.  The first part follows a group's endpoint from its
  printed form to the sockets of the windows.
\<close>

section \<open>The endpoint\<close>

lemma based_value_digits: "\<forall>c \<in> set ds. is_digit c \<Longrightarrow> based_value 10 ds = digits_value ds 0"
proof -
  have "foldl (\<lambda>v c. v * 10 + hex_value c) v ds = digits_value ds v" if "\<forall>c \<in> set ds. is_digit c" for v
    using that by (induction ds arbitrary: v) (auto simp: digits_value_def hex_value_def digit_value_def is_digit_def Let_def)
  then show "\<forall>c \<in> set ds. is_digit c \<Longrightarrow> based_value 10 ds = digits_value ds 0" by (simp add: based_value_def)
qed

lemma decimal_zero: "decimal 0 = ''0''"
  by (subst decimal.simps) (simp add: char_of_eq_iff)

lemma strtoul0_decimal:
  assumes "rest = [] \<or> hd rest = CHR ''.''"
  shows "strtoul0 (decimal n @ rest) = (n, rest)"
proof (cases "n = 0")
  case True
  then show ?thesis using assms
    by (cases rest) (auto simp: decimal_zero strtoul0_def is_octal_def based_value_def hex_value_def)
next
  case False
  have hd: "hd (decimal n @ rest) \<noteq> CHR ''0''" using decimal_hd_zero [of n] False by (auto simp: digit_value_def)
  then have "(decimal n @ rest) ! 0 \<noteq> CHR ''0''" by (simp add: hd_conv_nth)
  moreover have "takeWhile is_digit (decimal n @ rest) = decimal n" "dropWhile is_digit (decimal n @ rest) = rest"
    using decimal_digits [of n] assms by (cases rest; auto simp: is_digit_def)+
  ultimately show ?thesis using hd by (simp add: strtoul0_def based_value_digits decimal_digits digits_value_decimal)
qed

lemma inet_aton_octet:
  assumes "n < 256"
  shows "inet_aton_from (Suc k) octets (decimal n @ CHR ''.'' # rest) = inet_aton_from k (octets @ [n]) rest"
  using assms decimal_digits [of n] by (subst inet_aton_from.simps) (simp add: strtoul0_decimal)

lemma inet_aton_last:
  assumes "n < 256" and "length octets = 3"
  shows "inet_aton_from k octets (decimal n) = Some (octets @ [n])"
  using assms decimal_digits [of n] strtoul0_decimal [of "[]" n] by (subst inet_aton_from.simps) simp

lemma inet_addr_text: "inet_addr (ip_text a) = a"
proof -
  have "inet_aton_from 3 [] (ip_text a) = Some (addr_bytes a)"
    using addr_top_byte [of a]
    by (simp add: ip_text_def Let_def addr_bytes_def numeral_3_eq_3 inet_aton_octet inet_aton_last)
  then show ?thesis by (simp add: inet_addr_def addr_of_addr_bytes)
qed

lemma port_arg_text: "port_arg (decimal (unat (p :: 16 word))) = Some p"
proof -
  have "unat p \<le> 65535" using unsigned_less [of p, where ?'a = nat] by simp
  then show ?thesis by (simp add: port_arg_def c_atoi_decimal)
qed

section \<open>The sender\<close>

text \<open>What the programs rely on of their system calls.\<close>

definition chat_os_ok :: "'s chat_os \<Rightarrow> bool" where
  "chat_os_ok os \<longleftrightarrow>
     (\<forall>n s. length (co_uninit os n s) = n)
     \<and> (\<forall>fd len s n bytes s'. co_recvfrom os fd len s = ((n, bytes), s') \<longrightarrow> n \<le> int len \<and> nat n \<le> length bytes)"

text \<open>The lines \<open>fgets\<close> cuts an input into, the text of a line, and the datagrams they become.\<close>

function input_lines :: "string \<Rightarrow> string list" where
  "input_lines s =
     (case take_line (CONF_CHAT_MSG_MAX - 1) s of (l, rest) \<Rightarrow> if l = [] then [] else l # input_lines rest)"
  by pat_completeness auto
termination
  by (relation "measure length") (auto dest!: take_line_split [OF sym])

declare input_lines.simps [simp del]

definition line_text :: "string \<Rightarrow> string" where
  "line_text l = takeWhile (\<lambda>c. c \<noteq> CHR 0x0A) (takeWhile (\<lambda>c. c \<noteq> NUL) l)"

definition chat_text :: "string \<Rightarrow> string \<Rightarrow> string" where
  "chat_text user t = take (CONF_CHAT_MSG_MAX - 1) (user @ '': '' @ t)"

definition chat_messages :: "string \<Rightarrow> string \<Rightarrow> string list" where
  "chat_messages user input = map (chat_text user) (filter (\<lambda>t. t \<noteq> []) (map line_text (input_lines input)))"

text \<open>The datagrams of a trace with their destinations.\<close>

fun sent_datagrams :: "sys_event list \<Rightarrow> (string \<times> 32 word \<times> 16 word) list" where
  "sent_datagrams [] = []"
| "sent_datagrams (Ev_Datagram fd bytes a p # evs) = (bytes, a, p) # sent_datagrams evs"
| "sent_datagrams (_ # evs) = sent_datagrams evs"

lemma sent_datagrams_append [simp]: "sent_datagrams (xs @ ys) = sent_datagrams xs @ sent_datagrams ys"
  by (induction xs rule: sent_datagrams.induct) auto

lemma strip_newline:
  assumes "c_string_at line 0 = Some s" and "t = takeWhile (\<lambda>c. c \<noteq> CHR 0x0A) s"
  obtains line1 where "mem_write line (length t) [NUL] = Some line1" and "length line1 = length line"
    and "c_string_at line1 0 = Some t"
proof -
  have b: "length s < length line" using c_string_at_bound [OF assms(1)] by simp
  have tl: "length t \<le> length s" by (simp add: assms(2) length_takeWhile_le)
  have s: "s = takeWhile (\<lambda>c. c \<noteq> NUL) line" using assms(1) by (simp add: c_string_at_def split: if_splits)
  then have "s = take (length s) line" by (metis takeWhile_eq_take)
  then have "t = take (length t) line" using assms(2) tl by (metis min.absorb1 take_take takeWhile_eq_take)
  then have w: "mem_write line (length t) [NUL] = Some (t @ NUL # drop (length t + 1) line)"
    using b tl by (simp add: mem_write_def)
  have "NUL \<notin> set t" using c_string_at_no_NUL [OF assms(1)] assms(2) by (auto dest: set_takeWhileD)
  then have "c_string_at (t @ NUL # drop (length t + 1) line) 0 = Some t" using c_string_at_append [of t "[]"] by simp
  with w length_mem_write [OF w] show ?thesis by (rule that)
qed

text \<open>One line: nothing is sent for an empty text, and one datagram otherwise.\<close>

lemma send_line_cases:
  assumes "chat_os_ok os" and "length line = CONF_CHAT_MSG_MAX" and "c_string_at line 0 = Some (takeWhile (\<lambda>c. c \<noteq> NUL) l)"
    and "length l < CONF_CHAT_MSG_MAX" and "NUL \<notin> set user" and "length user < 2 ^ 30"
  obtains (empty) line' where "line_text l = []" and "send_line os fd dest user line w = Some (True, line', w)"
      and "length line' = CONF_CHAT_MSG_MAX"
  | (sent) line' rc w' where "line_text l \<noteq> []" and "length line' = CONF_CHAT_MSG_MAX"
      and "call (co_sendto os fd (chat_text user (line_text l)) (sin_addr dest) (sin_port dest))
             [Ev_Datagram fd (chat_text user (line_text l)) (sin_addr dest) (sin_port dest)] w = (rc, w')"
      and "send_line os fd dest user line w = Some (\<not> rc < 0, line', if rc < 0 then c_perror ''chat_sender: sendto'' w' else w')"
proof -
  let ?t = "line_text l"
  let ?full = "user @ '': '' @ ?t"
  obtain line1 where l1: "mem_write line (length ?t) [NUL] = Some line1" "length line1 = length line" "c_string_at line1 0 = Some ?t"
    using strip_newline [OF assms(3)] by (metis line_text_def)
  have t: "length ?t \<le> length l"
    unfolding line_text_def by (meson le_trans length_takeWhile_le)
  have nul: "NUL \<notin> set ?full" using assms(5) c_string_at_no_NUL [OF l1(3)] by (simp add: NUL_def)
  have len: "length ?full \<le> 2147483647" using t assms(4,6) by (simp add: config_defs)
  let ?msg = "co_uninit os CONF_CHAT_MSG_MAX (w_sys w)"
  have msg: "length ?msg = CONF_CHAT_MSG_MAX" using assms(1) by (simp add: chat_os_ok_def)
  obtain msg1 where m1: "snprintf ?msg 0 CONF_CHAT_MSG_MAX ?full = Some (snprintf_result ?full, msg1)"
      "c_string_at msg1 0 = Some (chat_text user ?t)" "length msg1 = CONF_CHAT_MSG_MAX"
    using snprintf_text [of CONF_CHAT_MSG_MAX ?msg ?full] msg nul by (auto simp: config_defs chat_text_def)
  let ?n = "if snprintf_result ?full \<ge> int CONF_CHAT_MSG_MAX then CONF_CHAT_MSG_MAX - 1 else nat (snprintf_result ?full)"
  have n: "?n = length (chat_text user ?t)" using len by (auto simp: snprintf_result_def chat_text_def config_defs)
  have "chat_text user ?t = take (length (chat_text user ?t)) msg1"
    using m1(2) by (metis c_string_at_def drop_0 option.discI option.inject takeWhile_eq_take)
  then have rd: "mem_read msg1 0 ?n = Some (chat_text user ?t)"
    using c_string_at_bound [OF m1(2)] unfolding n by (simp add: mem_read_def)
  obtain rc w' where c: "call (co_sendto os fd (chat_text user ?t) (sin_addr dest) (sin_port dest))
             [Ev_Datagram fd (chat_text user ?t) (sin_addr dest) (sin_port dest)] w = (rc, w')" by fastforce
  have pos: "\<not> snprintf_result ?full < 0" using len by (simp add: snprintf_result_def)
  show ?thesis
  proof (cases "?t = []")
    case True
    have "send_line os fd dest user line w = Some (True, line1, w)"
      using assms(3) l1(1,3) True by (simp add: send_line_def flip: line_text_def)
    then show ?thesis using empty True l1(2) assms(2) by simp
  next
    case False
    have "send_line os fd dest user line w = Some (\<not> rc < 0, line1, if rc < 0 then c_perror ''chat_sender: sendto'' w' else w')"
      using assms(3) l1(1,3) False m1(1) pos rd c
      by (cases "snprintf_result ?full \<ge> int CONF_CHAT_MSG_MAX") (simp_all add: send_line_def Let_def flip: line_text_def)
    then show ?thesis using sent [OF False _ c] l1(2) assms(2) by simp
  qed
qed

definition sends_accepted :: "'s chat_os \<Rightarrow> bool" where
  "sends_accepted os \<longleftrightarrow> (\<forall>fd b a p s. 0 \<le> fst (co_sendto os fd b a p s))"

lemma chat_messages_step:
  "chat_messages user [] = []"
  "take_line (CONF_CHAT_MSG_MAX - 1) s = (l, rest) \<Longrightarrow> l \<noteq> [] \<Longrightarrow>
     chat_messages user s = (if line_text l = [] then [] else [chat_text user (line_text l)]) @ chat_messages user rest"
proof -
  have "take_line n [] = ([], [])" for n by (cases n) auto
  then show "chat_messages user [] = []" by (simp add: chat_messages_def input_lines.simps)
next
  assume "take_line (CONF_CHAT_MSG_MAX - 1) s = (l, rest)" and "l \<noteq> []"
  then show "chat_messages user s = (if line_text l = [] then [] else [chat_text user (line_text l)]) @ chat_messages user rest"
    by (simp add: chat_messages_def input_lines.simps [of s])
qed

text \<open>The loop returns, and sends a prefix of the messages: all of them unless a call fails.\<close>

lemma send_lines_result:
  assumes "chat_os_ok os" and "NUL \<notin> set user" and "length user < 2 ^ 30" and "length line = CONF_CHAT_MSG_MAX"
  shows "\<exists>w' evs n. send_lines os fd dest user line w = Some w' \<and> w_trace w' = w_trace w @ evs
    \<and> sent_datagrams evs = take n (map (\<lambda>m. (m, sin_addr dest, sin_port dest)) (chat_messages user (w_stdin w)))
    \<and> (sends_accepted os \<longrightarrow> length (chat_messages user (w_stdin w)) \<le> n) \<and> (\<forall>q msg. Ev_Report q msg \<notin> set evs)"
  using assms(4)
proof (induction "length (w_stdin w)" arbitrary: w line rule: less_induct)
  case less
  let ?to = "map (\<lambda>m. (m, sin_addr dest, sin_port dest))"
  have n: "CONF_CHAT_MSG_MAX \<le> length line" "1 < CONF_CHAT_MSG_MAX" using less.prems by (simp_all add: config_defs)
  show ?case
  proof (cases rule: fgets_cases [OF n, of w])
    case 1
    then have "send_lines os fd dest user line w = Some w" by (simp add: send_lines.simps)
    then show ?thesis using 1 by (auto simp: chat_messages_step)
  next
    case (2 l rest tail)
    let ?line = "takeWhile (\<lambda>c. c \<noteq> NUL) l @ NUL # tail" and ?w = "w\<lparr>w_stdin := rest\<rparr>"
    note step = chat_messages_step(2) [OF 2(4,2), of user]
    have shorter: "length rest < length (w_stdin w)" using 2(1,2) by simp
    have len: "length ?line = CONF_CHAT_MSG_MAX" using 2(6) less.prems by simp
    show ?thesis
    proof (cases rule: send_line_cases [OF assms(1) len c_string_prefix 2(3) assms(2,3), of fd dest ?w])
      case (1 line')
      have "send_lines os fd dest user line w = send_lines os fd dest user line' ?w"
        using 2(5) 1(2) by (simp add: send_lines.simps [of os fd dest user line w])
      with less.hyps [of ?w line'] shorter 1 show ?thesis by (simp add: step)
    next
      case s: (2 line' rc w1)
      have w1: "w_stdin w1 = rest" "w_trace w1 = w_trace w @ [Ev_Datagram fd (chat_text user (line_text l)) (sin_addr dest) (sin_port dest)]"
        using call_frame [OF s(3)] by simp_all
      show ?thesis
      proof (cases "rc < 0")
        case True
        have "send_lines os fd dest user line w = Some (c_perror ''chat_sender: sendto'' w1)"
          using 2(5) s(4) True by (simp add: send_lines.simps [of os fd dest user line w])
        moreover have "\<not> sends_accepted os"
          using call_frame(4) [OF s(3)] True unfolding sends_accepted_def by (metis fst_conv not_less)
        ultimately show ?thesis using w1(2) s(1) by (auto simp: step intro!: exI [of _ "Suc 0"])
      next
        case False
        have "send_lines os fd dest user line w = send_lines os fd dest user line' w1"
          using 2(5) s(4) False by (simp add: send_lines.simps [of os fd dest user line w])
        moreover obtain w' evs n where r: "send_lines os fd dest user line' w1 = Some w'" "w_trace w' = w_trace w1 @ evs"
            "sent_datagrams evs = take n (?to (chat_messages user rest))" "sends_accepted os \<longrightarrow> length (chat_messages user rest) \<le> n"
            "\<forall>q msg. Ev_Report q msg \<notin> set evs"
          using less.hyps [of w1 line'] shorter w1(1) s(2) by auto
        ultimately show ?thesis using w1(2) s(1) by (auto simp: step intro!: exI [of _ "Suc n"])
      qed
    qed
  qed
qed

text \<open>Reporting the process id never fails and sends no datagram.\<close>

lemma report_pid:
  obtains evs where "w_trace (ChatIpc_ReportPid os role w) = w_trace w @ evs" and "w_stdin (ChatIpc_ReportPid os role w) = w_stdin w"
    and "sent_datagrams evs = []" and "\<forall>q msg. Ev_Report q msg \<in> set evs \<longrightarrow> msg = \<lparr>m_role = role, m_pid = co_getpid os\<rparr>"
    and "\<forall>e \<in> set evs. case e of Ev_Bind _ _ _ \<Rightarrow> False | Ev_Membership _ _ \<Rightarrow> False | _ \<Rightarrow> True"
proof -
  obtain mq w1 where o: "call (co_mq_open os) [] w = (mq, w1)" by fastforce
  let ?msg = "\<lparr>m_role = role, m_pid = co_getpid os\<rparr>"
  obtain rc w2 where s: "call (co_mq_send os mq ?msg) [Ev_Report mq ?msg] w1 = (rc, w2)" by fastforce
  note f = call_frame [OF o] call_frame [OF s]
  show ?thesis
  proof (cases "mq = - 1")
    case True
    then show ?thesis using o f by (intro that [of "[Ev_Error ''ChatIpc_ReportPid: mq_open'']"]) (auto simp: ChatIpc_ReportPid_def)
  next
    case False
    then show ?thesis using o s f
      by (intro that [of "[Ev_Report mq ?msg] @ (if rc = - 1 then [Ev_Error ''ChatIpc_ReportPid: mq_send''] else []) @ [Ev_QueueClose mq]"])
        (auto simp: ChatIpc_ReportPid_def Let_def)
  qed
qed

lemma sender_run:
  assumes "chat_os_ok os" and "NUL \<notin> set user" and "length user < 2 ^ 30" and "port_arg port = Some p"
  obtains rc w' evs n where "chat_sender_main os [prog, ip, port, user] w = Some (rc, w')" and "w_trace w' = w_trace w @ evs"
    and "sent_datagrams evs = take n (map (\<lambda>m. (m, inet_addr ip, htons p)) (chat_messages user (w_stdin w)))"
    and "rc = 0 \<and> sends_accepted os \<longrightarrow> length (chat_messages user (w_stdin w)) \<le> n" and "rc = 0 \<or> rc = 1 \<and> n = 0"
    and "(\<forall>s. 0 \<le> fst (co_socket os s)) \<longrightarrow> rc = 0"
    and "\<forall>q msg. Ev_Report q msg \<in> set evs \<longrightarrow> msg = \<lparr>m_role = CHAT_ROLE_SENDER, m_pid = co_getpid os\<rparr>"
proof -
  let ?w1 = "ChatIpc_ReportPid os CHAT_ROLE_SENDER w"
  obtain evs1 where r: "w_trace ?w1 = w_trace w @ evs1" "w_stdin ?w1 = w_stdin w" "sent_datagrams evs1 = []"
      "\<forall>q msg. Ev_Report q msg \<in> set evs1 \<longrightarrow> msg = \<lparr>m_role = CHAT_ROLE_SENDER, m_pid = co_getpid os\<rparr>"
    using report_pid [of os CHAT_ROLE_SENDER w] .
  obtain fd w2 where s: "call (co_socket os) [] ?w1 = (fd, w2)" by fastforce
  note f = call_frame [OF s]
  show ?thesis
  proof (cases "fd < 0")
    case True
    then have "\<not> (\<forall>s. 0 \<le> fst (co_socket os s))" using f(4) by (metis fst_conv not_less)
    then show ?thesis using r f s assms(4) True
      by (intro that [of 1 "c_perror ''chat_sender: socket'' w2" "evs1 @ [Ev_Error ''chat_sender: socket'']" 0])
        (auto simp: chat_sender_main_def CreateMulticastSender_def)
  next
    case False
    let ?dest = "\<lparr>sin_addr = inet_addr ip, sin_port = htons p\<rparr>"
    let ?banner = "''Connected to '' @ ip @ '':'' @ decimal (unat p) @ '' as '' @ [CHR 0x27] @ user @ [CHR 0x27]
                     @ ''. Type a message and press Enter (close this window to stop).'' @ newline"
    let ?w3 = "c_print ?banner w2"
    have "length (co_uninit os CONF_CHAT_MSG_MAX (w_sys ?w3)) = CONF_CHAT_MSG_MAX" using assms(1) by (simp add: chat_os_ok_def)
    from send_lines_result [OF assms(1-3) this, of fd ?dest ?w3] obtain w4 evs2 n where
      l: "send_lines os fd ?dest user (co_uninit os CONF_CHAT_MSG_MAX (w_sys ?w3)) ?w3 = Some w4" "w_trace w4 = w_trace ?w3 @ evs2"
        "sent_datagrams evs2 = take n (map (\<lambda>m. (m, inet_addr ip, htons p)) (chat_messages user (w_stdin w)))"
        "sends_accepted os \<longrightarrow> length (chat_messages user (w_stdin w)) \<le> n" "\<forall>q msg. Ev_Report q msg \<notin> set evs2"
      using f(1) r(2) by auto
    have "chat_sender_main os [prog, ip, port, user] w = Some (0, chat_close os fd w4)"
      using s False assms(4) l(1) by (simp add: chat_sender_main_def CreateMulticastSender_def)
    moreover have "w_trace (chat_close os fd w4) = w_trace w @ evs1 @ [Ev_Print ?banner] @ evs2 @ [Ev_Close fd]" using r(1) f(3) l(2) by simp
    ultimately show ?thesis by (rule that [where n = n]) (use r(3,4) l(3-5) in auto)
  qed
qed

section \<open>The receiver\<close>

lemma receive_step:
  assumes "chat_os_ok os" and "length buf = CONF_CHAT_MSG_MAX"
  obtains (failed) n w' where "n < 0" and "chat_recvfrom os fd buf (CONF_CHAT_MSG_MAX - 1) w = Some (n, buf, w')"
      and "receive_loop (Suc k) os fd buf w = Some (True, c_perror ''chat_receiver: recvfrom'' w')" and "w_trace w' = w_trace w"
  | (got) n bytes s buf' where "co_recvfrom os fd (CONF_CHAT_MSG_MAX - 1) (w_sys w) = ((int n, bytes), s)"
      and "length buf' = CONF_CHAT_MSG_MAX" and "n < CONF_CHAT_MSG_MAX"
      and "receive_loop (Suc k) os fd buf w
        = receive_loop k os fd buf' (c_print (takeWhile (\<lambda>c. c \<noteq> NUL) (take n bytes) @ newline) (w\<lparr>w_sys := s\<rparr>))"
proof -
  obtain i bytes s where r: "co_recvfrom os fd (CONF_CHAT_MSG_MAX - 1) (w_sys w) = ((i, bytes), s)" by (metis prod.collapse)
  have ok: "i \<le> int (CONF_CHAT_MSG_MAX - 1)" "nat i \<le> length bytes" using assms(1) r unfolding chat_os_ok_def by blast+
  show ?thesis
  proof (cases "i < 0")
    case True
    then show ?thesis using r by (intro failed [of i "w\<lparr>w_sys := s\<rparr>"]) (simp_all add: chat_recvfrom_def)
  next
    case False
    let ?b = "take (nat i) bytes"
    have lb: "length ?b = nat i" "nat i < CONF_CHAT_MSG_MAX" using ok False by (auto simp: config_defs)
    have 1: "mem_write buf 0 ?b = Some (?b @ drop (nat i) buf)" using lb assms(2) mem_write_start [of ?b buf] by simp
    have 2: "mem_write (?b @ drop (nat i) buf) (nat i) [NUL] = Some (?b @ NUL # drop (Suc (nat i)) buf)"
      using lb assms(2) mem_write_append [of "[NUL]" "drop (nat i) buf" "nat i" ?b] by simp
    have 3: "c_string_at (?b @ NUL # rest) 0 = Some (takeWhile (\<lambda>c. c \<noteq> NUL) ?b)" for rest
      by (auto simp: c_string_at_def takeWhile_append intro!: takeWhile_eq_all_conv [THEN iffD2, symmetric])
    have l: "length (?b @ NUL # drop (Suc (nat i)) buf) = CONF_CHAT_MSG_MAX" using length_mem_write [OF 1] length_mem_write [OF 2] assms(2) by simp
    have "receive_loop (Suc k) os fd buf w = receive_loop k os fd (?b @ NUL # drop (Suc (nat i)) buf)
        (c_print (takeWhile (\<lambda>c. c \<noteq> NUL) ?b @ newline) (w\<lparr>w_sys := s\<rparr>))"
      using False r 1 2 3 by (simp add: chat_recvfrom_def)
    then show ?thesis using False r l lb(2) by (intro got [of "nat i" bytes s]) simp_all
  qed
qed

text \<open>However long the loop runs, it stays inside its buffer and only prints short lines.\<close>

lemma receive_loop_safe:
  assumes "chat_os_ok os" and "length buf = CONF_CHAT_MSG_MAX"
  shows "\<exists>ended w' evs. receive_loop k os fd buf w = Some (ended, w') \<and> w_trace w' = w_trace w @ evs
    \<and> (\<forall>e \<in> set evs. (\<exists>t. e = Ev_Print (t @ newline) \<and> length t < CONF_CHAT_MSG_MAX) \<or> e = Ev_Error ''chat_receiver: recvfrom'')"
  using assms(2)
proof (induction k arbitrary: buf w)
  case 0
  then show ?case by force
next
  case (Suc k)
  show ?case
  proof (cases rule: receive_step [OF assms(1) Suc.prems, of fd w k])
    case (1 n w')
    then show ?thesis by force
  next
    case (2 n bytes s buf')
    let ?t = "takeWhile (\<lambda>c. c \<noteq> NUL) (take n bytes)"
    have "length ?t < CONF_CHAT_MSG_MAX" using 2(3) length_takeWhile_le [of "\<lambda>c. c \<noteq> NUL" "take n bytes"] by simp
    then show ?thesis using Suc.IH [OF 2(2), of "c_print (?t @ newline) (w\<lparr>w_sys := s\<rparr>)"] 2(4) by auto
  qed
qed

lemma join_cases:
  obtains (failed) w' evs where "CreateAndJoinMulticast os ip p w = (- 1, w')" and "w_trace w' = w_trace w @ evs"
      and "\<forall>e \<in> set evs. (\<exists>fd. e = Ev_Bind fd INADDR_ANY (htons p) \<or> e = Ev_Membership fd (inet_addr ip) \<or> e = Ev_Close fd) \<or> (\<exists>t. e = Ev_Error t)"
  | (joined) fd w' where "CreateAndJoinMulticast os ip p w = (fd, w')" and "\<not> fd < 0" and "w_stdin w' = w_stdin w"
      and "w_trace w' = w_trace w @ [Ev_Bind fd INADDR_ANY (htons p), Ev_Membership fd (inet_addr ip)]"
proof -
  obtain fd w1 where c1: "call (co_socket os) [] w = (fd, w1)" by fastforce
  obtain r2 w2 where c2: "call (co_reuseaddr os fd) [] w1 = (r2, w2)" by fastforce
  obtain r3 w3 where c3: "call (co_bind os fd INADDR_ANY (htons p)) [Ev_Bind fd INADDR_ANY (htons p)] w2 = (r3, w3)" by fastforce
  obtain r4 w4 where c4: "call (co_add_membership os fd (inet_addr ip)) [Ev_Membership fd (inet_addr ip)] w3 = (r4, w4)" by fastforce
  note f = call_frame [OF c1] call_frame [OF c2] call_frame [OF c3] call_frame [OF c4]
  note d = CreateAndJoinMulticast_def c1 c2 c3 c4 Let_def
  consider "fd < 0" | "\<not> fd < 0" "r2 < 0" | "\<not> fd < 0" "\<not> r2 < 0" "r3 < 0" | "\<not> fd < 0" "\<not> r2 < 0" "\<not> r3 < 0" "r4 < 0"
    | "\<not> fd < 0" "\<not> r2 < 0" "\<not> r3 < 0" "\<not> r4 < 0" by blast
  then show ?thesis
  proof cases
    case 5
    then show ?thesis using f by (intro joined [of fd w4]) (simp_all add: d)
  qed (auto intro!: failed simp: d f)
qed

lemma chat_messages_typed:
  assumes "\<forall>l \<in> set ls. typed CONF_CHAT_MSG_MAX l"
  shows "chat_messages user (concat (map (\<lambda>l. l @ newline) ls)) = map (chat_text user) ls"
  using assms
proof (induction ls)
  case (Cons l ls)
  have l: "CHR 0x0A \<notin> set l" "length l < CONF_CHAT_MSG_MAX - 1" "l \<noteq> []" "NUL \<notin> set l" using Cons.prems by (auto simp: typed_def)
  have "takeWhile (\<lambda>c. c \<noteq> NUL) (l @ newline) = l @ newline"
    using l(4) by (subst takeWhile_eq_all_conv) (auto simp: newline_def NUL_def)
  then have "line_text (l @ newline) = l" using l(1) by (auto simp: line_text_def newline_def takeWhile_append)
  then show ?case
    using chat_messages_step(2) [OF take_line_typed [OF l(1,2)], where user = user] l(3) Cons by simp
qed (simp add: chat_messages_step)

section \<open>Properties\<close>

text \<open>
  C24. The sender window.  Started with a printed endpoint and a user name, whatever is typed and however the system calls
  answer, the program returns 0 or 1 without leaving its buffers; it sends to no other endpoint; its datagrams are,
  in order, the first of the typed non-empty lines (cut at 511 bytes), each as \<open>user: text\<close>
  and at most 511 bytes; and all of them when it returns 0 and no call of \<open>sendto\<close> failed.  The only process
  id it reports is its own, as that of a sender.
\<close>

theorem sender_window_correct:
  assumes "chat_os_ok os" and "NUL \<notin> set user" and "length user < 2 ^ 30"
  shows "\<exists>rc w' evs n. chat_sender_main os [prog, ip_text a, decimal (unat p), user] w = Some (rc, w')
    \<and> w_trace w' = w_trace w @ evs
    \<and> sent_datagrams evs = take n (map (\<lambda>m. (m, a, htons p)) (chat_messages user (w_stdin w)))
    \<and> (\<forall>(m, _) \<in> set (sent_datagrams evs). length m \<le> 511)
    \<and> (rc = 0 \<and> sends_accepted os \<longrightarrow> map fst (sent_datagrams evs) = chat_messages user (w_stdin w))
    \<and> (rc = 0 \<or> rc = 1 \<and> sent_datagrams evs = [])
    \<and> (\<forall>q msg. Ev_Report q msg \<in> set evs \<longrightarrow> msg = \<lparr>m_role = CHAT_ROLE_SENDER, m_pid = co_getpid os\<rparr>)"
proof -
  obtain rc w' evs n where r: "chat_sender_main os [prog, ip_text a, decimal (unat p), user] w = Some (rc, w')"
      "w_trace w' = w_trace w @ evs"
      "sent_datagrams evs = take n (map (\<lambda>m. (m, a, htons p)) (chat_messages user (w_stdin w)))"
      "rc = 0 \<and> sends_accepted os \<longrightarrow> length (chat_messages user (w_stdin w)) \<le> n" "rc = 0 \<or> rc = 1 \<and> n = 0"
      "\<forall>q msg. Ev_Report q msg \<in> set evs \<longrightarrow> msg = \<lparr>m_role = CHAT_ROLE_SENDER, m_pid = co_getpid os\<rparr>"
    by (rule sender_run [OF assms port_arg_text [of p], of prog "ip_text a" w, unfolded inet_addr_text]) blast
  have "\<forall>m \<in> set (chat_messages user (w_stdin w)). length m \<le> 511"
    by (auto simp: chat_messages_def chat_text_def config_defs)
  then have "\<forall>(m, _) \<in> set (sent_datagrams evs). length m \<le> 511" unfolding r(3) by (auto dest!: in_set_takeD)
  moreover have "map fst (sent_datagrams evs) = chat_messages user (w_stdin w)" if "rc = 0 \<and> sends_accepted os"
    using r(4) that unfolding r(3) by (simp add: o_def)
  moreover have "rc = 0 \<or> rc = 1 \<and> sent_datagrams evs = []" using r(3,5) by auto
  ultimately show ?thesis using r(1-3,6) by blast
qed

text \<open>
  C25. The receiver window.  Started with a printed endpoint, for any number of datagrams and whatever they hold,
  the program never leaves its buffer; it binds only the group's port and joins only the group's address; it reaches
  its loop only after both; and every line it prints for a datagram is shorter than 512 bytes.  The only process
  id it reports is its own, as that of a receiver.
\<close>

theorem receiver_window_correct:
  assumes "chat_os_ok os"
  shows "\<exists>code w' evs. chat_receiver_main k os [prog, ip_text a, decimal (unat p)] w = Some (code, w')
    \<and> w_trace w' = w_trace w @ evs
    \<and> (\<forall>fd addr q. Ev_Bind fd addr q \<in> set evs \<longrightarrow> addr = INADDR_ANY \<and> q = htons p)
    \<and> (\<forall>fd addr. Ev_Membership fd addr \<in> set evs \<longrightarrow> addr = a)
    \<and> (code \<noteq> Some 1 \<longrightarrow> (\<exists>fd pre post. evs = pre @ [Ev_Bind fd INADDR_ANY (htons p), Ev_Membership fd a] @ post
         \<and> (\<forall>e \<in> set (tl post). case e of Ev_Print t \<Rightarrow> length t \<le> CONF_CHAT_MSG_MAX | Ev_Error _ \<Rightarrow> True | Ev_Close _ \<Rightarrow> True | _ \<Rightarrow> False)))
    \<and> (\<forall>q msg. Ev_Report q msg \<in> set evs \<longrightarrow> msg = \<lparr>m_role = CHAT_ROLE_RECEIVER, m_pid = co_getpid os\<rparr>)"
proof -
  let ?ip = "ip_text a" and ?w1 = "ChatIpc_ReportPid os CHAT_ROLE_RECEIVER w"
  let ?argv = "[prog, ?ip, decimal (unat p)]"
  obtain evs1 where r: "w_trace ?w1 = w_trace w @ evs1"
      "\<forall>q msg. Ev_Report q msg \<in> set evs1 \<longrightarrow> msg = \<lparr>m_role = CHAT_ROLE_RECEIVER, m_pid = co_getpid os\<rparr>"
      "\<forall>e \<in> set evs1. case e of Ev_Bind _ _ _ \<Rightarrow> False | Ev_Membership _ _ \<Rightarrow> False | _ \<Rightarrow> True"
    using report_pid [of os CHAT_ROLE_RECEIVER w] by metis
  show ?thesis
  proof (cases rule: join_cases [of os ?ip p ?w1])
    case failed: (failed w2 evs2)
    have "chat_receiver_main k os ?argv w = Some (Some 1, w2)" using failed(1) by (simp add: chat_receiver_main_def port_arg_text)
    moreover have "w_trace w2 = w_trace w @ evs1 @ evs2" using failed(2) r(1) by simp
    ultimately show ?thesis using r(2,3) failed(3) [unfolded inet_addr_text] by fastforce
  next
    case joined: (joined fd w2)
    let ?b = "''Listening on '' @ ?ip @ '':'' @ decimal (unat p) @ ''  (close this window to stop)'' @ newline"
    let ?w3 = "c_print ?b w2"
    have "length (co_uninit os CONF_CHAT_MSG_MAX (w_sys ?w3)) = CONF_CHAT_MSG_MAX" using assms by (simp add: chat_os_ok_def)
    from receive_loop_safe [OF assms this, of k fd ?w3] obtain ended w4 evs where
      l: "receive_loop k os fd (co_uninit os CONF_CHAT_MSG_MAX (w_sys ?w3)) ?w3 = Some (ended, w4)" "w_trace w4 = w_trace ?w3 @ evs"
        "\<forall>e \<in> set evs. (\<exists>t. e = Ev_Print (t @ newline) \<and> length t < CONF_CHAT_MSG_MAX) \<or> e = Ev_Error ''chat_receiver: recvfrom''" by blast
    define w5 evs' where "w5 = (if ended then chat_close os fd w4 else w4)" and "evs' = evs @ (if ended then [Ev_Close fd] else [])"
    have m: "chat_receiver_main k os ?argv w = Some (if ended then Some 0 else None, w5)"
      using joined(1,2) l(1) by (simp add: chat_receiver_main_def port_arg_text w5_def)
    define E where "E = evs1 @ [Ev_Bind fd INADDR_ANY (htons p), Ev_Membership fd a] @ Ev_Print ?b # evs'"
    have tr: "w_trace w5 = w_trace w @ E" using r(1) joined(4) l(2) by (simp add: inet_addr_text w5_def evs'_def E_def)
    have ev: "\<forall>e \<in> set evs'. case e of Ev_Print t \<Rightarrow> length t \<le> CONF_CHAT_MSG_MAX | Ev_Error _ \<Rightarrow> True | Ev_Close _ \<Rightarrow> True | _ \<Rightarrow> False"
      using l(3) by (auto simp: newline_def evs'_def)
    have no: "Ev_Bind f x y \<notin> set evs1 \<union> set evs'" "Ev_Membership f x \<notin> set evs1 \<union> set evs'" "Ev_Report q msg \<notin> set evs'" for f x y q msg
      using r(3) ev by fastforce+
    have "\<forall>fd addr q. Ev_Bind fd addr q \<in> set E \<longrightarrow> addr = INADDR_ANY \<and> q = htons p"
      "\<forall>fd addr. Ev_Membership fd addr \<in> set E \<longrightarrow> addr = a"
      "\<forall>q msg. Ev_Report q msg \<in> set E \<longrightarrow> msg = \<lparr>m_role = CHAT_ROLE_RECEIVER, m_pid = co_getpid os\<rparr>"
      using no r(2) by (auto simp: E_def)
    moreover have "\<exists>f pre post. E = pre @ [Ev_Bind f INADDR_ANY (htons p), Ev_Membership f a] @ post
      \<and> (\<forall>e \<in> set (tl post). case e of Ev_Print t \<Rightarrow> length t \<le> CONF_CHAT_MSG_MAX | Ev_Error _ \<Rightarrow> True | Ev_Close _ \<Rightarrow> True | _ \<Rightarrow> False)"
      unfolding E_def by (rule exI [of _ fd], rule exI [of _ evs1], rule exI [of _ "Ev_Print ?b # evs'"]) (use ev in simp)
    ultimately show ?thesis using m tr
      by (intro exI [of _ "if ended then Some 0 else None"] exI [of _ w5] exI [of _ E] conjI impI) assumption+
  qed
qed

text \<open>Calls that all succeed, with an empty socket.\<close>

definition ref_chat_os :: "'s chat_os" where
  "ref_chat_os =
     \<lparr>co_uninit = (\<lambda>n _. replicate n NUL), co_getpid = 100, co_mq_open = (\<lambda>s. (3, s)), co_mq_send = (\<lambda>_ _ s. (0, s)),
      co_mq_close = (\<lambda>_ s. s), co_socket = (\<lambda>s. (4, s)), co_reuseaddr = (\<lambda>_ s. (0, s)), co_bind = (\<lambda>_ _ _ s. (0, s)),
      co_add_membership = (\<lambda>_ _ s. (0, s)), co_sendto = (\<lambda>_ b _ _ s. (int (length b), s)),
      co_recvfrom = (\<lambda>_ _ s. ((- 1, []), s)), co_close = (\<lambda>_ s. s)\<rparr>"

lemma ref_chat_os_ok: "chat_os_ok ref_chat_os" "sends_accepted ref_chat_os" "\<forall>s. 0 \<le> fst (co_socket ref_chat_os s)"
  by (simp_all add: chat_os_ok_def sends_accepted_def ref_chat_os_def)

theorem sender_window_correct_witness:
  "\<exists>rc w' evs n. chat_sender_main ref_chat_os [''chat_sender'', ip_text 16777455, decimal (unat (5000 :: 16 word)), ''ann'']
       \<lparr>w_sys = (), w_stdin = ''hi'' @ newline, w_trace = [], w_live = []\<rparr> = Some (rc, w')
     \<and> w_trace w' = evs
     \<and> sent_datagrams evs = take n (map (\<lambda>m. (m, 16777455, htons 5000)) (chat_messages ''ann'' (''hi'' @ newline)))"
proof -
  have "NUL \<notin> set ''ann''" "length ''ann'' < 2 ^ 30" by (simp_all add: NUL_def)
  from sender_window_correct [OF ref_chat_os_ok(1) this, of "''chat_sender''" 16777455 5000
      "\<lparr>w_sys = (), w_stdin = ''hi'' @ newline, w_trace = [], w_live = []\<rparr>"] show ?thesis by auto
qed

theorem receiver_window_correct_witness:
  "\<exists>code w' evs. chat_receiver_main 3 ref_chat_os [''chat_receiver'', ip_text 16777455, decimal (unat (5000 :: 16 word))]
       \<lparr>w_sys = (), w_stdin = [], w_trace = [], w_live = []\<rparr> = Some (code, w')
     \<and> w_trace w' = evs \<and> (\<forall>fd addr. Ev_Membership fd addr \<in> set evs \<longrightarrow> addr = 16777455)"
  using receiver_window_correct [OF ref_chat_os_ok(1), of 3 "''chat_receiver''" 16777455 5000
      "\<lparr>w_sys = (), w_stdin = [], w_trace = [], w_live = []\<rparr>"] by auto

end
