(* ===== verification/Chat_Network.thy ===== *)
theory Chat_Network
  imports Chat_Windows_Properties
begin

text \<open>
  Sender and receiver windows on one network.  Every line typed in a sender window is printed by the receiver window of
  every process that has joined the same endpoint, and by no other.
\<close>

section \<open>Sender and receiver together\<close>

text \<open>
  A local network with any number of window processes, told apart by a number.  The socket of a process gets the
  datagrams sent to the address it has joined and the port it is bound to, in order, from the moment it
  has joined; when nothing is left, \<open>recvfrom\<close> fails (the client ends the window).  The other calls are
  answered by \<open>base\<close>.
\<close>

record lan_socket =
  lan_group :: "32 word option"
  lan_port :: "16 word option"
  lan_queue :: "string list"

type_synonym lan = "nat \<Rightarrow> lan_socket"

definition noting :: "nat \<Rightarrow> (lan_socket \<Rightarrow> lan_socket) \<Rightarrow> ('s \<Rightarrow> int \<times> 's) \<Rightarrow> lan \<times> 's \<Rightarrow> int \<times> lan \<times> 's" where
  "noting i upd f s = (case f (snd s) of (rc, r) \<Rightarrow> (rc, if rc < 0 then fst s else (fst s)(i := upd (fst s i)), r))"

definition deliver :: "lan \<Rightarrow> (string \<times> 32 word \<times> 16 word) list \<Rightarrow> lan" where
  "deliver net ds =
     (\<lambda>i. (net i)\<lparr>lan_queue := lan_queue (net i)
                     @ map fst (filter (\<lambda>(b, a, p). lan_group (net i) = Some a \<and> lan_port (net i) = Some p) ds)\<rparr>)"

definition on_lan :: "nat \<Rightarrow> 's chat_os \<Rightarrow> (lan \<times> 's) chat_os" where
  "on_lan i base =
     \<lparr>co_uninit = (\<lambda>n s. co_uninit base n (snd s)), co_getpid = co_getpid base, co_mq_open = on_rest (co_mq_open base),
      co_mq_send = (\<lambda>q m. on_rest (co_mq_send base q m)), co_mq_close = (\<lambda>q s. (fst s, co_mq_close base q (snd s))),
      co_socket = on_rest (co_socket base), co_reuseaddr = (\<lambda>fd. on_rest (co_reuseaddr base fd)),
      co_bind = (\<lambda>fd a p. noting i (\<lambda>s. s\<lparr>lan_port := Some p\<rparr>) (co_bind base fd a p)),
      co_add_membership = (\<lambda>fd a. noting i (\<lambda>s. s\<lparr>lan_group := Some a\<rparr>) (co_add_membership base fd a)),
      co_sendto = (\<lambda>fd b a p s. (int (length b), deliver (fst s) [(b, a, p)], snd s)),
      co_recvfrom = (\<lambda>fd len s.
         case lan_queue (fst s i) of
           [] \<Rightarrow> ((- 1, []), s)
         | b # q \<Rightarrow> ((int (min len (length b)), b), (fst s)(i := (fst s i)\<lparr>lan_queue := q\<rparr>), snd s)),
      co_close = (\<lambda>fd s. (fst s, co_close base fd (snd s)))\<rparr>"

lemma on_lan_ok: "chat_os_ok base \<Longrightarrow> chat_os_ok (on_lan i base)" "sends_accepted (on_lan i base)"
  by (auto simp: chat_os_ok_def on_lan_def sends_accepted_def split: list.splits)

lemma deliver_append [simp]: "deliver net [] = net" "deliver (deliver net xs) ys = deliver net (xs @ ys)"
  by (simp_all add: deliver_def)

lemma lan_rest:
  "call (on_rest f) evs w = (rc, w') \<Longrightarrow> fst (w_sys w') = fst (w_sys w)"
  by (auto simp: call_def on_rest_def split: prod.splits)

text \<open>The network receives what the trace says was sent.\<close>

lemma send_line_lan:
  assumes "send_line (on_lan i base) fd dest user line w = Some (go, line', w')"
  shows "\<exists>evs. w_trace w' = w_trace w @ evs \<and> fst (w_sys w') = deliver (fst (w_sys w)) (sent_datagrams evs)"
  using assms
  by (auto simp: send_line_def Let_def call_def on_lan_def split: Option.bind_splits if_splits prod.splits)

lemma send_lines_lan:
  assumes "send_lines (on_lan i base) fd dest user line w = Some w'"
  shows "\<exists>evs. w_trace w' = w_trace w @ evs \<and> fst (w_sys w') = deliver (fst (w_sys w)) (sent_datagrams evs)"
  using assms
proof (induction "length (w_stdin w)" arbitrary: w line rule: less_induct)
  case less
  from less.prems obtain got line1 w1 where f: "fgets line CONF_CHAT_MSG_MAX w = Some (got, line1, w1)"
    by (auto simp: send_lines.simps [of _ _ _ _ line w] split: Option.bind_splits)
  then have w1: "w_sys w1 = w_sys w" "w_trace w1 = w_trace w"
    by (auto simp: fgets_def split: prod.splits if_splits Option.bind_splits)
  show ?case
  proof (cases got)
    case False
    then show ?thesis using less.prems f w1 by (simp add: send_lines.simps [of _ _ _ _ line w])
  next
    case True
    then obtain go line2 w2 where s: "send_line (on_lan i base) fd dest user line1 w1 = Some (go, line2, w2)"
      using less.prems f by (auto simp: send_lines.simps [of _ _ _ _ line w] split: Option.bind_splits)
    obtain evs where e: "w_trace w2 = w_trace w @ evs" "fst (w_sys w2) = deliver (fst (w_sys w)) (sent_datagrams evs)"
      using send_line_lan [OF s] w1 by auto
    show ?thesis
    proof (cases go)
      case False
      then show ?thesis using less.prems f s True e by (simp add: send_lines.simps [of _ _ _ _ line w])
    next
      case go: True
      have "length (w_stdin w2) < length (w_stdin w)"
        using fgets_consumes [of line CONF_CHAT_MSG_MAX w line1 w1] f True send_line_stdin [OF s] by (simp add: config_defs)
      moreover have "send_lines (on_lan i base) fd dest user line2 w2 = Some w'"
        using less.prems f s True go by (simp add: send_lines.simps [of _ _ _ _ line w])
      ultimately show ?thesis using less.hyps [of w2 line2] e by (auto intro: exI [of _ "evs @ _"])
    qed
  qed
qed

lemma report_lan: "fst (w_sys (ChatIpc_ReportPid (on_lan i base) role w)) = fst (w_sys w)"
  by (auto simp: ChatIpc_ReportPid_def Let_def on_lan_def dest!: lan_rest split: prod.splits)

lemma sender_lan:
  assumes "chat_sender_main (on_lan i base) [prog, ip, port, user] w = Some (rc, w')"
  shows "\<exists>evs. w_trace w' = w_trace w @ evs \<and> fst (w_sys w') = deliver (fst (w_sys w)) (sent_datagrams evs)"
proof -
  let ?os = "on_lan i base"
  let ?w1 = "ChatIpc_ReportPid ?os CHAT_ROLE_SENDER w"
  obtain evs1 where r: "w_trace ?w1 = w_trace w @ evs1" "sent_datagrams evs1 = []" using report_pid [of ?os CHAT_ROLE_SENDER w] by metis
  obtain fd w2 where s: "call (co_socket ?os) [] ?w1 = (fd, w2)" by fastforce
  have "co_socket ?os = on_rest (co_socket base)" by (simp add: on_lan_def)
  then have w2: "w_trace w2 = w_trace w @ evs1" "fst (w_sys w2) = fst (w_sys w)"
    using call_frame(3) [OF s] r(1) lan_rest [of "co_socket base" "[]" ?w1] s report_lan [of i base CHAT_ROLE_SENDER w] by simp_all
  obtain p where p: "port_arg port = Some p" using assms by (auto simp: chat_sender_main_def split: Option.bind_splits)
  show ?thesis
  proof (cases "fd < 0")
    case True
    then show ?thesis using assms s p w2 r(2) by (auto simp: chat_sender_main_def CreateMulticastSender_def)
  next
    case False
    then obtain b w3 dest line where l: "send_lines ?os fd dest user line (c_print b w2) = Some w3" "w' = chat_close ?os fd w3"
      using assms s p by (auto simp: chat_sender_main_def CreateMulticastSender_def split: Option.bind_splits)
    obtain evs where e: "w_trace w3 = w_trace w @ evs1 @ [Ev_Print b] @ evs"
        "fst (w_sys w3) = deliver (fst (w_sys w)) (sent_datagrams evs)"
      using send_lines_lan [OF l(1)] w2 by auto
    then show ?thesis using l(2) r(2) by (intro exI [of _ "evs1 @ [Ev_Print b] @ evs @ [Ev_Close fd]"]) (simp add: on_lan_def)
  qed
qed

lemma join_lan:
  assumes "CreateAndJoinMulticast (on_lan i base) ip p w = (fd, w')" and "0 \<le> fd"
  shows "fst (w_sys w') = (fst (w_sys w))(i := (fst (w_sys w) i)\<lparr>lan_port := Some (htons p), lan_group := Some (inet_addr ip)\<rparr>)"
  using assms by (auto simp: CreateAndJoinMulticast_def Let_def on_lan_def call_def on_rest_def noting_def split: prod.splits if_splits)

text \<open>The receiver prints the datagrams that wait for it.\<close>

lemma receive_queue:
  assumes "chat_os_ok base" and "length buf = CONF_CHAT_MSG_MAX" and "lan_queue (fst (w_sys w) i) = q"
    and "\<forall>b \<in> set q. NUL \<notin> set b \<and> length b < CONF_CHAT_MSG_MAX" and "length q < k"
  shows "\<exists>w'. receive_loop k (on_lan i base) fd buf w = Some (True, w')
    \<and> w_trace w' = w_trace w @ map (\<lambda>b. Ev_Print (b @ newline)) q @ [Ev_Error ''chat_receiver: recvfrom'']"
  using assms(2-)
proof (induction k arbitrary: buf w q)
  case (Suc k)
  note ok = on_lan_ok(1) [OF assms(1), of i]
  show ?case
  proof (cases q)
    case Nil
    then show ?thesis using Suc.prems(2) by (simp add: chat_recvfrom_def on_lan_def)
  next
    case (Cons b q')
    have b: "NUL \<notin> set b" "min (CONF_CHAT_MSG_MAX - 1) (length b) = length b" using Suc.prems(3) Cons by auto
    have r: "co_recvfrom (on_lan i base) fd (CONF_CHAT_MSG_MAX - 1) (w_sys w)
        = ((int (length b), b), (fst (w_sys w))(i := (fst (w_sys w) i)\<lparr>lan_queue := q'\<rparr>), snd (w_sys w))"
      using Suc.prems(2) Cons b(2) by (simp add: on_lan_def)
    show ?thesis
    proof (cases rule: receive_step [OF ok Suc.prems(1), of fd w k])
      case (1 n w')
      then show ?thesis using r by (auto simp: chat_recvfrom_def split: if_splits Option.bind_splits)
    next
      case (2 n bytes s buf')
      have e: "n = length b" "bytes = b" "s = ((fst (w_sys w))(i := (fst (w_sys w) i)\<lparr>lan_queue := q'\<rparr>), snd (w_sys w))" using 2(1) r by auto
      have "takeWhile (\<lambda>c. c \<noteq> NUL) b = b" using b(1) by (auto simp: takeWhile_eq_all_conv)
      then have loop: "receive_loop (Suc k) (on_lan i base) fd buf w = receive_loop k (on_lan i base) fd buf' (c_print (b @ newline) (w\<lparr>w_sys := s\<rparr>))"
        using 2(4) unfolding e(1,2) by (metis order_refl take_all)
      show ?thesis
        unfolding loop using Suc.IH [OF 2(2), of "c_print (b @ newline) (w\<lparr>w_sys := s\<rparr>)" q'] Suc.prems(3,4) Cons by (simp add: e(3))
    qed
  qed
qed simp

text \<open>The socket of a process is as its own call of \<open>CreateAndJoinMulticast\<close> left it.\<close>

definition has_joined :: "'s chat_os \<Rightarrow> string \<Rightarrow> 16 word \<Rightarrow> lan \<Rightarrow> nat \<Rightarrow> bool" where
  "has_joined base ip p net i \<longleftrightarrow>
     (\<exists>w fd w'. CreateAndJoinMulticast (on_lan i base) ip p w = (fd, w') \<and> 0 \<le> fd
        \<and> lan_queue (fst (w_sys w) i) = [] \<and> net i = fst (w_sys w') i)"

lemma has_joined_socket:
  "has_joined base ip p net i \<Longrightarrow> net i = \<lparr>lan_group = Some (inet_addr ip), lan_port = Some (htons p), lan_queue = []\<rparr>"
  by (auto simp: has_joined_def dest!: join_lan)

text \<open>
  A typed line is printed in the windows of the group and in no others.  Some processes have joined an endpoint
  through \<open>CreateAndJoinMulticast\<close>; a sender of the same endpoint is started by some user and non-empty lines of at
  most 510 characters are typed into it.  The sender returns 0; each of these receivers then prints exactly the
  lines in their order, each as \<open>user: text\<close> (cut at 511 bytes), before it finds nothing more to read; and the
  socket of a process on another address or port gets nothing.
\<close>

lemma typed_lines_delivered:
  assumes "chat_os_ok rb" and "chat_os_ok sb" and "\<forall>s. 0 \<le> fst (co_socket sb s)" and "NUL \<notin> set user" and "length user < 2 ^ 30"
    and "\<forall>l \<in> set ls. typed CONF_CHAT_MSG_MAX l" and "w_stdin ws = concat (map (\<lambda>l. l @ newline) ls)"
    and "\<forall>i \<in> R. has_joined rb ip p (fst (w_sys ws)) i" and "length buf = CONF_CHAT_MSG_MAX" and "length ls < k"
  shows "\<exists>ws'. chat_sender_main (on_lan j sb) [prog, ip, decimal (unat p), user] ws = Some (0, ws')
    \<and> (\<forall>i \<in> R. \<forall>fd wr r. \<exists>wr'. receive_loop k (on_lan i rb) fd buf (wr\<lparr>w_sys := (fst (w_sys ws'), r)\<rparr>) = Some (True, wr')
         \<and> w_trace wr' = w_trace wr @ map (\<lambda>l. Ev_Print (take 511 (user @ '': '' @ l) @ newline)) ls @ [Ev_Error ''chat_receiver: recvfrom''])
    \<and> (\<forall>i. lan_group (fst (w_sys ws) i) \<noteq> Some (inet_addr ip) \<or> lan_port (fst (w_sys ws) i) \<noteq> Some (htons p)
         \<longrightarrow> fst (w_sys ws') i = fst (w_sys ws) i)"
proof -
  let ?dest = "\<lambda>m. (m, inet_addr ip, htons p)" and ?ms = "map (chat_text user) ls" and ?net = "fst (w_sys ws)"
  have sock: "\<forall>s. 0 \<le> fst (co_socket (on_lan j sb) s)" using assms(3) by (simp add: on_lan_def)
  have ms: "chat_messages user (w_stdin ws) = ?ms" using chat_messages_typed [OF assms(6)] assms(7) by simp
  obtain rc ws' evs n where r: "chat_sender_main (on_lan j sb) [prog, ip, decimal (unat p), user] ws = Some (rc, ws')" "w_trace ws' = w_trace ws @ evs"
      "sent_datagrams evs = take n (map ?dest ?ms)" "rc = 0 \<and> sends_accepted (on_lan j sb) \<longrightarrow> length ?ms \<le> n" "(\<forall>s. 0 \<le> fst (co_socket (on_lan j sb) s)) \<longrightarrow> rc = 0"
    by (rule sender_run [OF on_lan_ok(1) [OF assms(2), of j] assms(4,5) port_arg_text [of p], of prog ip ws, unfolded ms]) blast
  have rc: "rc = 0" and sent: "sent_datagrams evs = map ?dest ?ms" using r(3-5) sock on_lan_ok(2) [of j sb] by auto
  obtain evs' where e: "w_trace ws' = w_trace ws @ evs'" "fst (w_sys ws') = deliver ?net (sent_datagrams evs')"
    using sender_lan [OF r(1)] by blast
  then have net: "fst (w_sys ws') = deliver ?net (map ?dest ?ms)" using r(2) sent by simp
  have q: "\<forall>b \<in> set ?ms. NUL \<notin> set b \<and> length b < CONF_CHAT_MSG_MAX"
    using assms(4,6) by (auto simp: chat_text_def config_defs typed_def NUL_def dest!: in_set_takeD)
  have "\<exists>wr'. receive_loop k (on_lan i rb) fd buf (wr\<lparr>w_sys := (fst (w_sys ws'), t)\<rparr>) = Some (True, wr')
         \<and> w_trace wr' = w_trace wr @ map (\<lambda>l. Ev_Print (take 511 (user @ '': '' @ l) @ newline)) ls @ [Ev_Error ''chat_receiver: recvfrom'']"
    if "i \<in> R" for i fd t and wr :: "(lan \<times> 'a) world"
  proof -
    have "lan_queue (fst (w_sys ws') i) = ?ms"
      using has_joined_socket [OF bspec [OF assms(8) that]] by (simp add: net deliver_def filter_map o_def)
    then show ?thesis
      using receive_queue [OF assms(1,9) _ q, of "wr\<lparr>w_sys := (fst (w_sys ws'), t)\<rparr>" i k fd] assms(10)
      by (auto simp: o_def chat_text_def config_defs)
  qed
  moreover have "fst (w_sys ws') i = ?net i"
    if "lan_group (?net i) \<noteq> Some (inet_addr ip) \<or> lan_port (?net i) \<noteq> Some (htons p)" for i
    using that by (auto simp: net deliver_def filter_map o_def)
  ultimately show ?thesis using r(1) rc by blast
qed

end
