(* ===== verification/Chat_Rooms.thy ===== *)
theory Chat_Rooms
  imports Chat_Network
begin

text \<open>
  Rooms end to end: two clients, the server and the chat windows.  A user joins and leaves a group that exists on the
  server, and a group created by one user and joined by another carries the lines of the one to the windows of both.
\<close>

section \<open>Joining and leaving on the server\<close>

lemma group_of_run:
  assumes "chat_server S" and "server_run S exact sm" and "sv_groups (sm_view S sm) g = Some grp"
  shows "m_port (group_endpoint grp) \<noteq> 0" and "card (members (sv_users (sm_view S sm)) g) \<le> group_refCount grp"
    and "exact \<Longrightarrow> card (members (sv_users (sm_view S sm)) g) = group_refCount grp" and "0 < group_refCount grp"
proof -
  have "view_ok exact (sm_view S sm)" using chat_server.run_invariant [OF assms(1,2)] by simp
  then have g: "group_ok exact (sv_users (sm_view S sm)) g grp" using view_okD(4) assms(3) by blast
  then obtain i where "i < CONF_MULTICAST_MAX_GROUPS" "group_endpoint grp = group_endpoint (new_group g i)" by (auto simp: group_ok_def)
  then show "m_port (group_endpoint grp) \<noteq> 0" using group_port by simp
  show "card (members (sv_users (sm_view S sm)) g) \<le> group_refCount grp" "exact \<Longrightarrow> card (members (sv_users (sm_view S sm)) g) = group_refCount grp"
    "0 < group_refCount grp" using g by (auto simp: group_ok_def)
qed

lemma join_service:
  assumes "sv_groups v g = Some grp" and "db_session (sv_users v) fd = Some u" and "g \<notin> set (db_groups (sv_users v) u)"
    and "service mem_ok True order v fd (Req_JoinGroup g) = (v', status, payload)"
  shows "status = CHAT_OK \<and> payload = terminated (endpoint_text (group_endpoint grp))
    \<and> sv_groups v' = (sv_groups v)(g \<mapsto> grp\<lparr>group_refCount := group_refCount grp + 1\<rparr>)
    \<and> sv_users v' = (sv_users v)\<lparr>db_groups := (db_groups (sv_users v))(u := db_groups (sv_users v) u @ [g])\<rparr>"
  using assms by (auto simp: service_join_def spec_join_def spec_increase_def endpoint_reply_def)

lemma leave_service:
  assumes "sv_groups v g = Some grp" and "db_session (sv_users v) fd = Some u" and "g \<in> set (db_groups (sv_users v) u)"
    and "service mem_ok True order v fd (Req_LeaveGroup g) = (v', status, payload)"
  shows "status = CHAT_OK" and "payload = []" and "sv_groups v' = (sv_groups v)(g := drop_ref grp)"
    and "sv_users v' = (sv_users v)\<lparr>db_groups := (db_groups (sv_users v))(u := remove1 g (db_groups (sv_users v) u))\<rparr>"
  using assms by (auto simp: spec_leave_def spec_leave_one_eq)

section \<open>End to end\<close>

text \<open>
  C7. Joining a group works end to end.  The logged-in user of a client types the name of a group that is alive and that he is not
  a member of.  Afterwards the server has him as a member and one more reference of the group, whose endpoint stays
  what it was; the client has launched a receiver window on exactly that endpoint, and when both windows report,
  the sender window was launched on it under the user's name.
\<close>

theorem join_group_end_to_end:
  assumes "group_windows M" and "chat_server S" and "server_run S exact sm" and "env_ok E" and "env_mem E = mem_ok"
    and "client_ready M base app w user" and "typed 128 g" and "w_stdin w = g @ newline @ rest" and "w_sys w = ((sm, pend), r)"
    and "db_session (sv_users (sm_view S sm)) (m_fdConnection rec) = Some u" and "sv_groups (sm_view S sm) g = Some grp"
    and "g \<notin> set (db_groups (sv_users (sm_view S sm)) u)"
  shows "\<exists>app' gw' w' sm' r'. HandleGroupAction M (link S E rec base) app OPCODE_JOIN_GROUP w = Some (app', w')
    \<and> w_sys w' = ((sm', []), r') \<and> server_run S exact sm'
    \<and> sv_groups (sm_view S sm') = (sv_groups (sm_view S sm))(g \<mapsto> grp\<lparr>group_refCount := group_refCount grp + 1\<rparr>)
    \<and> g \<in> set (db_groups (sv_users (sm_view S sm')) u)
    \<and> (let ip = ip_text (m_multicastAddr (group_endpoint grp)); port = m_port (group_endpoint grp)
       in Ev_System (receiver_command ip port) \<in> set (w_trace w') \<and> ca_windows app' = Some gw'
          \<and> (windows_view M gw' g \<noteq> None \<longrightarrow> Ev_System (sender_command ip port user) \<in> set (w_trace w')))"
proof -
  let ?V = "(sv_groups (sm_view S sm))(g \<mapsto> grp\<lparr>group_refCount := group_refCount grp + 1\<rparr>)"
  have sv: "status = CHAT_OK \<and> payload = terminated (endpoint_text (group_endpoint grp))
      \<and> sv_groups v' = ?V \<and> g \<in> set (db_groups (sv_users v') u)"
    if "service mem_ok True order (sm_view S sm) (m_fdConnection rec) (Req_JoinGroup g) = (v', status, payload)" for order v' status payload
    using join_service [OF assms(11,10,12) that] by simp
  show ?thesis
    by (rule enter_room [OF assms(1-9) disjI2 [OF refl] sv group_of_run(1) [OF assms(2,3,11)]])
      (assumption, unfold request_opcode.simps Let_def, blast)
qed

text \<open>
  C8. Leaving a group works end to end.  The user of a client whose windows of the group are tracked types the name of a group he
  is in.  The server drops the membership and one reference, and the group with its last one; the client
  signals exactly the two windows of that group and forgets them, and all its other windows stay.
\<close>

theorem leave_group_end_to_end:
  assumes "group_windows M" and "chat_server S" and "server_run S exact sm" and "env_ok E" and "env_mem E = mem_ok"
    and "client_ready M base app w user" and "typed 128 g" and "w_stdin w = g @ newline @ rest" and "w_sys w = ((sm, pend), r)"
    and "db_session (sv_users (sm_view S sm)) (m_fdConnection rec) = Some u" and "sv_groups (sm_view S sm) g = Some grp"
    and "g \<in> set (db_groups (sv_users (sm_view S sm)) u)" and "ca_windows app = Some gw" and "windows_view M gw g = Some pids"
  shows "\<exists>app' gw' w' sm' r' evs. HandleGroupAction M (link S E rec base) app OPCODE_LEAVE_GROUP w = Some (app', w')
    \<and> w_sys w' = ((sm', []), r') \<and> server_run S exact sm'
    \<and> sv_groups (sm_view S sm') = (sv_groups (sm_view S sm))
         (g := if group_refCount grp = 1 then None else Some (grp\<lparr>group_refCount := group_refCount grp - 1\<rparr>))
    \<and> g \<notin> set (db_groups (sv_users (sm_view S sm')) u)
    \<and> ca_windows app' = Some gw' \<and> windows_inv M gw' w' \<and> windows_view M gw' = (windows_view M gw)(g := None)
    \<and> w_trace w' = w_trace w @ evs @ map Ev_Kill (filter (\<lambda>p. 0 < p) [m_sender pids, m_receiver pids])
    \<and> (\<forall>p. Ev_Kill p \<notin> set evs)"
proof -
  obtain c where ready: "client_os_ok base" "ca_controller app = Some c" "cc_state c = CLIENT_STATE_RUNNING" "windows_inv M gw w"
    using assms(6,13) by (auto simp: client_ready_def)
  obtain sm' order status payload resp w3 evs where x: "server_run S exact sm'"
      "service mem_ok True order (sm_view S sm) (m_fdConnection rec) (Req_LeaveGroup g) = (sm_view S sm', status, payload)"
      "w_sys w3 = ((sm', []), r)" "w_live w3 = w_live w" "prints evs"
      "status < 128 \<and> length payload < 128 \<longrightarrow> (\<exists>tail. m_value resp = payload @ tail)
        \<and> w_trace w3 = w_trace w @ [Ev_Print ''  group name: '', Ev_Send (cc_fd c) (request_frame (Req_LeaveGroup g))] @ evs
        \<and> HandleGroupAction M (link S E rec base) app OPCODE_LEAVE_GROUP w
        = (if status \<noteq> CHAT_OK then Some (app, w3) else group_action_done M (link S E rec base) app OPCODE_LEAVE_GROUP g resp w3)"
    by (rule linked_group_request [OF assms(2-5) ready(1-3) assms(7-9), of "Req_LeaveGroup g" rec M]) (simp, unfold request_opcode.simps, blast)
  note sv = leave_service [OF assms(11,10,12) x(2)]
  have tr: "w_trace w3 = w_trace w @ [Ev_Print ''  group name: '', Ev_Send (cc_fd c) (request_frame (Req_LeaveGroup g))] @ evs"
      "HandleGroupAction M (link S E rec base) app OPCODE_LEAVE_GROUP w = group_action_done M (link S E rec base) app OPCODE_LEAVE_GROUP g resp w3"
    using x(6) sv(1,2) by (simp_all add: CHAT_OK_def)
  have inv: "windows_inv M gw w3" using ready(4) x(4) by (simp add: windows_inv_def owns_def)
  obtain gw' w' where cl: "GroupWindows_Close M (link S E rec base) (Some gw) (Some g) w3 = Some (GROUP_WINDOWS_SUCCESS, Some gw', w')"
      "windows_inv M gw' w'" "windows_view M gw' = (windows_view M gw)(g := None)" "w_trace w' = w_trace w3 @ kills_of pids"
    by (rule group_windows.close_hit [OF assms(1) inv assms(14)])
  have act: "HandleGroupAction M (link S E rec base) app OPCODE_LEAVE_GROUP w = Some (app\<lparr>ca_windows := Some gw'\<rparr>, w')"
    using tr(2) cl(1) assms(13) by (simp add: group_action_done_def opcode_defs)
  have sys: "w_sys w' = ((sm', []), snd (w_sys w'))" using link_close [OF cl(1)] x(3) by (metis fst_conv prod.collapse)
  have groups: "sv_groups (sm_view S sm') = (sv_groups (sm_view S sm))
         (g := if group_refCount grp = 1 then None else Some (grp\<lparr>group_refCount := group_refCount grp - 1\<rparr>))"
    using sv(3) group_of_run(4) [OF assms(2,3,11)] by (auto simp: drop_ref_def)
  have "distinct (db_groups (sv_users (sm_view S sm)) u)"
    using chat_server.run_invariant [OF assms(2,3)] by (auto dest!: view_okD(1) db_okD(4))
  then have "g \<notin> set (db_groups (sv_users (sm_view S sm')) u)" by (simp add: sv(4))
  moreover have "\<forall>p. Ev_Kill p \<notin> set ([Ev_Print ''  group name: '', Ev_Send (cc_fd c) (request_frame (Req_LeaveGroup g))] @ evs)"
    using x(5) by (auto simp: prints_def)
  ultimately show ?thesis
    using act sys x(1) groups cl(2-4) tr(1)
    by (intro exI [of _ "app\<lparr>ca_windows := Some gw'\<rparr>"] exI [of _ gw'] exI [of _ w'] exI [of _ sm'] exI [of _ "snd (w_sys w')"]
        exI [of _ "[Ev_Print ''  group name: '', Ev_Send (cc_fd c) (request_frame (Req_LeaveGroup g))] @ evs"]) (simp add: kills_of_def)
qed


section \<open>Concrete rooms\<close>

definition bob_record :: TcpConnectionRecord where
  "bob_record = ref_record\<lparr>m_fdConnection := 6\<rparr>"

lemma bob_registers:
  assumes "server_run ref_lib exact sm" and "db_password (sv_users (sm_view ref_lib sm)) ''bob'' = None" and "db_session (sv_users (sm_view ref_lib sm)) 6 = None"
  obtains sm' where "server_run ref_lib exact sm'"
    and "sv_groups (sm_view ref_lib sm') = sv_groups (sm_view ref_lib sm)"
    and "db_session (sv_users (sm_view ref_lib sm')) = (db_session (sv_users (sm_view ref_lib sm)))(6 \<mapsto> ''bob'')"
    and "db_groups (sv_users (sm_view ref_lib sm')) = db_groups (sv_users (sm_view ref_lib sm))"
proof -
  have "request_ok (Req_Register ''bob'' ''pw'')" by (simp add: request_ok_def terminated_def NUL_def)
  moreover have "reply_fits mem_ok (sm_view ref_lib sm) (m_fdConnection bob_record) (Req_Register ''bob'' ''pw'')" by (simp add: reply_fits_def)
  ultimately obtain sm' order status payload where r: "server_run ref_lib exact sm'"
      "service mem_ok True order (sm_view ref_lib sm) (m_fdConnection bob_record) (Req_Register ''bob'' ''pw'') = (sm_view ref_lib sm', status, payload)"
    using ref_request [OF assms(1)] by metis
  let ?db = "sv_users (sm_view ref_lib sm)"
  have "sm_view ref_lib sm' = (sm_view ref_lib sm)\<lparr>sv_users :=
      ?db\<lparr>db_password := (db_password ?db)(''bob'' \<mapsto> ''pw''), db_session := (db_session ?db)(6 \<mapsto> ''bob'')\<rparr>\<rparr>"
    using r(2) assms(2,3) by (auto simp: bob_record_def spec_register_def)
  with r(1) show ?thesis by (intro that [of sm']) simp_all
qed

definition user_app :: "string \<Rightarrow> (string, GroupPids) chain_map ClientApp" where
  "user_app n = ref_app\<lparr>ca_windows := Some ref_windows, ca_username := Some n\<rparr>"

abbreviation room_world :: "'a \<Rightarrow> ('a \<times> bool) world" where
  "room_world s \<equiv> \<lparr>w_sys = (s, False), w_stdin = ''room'' @ newline, w_trace = [], w_live = []\<rparr>"

lemma user_ready: "NUL \<notin> set n \<Longrightarrow> length n < 64 \<Longrightarrow> client_ready chain_ops ref_os (user_app n) (room_world s) n"
  using ref_windows_inv(1) ref_os_ok by (simp add: client_ready_def user_app_def ref_app_def windows_inv_def owns_def ref_world_def)

lemma room_typed: "typed 128 ''room''" "w_stdin (room_world s) = ''room'' @ newline @ []"
  by (simp_all add: typed_def NUL_def)

theorem join_group_end_to_end_witness:
  "\<exists>sm app' w' sm' r' grp. HandleGroupAction chain_ops (link ref_lib ref_env bob_record ref_os) (user_app ''bob'') OPCODE_JOIN_GROUP
        (room_world (sm, [])) = Some (app', w')
     \<and> w_sys w' = ((sm', []), r') \<and> sv_groups (sm_view ref_lib sm') ''room'' = Some grp \<and> group_refCount grp = 2
     \<and> Ev_System (receiver_command (ip_text (m_multicastAddr (group_endpoint grp))) (m_port (group_endpoint grp))) \<in> set (w_trace w')"
proof -
  obtain sm0 where sm0: "server_run ref_lib True sm0" "sm_view ref_lib sm0 = ann_view" using ann_server .
  obtain sm where sm: "server_run ref_lib True sm" "sv_groups (sm_view ref_lib sm) = sv_groups ann_view"
      "db_session (sv_users (sm_view ref_lib sm)) = (db_session (sv_users ann_view))(6 \<mapsto> ''bob'')"
      "db_groups (sv_users (sm_view ref_lib sm)) = db_groups (sv_users ann_view)"
    using bob_registers [OF sm0(1)] sm0(2) by (auto simp: ann_view_def)
  have b: "client_ready chain_ops ref_os (user_app ''bob'') (room_world (sm, [] :: string)) ''bob''" by (rule user_ready) (simp_all add: NUL_def)
  show ?thesis
    using join_group_end_to_end [OF windows.group_windows_axioms ref_server.chat_server_axioms sm(1) ref_env_ok b room_typed, where rec = bob_record
        and u = "''bob''" and pend = "[]" and r = False]
    by (simp add: sm bob_record_def ann_view_def Let_def) fastforce
qed

text \<open>A client of Ann that tracks the windows of her room.\<close>

lemma tracked_room:
  obtains gw where "windows_inv chain_ops gw (room_world s\<lparr>w_live := [Block_Key ''room'', Block_Pids ''room'']\<rparr>)"
    and "windows_view chain_ops gw = [''room'' \<mapsto> \<lparr>m_sender = 12, m_receiver = 11\<rparr>]"
proof -
  let ?p = "\<lparr>m_sender = 12, m_receiver = 11\<rparr>"
  obtain m where m: "gw_groups ref_windows = Some m" "HashMap_Ok chain_ops m" "hm_lookup chain_ops m = Map.empty"
    using ref_windows_inv(1) [of "[]"] ref_windows_inv(2) by (auto simp: windows_inv_def windows_view_def)
  obtain m' where m': "HashMap_Insert chain_ops True m ''room'' ?p = (MAP_SUCCESS, m')" "HashMap_Ok chain_ops m'"
      "hm_lookup chain_ops m' = (hm_lookup chain_ops m)(''room'' \<mapsto> ?p)"
    using hash_map.insert_new [OF group_windows.axioms [OF windows.group_windows_axioms] m(2), of "''room''" ?p] m(3) by auto
  have v: "windows_view chain_ops \<lparr>gw_groups = Some m', gw_queue = 3\<rparr> = [''room'' \<mapsto> ?p]"
    using m(3) m'(3) by (simp add: windows_view_def)
  show ?thesis
    by (rule that [OF _ v]) (use m'(2) v in \<open>auto simp: windows_inv_def owns_def\<close>)
qed

theorem leave_group_end_to_end_witness:
  "\<exists>sm gw app' gw' w' sm' r'. HandleGroupAction chain_ops (link ref_lib ref_env ref_record ref_os) (user_app ''ann''\<lparr>ca_windows := Some gw\<rparr>) OPCODE_LEAVE_GROUP
        (room_world (sm, [])\<lparr>w_live := [Block_Key ''room'', Block_Pids ''room'']\<rparr>) = Some (app', w')
     \<and> w_sys w' = ((sm', []), r') \<and> sv_groups (sm_view ref_lib sm') ''room'' = None
     \<and> ca_windows app' = Some gw' \<and> windows_view chain_ops gw' = Map.empty \<and> {p. Ev_Kill p \<in> set (w_trace w')} = {11, 12}"
proof -
  obtain sm where sm: "server_run ref_lib True sm" "sm_view ref_lib sm = ann_view" using ann_server .
  obtain gw where gw: "windows_inv chain_ops gw (room_world (sm, [] :: string)\<lparr>w_live := [Block_Key ''room'', Block_Pids ''room'']\<rparr>)"
      "windows_view chain_ops gw = [''room'' \<mapsto> \<lparr>m_sender = 12, m_receiver = 11\<rparr>]"
    by (rule tracked_room)
  let ?w = "room_world (sm, [] :: string)\<lparr>w_live := [Block_Key ''room'', Block_Pids ''room'']\<rparr>"
  have r: "client_ready chain_ops ref_os (user_app ''ann''\<lparr>ca_windows := Some gw\<rparr>) ?w ''ann''"
    using user_ready [of "''ann''" "(sm, [])"] gw(1) by (auto simp: client_ready_def NUL_def user_app_def)
  have s: "w_stdin ?w = ''room'' @ newline @ []" by simp
  obtain app' gw' w' sm' r' evs where l: "HandleGroupAction chain_ops (link ref_lib ref_env ref_record ref_os) (user_app ''ann''\<lparr>ca_windows := Some gw\<rparr>) OPCODE_LEAVE_GROUP ?w = Some (app', w')"
      "w_sys w' = ((sm', []), r')" "sv_groups (sm_view ref_lib sm') ''room'' = None" "ca_windows app' = Some gw'"
      "windows_view chain_ops gw' = Map.empty" "w_trace w' = evs @ [Ev_Kill 12, Ev_Kill 11]" "\<forall>p. Ev_Kill p \<notin> set evs"
    using leave_group_end_to_end [OF windows.group_windows_axioms ref_server.chat_server_axioms sm(1) ref_env_ok r room_typed(1) s, where rec = ref_record
        and u = "''ann''" and pend = "[]" and r = False and gw = gw and pids = "\<lparr>m_sender = 12, m_receiver = 11\<rparr>"]
    by (simp add: sm(2) gw(2) ref_record_def ann_view_def) fastforce
  then have "{p. Ev_Kill p \<in> set (w_trace w')} = {11, 12}" by auto
  then show ?thesis using l(1-5) by blast
qed





end
