(* ===== verification/Chat_Desktop.thy ===== *)
theory Chat_Desktop
  imports Chat_Network
begin

text \<open>
  Clients and their windows on one machine.  A client starts its chat windows with \<open>system\<close> and learns their process
  ids over the message queue \<open>/chat_pids\<close>; here the command line becomes the arguments of the windows'
  \<open>main\<close>, the windows report through \<open>ChatIpc_ReportPid\<close>, and the client collects from the same queue.
  The theorems say when the pair a client tracks is the pair it has started, and when it is not.
\<close>

section \<open>The machine\<close>

text \<open>
  The message queues of the machine with their unread messages, by descriptor; the queue the name
  \<open>/chat_pids\<close> refers to; and the window processes that were started, with their ids and arguments.
\<close>

record desk =
  dk_queues :: "ChatPidMsg list list"
  dk_name :: "nat option"
  dk_procs :: "(int \<times> string list) list"

text \<open>
  A window on this machine: \<open>mq_open\<close> without \<open>O_CREAT\<close> finds the named queue or fails, and \<open>mq_send\<close> appends (a
  sender that finds the queue full waits, and its message is appended later).
\<close>

definition window_os :: "int \<Rightarrow> 'r chat_os \<Rightarrow> (desk \<times> 'r) chat_os" where
  "window_os pid base =
     \<lparr>co_uninit = (\<lambda>n s. co_uninit base n (snd s)), co_getpid = pid,
      co_mq_open = (\<lambda>s. (case dk_name (fst s) of None \<Rightarrow> - 1 | Some q \<Rightarrow> int q, s)),
      co_mq_send = (\<lambda>q msg s.
         (0, (fst s)\<lparr>dk_queues := (dk_queues (fst s))[nat q := dk_queues (fst s) ! nat q @ [msg]]\<rparr>, snd s)),
      co_mq_close = (\<lambda>q s. s),
      co_socket = on_rest (co_socket base), co_reuseaddr = (\<lambda>fd. on_rest (co_reuseaddr base fd)),
      co_bind = (\<lambda>fd a p. on_rest (co_bind base fd a p)),
      co_add_membership = (\<lambda>fd a. on_rest (co_add_membership base fd a)),
      co_sendto = (\<lambda>fd b a p. on_rest (co_sendto base fd b a p)),
      co_recvfrom = (\<lambda>fd len. on_rest (co_recvfrom base fd len)),
      co_close = (\<lambda>fd s. (fst s, co_close base fd (snd s)))\<rparr>"

text \<open>The words of a command line without quotes or other special characters.\<close>

fun split_blank :: "string \<Rightarrow> string list" where
  "split_blank [] = [[]]"
| "split_blank (c # cs) =
     (if c = CHR '' '' then [] # split_blank cs
      else case split_blank cs of [] \<Rightarrow> [[c]] | w # ws \<Rightarrow> (c # w) # ws)"

definition words :: "string \<Rightarrow> string list" where
  "words s = filter (\<lambda>w. w \<noteq> []) (split_blank s)"

definition plain_char :: "char \<Rightarrow> bool" where
  "plain_char c \<longleftrightarrow>
     (let k = (of_char c :: nat)
      in 48 \<le> k \<and> k \<le> 57 \<or> 65 \<le> k \<and> k \<le> 90 \<or> 97 \<le> k \<and> k \<le> 122 \<or> c \<in> set ''./_- '')"

definition plain_word :: "string \<Rightarrow> bool" where
  "plain_word s \<longleftrightarrow> s \<noteq> [] \<and> (\<forall>c \<in> set s. plain_char c \<and> c \<noteq> CHR '' '')"

text \<open>
  A new process runs the program its first argument names: the receiver up to its loop, the sender until it waits for
  a line.  The reports reach the queue before \<open>mq_timedreceive\<close> gives up.
\<close>

definition run_window :: "'r chat_os \<Rightarrow> int \<Rightarrow> string list \<Rightarrow> desk \<times> 'r \<Rightarrow> desk \<times> 'r" where
  "run_window wb pid argv s =
     (let w = \<lparr>w_sys = s, w_stdin = [], w_trace = [], w_live = []\<rparr>
      in case argv of
           [] \<Rightarrow> s
         | prog # _ \<Rightarrow>
             if prog = CHAT_RECEIVER_BIN
             then (case chat_receiver_main 0 (window_os pid wb) argv w of None \<Rightarrow> s | Some (_, w') \<Rightarrow> w_sys w')
             else if prog = CHAT_SENDER_BIN
             then (case chat_sender_main (window_os pid wb) argv w of None \<Rightarrow> s | Some (_, w') \<Rightarrow> w_sys w')
             else s)"

text \<open>\<open>fresh\<close> is the next process id; the first two words of a command start the terminal.\<close>

definition run_command :: "(desk \<Rightarrow> int) \<Rightarrow> 'r chat_os \<Rightarrow> string \<Rightarrow> desk \<times> 'r \<Rightarrow> desk \<times> 'r" where
  "run_command fresh wb cmd s =
     (let argv = drop 2 (words cmd); pid = fresh (fst s)
      in run_window wb pid argv ((fst s)\<lparr>dk_procs := dk_procs (fst s) @ [(pid, argv)]\<rparr>, snd s))"

definition desk_os :: "(desk \<Rightarrow> int) \<Rightarrow> 'r chat_os \<Rightarrow> 'r client_os \<Rightarrow> (desk \<times> 'r) client_os" where
  "desk_os fresh wb base =
     \<lparr>os_alloc = (\<lambda>b. on_rest (os_alloc base b)), os_uninit = (\<lambda>n s. os_uninit base n (snd s)),
      os_socket = on_rest (os_socket base), os_connect = (\<lambda>fd a p. on_rest (os_connect base fd a p)),
      os_close = (\<lambda>fd s. (fst s, os_close base fd (snd s))),
      os_send = (\<lambda>fd b. on_rest (os_send base fd b)), os_recv = (\<lambda>fd len. on_rest (os_recv base fd len)),
      os_system = (\<lambda>cmd s.
         if \<forall>c \<in> set cmd. plain_char c then (0, run_command fresh wb cmd s) else on_rest (os_system base cmd) s),
      os_mq_open = (\<lambda>s.
         case dk_name (fst s) of
           Some q \<Rightarrow> (int q, s)
         | None \<Rightarrow> (int (length (dk_queues (fst s))),
                    (fst s)\<lparr>dk_queues := dk_queues (fst s) @ [[]], dk_name := Some (length (dk_queues (fst s)))\<rparr>, snd s)),
      os_mq_timedreceive = (\<lambda>q s.
         case dk_queues (fst s) ! nat q of
           [] \<Rightarrow> (None, s)
         | m # ms \<Rightarrow> (Some m, (fst s)\<lparr>dk_queues := (dk_queues (fst s))[nat q := ms]\<rparr>, snd s)),
      os_mq_close = (\<lambda>q s. s), os_mq_unlink = (\<lambda>s. ((fst s)\<lparr>dk_name := None\<rparr>, snd s)),
      os_kill = (\<lambda>p. on_rest (os_kill base p))\<rparr>"

section \<open>A window reports itself\<close>

text \<open>What a report does to the machine.\<close>

definition post :: "int \<Rightarrow> int \<Rightarrow> desk \<Rightarrow> desk" where
  "post role pid d =
     (case dk_name d of
        None \<Rightarrow> d
      | Some q \<Rightarrow> d\<lparr>dk_queues := (dk_queues d)[q := dk_queues d ! q @ [\<lparr>m_role = role, m_pid = pid\<rparr>]]\<rparr>)"

lemma report_desk: "fst (w_sys (ChatIpc_ReportPid (window_os pid wb) role w)) = post role pid (fst (w_sys w))"
  by (auto simp: ChatIpc_ReportPid_def Let_def window_os_def call_def post_def split: option.splits)

lemma join_desk:
  assumes "CreateAndJoinMulticast (window_os pid wb) ip p w = (fd, w')" shows "fst (w_sys w') = fst (w_sys w)"
  using assms by (auto simp: CreateAndJoinMulticast_def Let_def window_os_def call_def on_rest_def split: prod.splits if_splits)

lemma send_nothing: "w_stdin w = [] \<Longrightarrow> send_lines os fd dest user line w = Some w"
  by (simp add: send_lines.simps [of os fd dest user line w] fgets_def config_defs eval_nat_numeral)

lemma receiver_reports:
  "fst (run_window wb pid [CHAT_RECEIVER_BIN, ip, decimal (unat (p :: 16 word))] s) = post CHAT_ROLE_RECEIVER pid (fst s)"
proof -
  let ?w = "\<lparr>w_sys = s, w_stdin = [], w_trace = [], w_live = []\<rparr>" and ?argv = "[CHAT_RECEIVER_BIN, ip, decimal (unat p)]"
  let ?w1 = "ChatIpc_ReportPid (window_os pid wb) CHAT_ROLE_RECEIVER ?w"
  obtain fd w2 where j: "CreateAndJoinMulticast (window_os pid wb) ip p ?w1 = (fd, w2)" by fastforce
  obtain code w3 where m: "chat_receiver_main 0 (window_os pid wb) ?argv ?w = Some (code, w3)" and "w_sys w3 = w_sys w2"
    using j by (cases "fd < 0") (simp_all add: chat_receiver_main_def port_arg_text)
  then have "fst (w_sys w3) = post CHAT_ROLE_RECEIVER pid (fst s)" using join_desk [OF j] report_desk [of pid wb CHAT_ROLE_RECEIVER ?w] by simp
  then show ?thesis using m by (simp add: run_window_def)
qed

lemma sender_reports:
  assumes "chat_os_ok wb"
  shows "fst (run_window wb pid [CHAT_SENDER_BIN, ip, decimal (unat (p :: 16 word)), user] s) = post CHAT_ROLE_SENDER pid (fst s)"
proof -
  let ?os = "window_os pid wb" and ?argv = "[CHAT_SENDER_BIN, ip, decimal (unat p), user]"
  let ?w = "\<lparr>w_sys = s, w_stdin = [], w_trace = [], w_live = []\<rparr>"
  let ?w1 = "ChatIpc_ReportPid ?os CHAT_ROLE_SENDER ?w"
  have stdin: "w_stdin ?w1 = []" using report_pid [of ?os CHAT_ROLE_SENDER ?w] by (metis world.select_convs(2))
  obtain fd w2 where c: "call (co_socket ?os) [] ?w1 = (fd, w2)" by fastforce
  have w2: "w_stdin w2 = []" "fst (w_sys w2) = fst (w_sys ?w1)"
    using call_frame(1) [OF c] stdin lan_rest [of "co_socket wb" "[]" ?w1 fd w2] c by (simp_all add: window_os_def)
  have "CHAT_SENDER_BIN \<noteq> CHAT_RECEIVER_BIN" by (simp add: CHAT_SENDER_BIN_def CHAT_RECEIVER_BIN_def)
  moreover obtain rc w3 where "chat_sender_main ?os ?argv ?w = Some (rc, w3)" "fst (w_sys w3) = fst (w_sys w2)"
    using c w2(1) by (cases "fd < 0") (simp_all add: chat_sender_main_def port_arg_text CreateMulticastSender_def send_nothing, simp_all add: window_os_def)
  ultimately show ?thesis using w2(2) report_desk [of pid wb CHAT_ROLE_SENDER ?w] by (simp add: run_window_def)
qed

section \<open>Command lines\<close>

lemma split_blank_word: "CHR '' '' \<notin> set a \<Longrightarrow> split_blank a = [a]"
  by (induction a) auto

lemma split_blank_append: "CHR '' '' \<notin> set a \<Longrightarrow> split_blank (a @ '' '' @ b) = a # split_blank b"
  by (induction a) auto

lemma words_word:
  assumes "plain_word a" shows "words a = [a]" and "words (a @ '' '' @ b) = a # words b"
proof -
  have a: "a \<noteq> []" "CHR '' '' \<notin> set a" using assms by (auto simp: plain_word_def)
  show "words a = [a]" using a split_blank_word [OF a(2)] by (simp add: words_def)
  show "words (a @ '' '' @ b) = a # words b" unfolding words_def split_blank_append [OF a(2)] using a(1) by simp
qed

lemma plain_words:
  "plain_word ''gnome-terminal''" "plain_word ''--''" "plain_word CHAT_RECEIVER_BIN" "plain_word CHAT_SENDER_BIN"
  by (simp_all add: plain_word_def plain_char_def CHAT_RECEIVER_BIN_def CHAT_SENDER_BIN_def)

lemma plain_digit: "is_digit c \<Longrightarrow> plain_char c \<and> c \<noteq> CHR '' ''"
  by (auto simp: is_digit_def plain_char_def)

lemma plain_decimal: "plain_word (decimal n)"
  using decimal_digits [of n] plain_digit by (auto simp: plain_word_def)

lemma plain_address: "plain_word (ip_text a)"
  using decimal_digits plain_digit by (fastforce simp: ip_text_def Let_def plain_word_def plain_char_def)

lemma plain_chars: "plain_word a \<Longrightarrow> \<forall>c \<in> set a. plain_char c"
  by (simp add: plain_word_def)

lemma plain_blank: "\<forall>c \<in> set '' ''. plain_char c"
  by (simp add: plain_char_def)

lemma receiver_words:
  assumes "plain_word ip"
  shows "words (receiver_command ip p) = [''gnome-terminal'', ''--'', CHAT_RECEIVER_BIN, ip, decimal (unat p)]"
    and "\<forall>c \<in> set (receiver_command ip p). plain_char c"
proof -
  have c: "receiver_command ip p = ''gnome-terminal'' @ '' '' @ ''--'' @ '' '' @ CHAT_RECEIVER_BIN @ '' '' @ ip @ '' '' @ decimal (unat p)"
    by (simp add: receiver_command_def)
  show "words (receiver_command ip p) = [''gnome-terminal'', ''--'', CHAT_RECEIVER_BIN, ip, decimal (unat p)]"
    unfolding c by (simp only: words_word plain_words plain_decimal assms)
  show "\<forall>c \<in> set (receiver_command ip p). plain_char c"
    unfolding c set_append ball_Un by (intro conjI plain_blank plain_chars plain_words plain_decimal assms)
qed

lemma sender_words:
  assumes "plain_word ip" and "\<forall>c \<in> set user. plain_char c"
  shows "words (sender_command ip p user) = ''gnome-terminal'' # ''--'' # CHAT_SENDER_BIN # ip # decimal (unat p) # words user"
    and "\<forall>c \<in> set (sender_command ip p user). plain_char c"
proof -
  have c: "sender_command ip p user = ''gnome-terminal'' @ '' '' @ ''--'' @ '' '' @ CHAT_SENDER_BIN @ '' '' @ ip @ '' '' @ decimal (unat p) @ '' '' @ user"
    by (simp add: sender_command_def)
  show "words (sender_command ip p user) = ''gnome-terminal'' # ''--'' # CHAT_SENDER_BIN # ip # decimal (unat p) # words user"
    unfolding c by (simp only: words_word plain_words plain_decimal assms)
  show "\<forall>c \<in> set (sender_command ip p user). plain_char c"
    unfolding c set_append ball_Un by (intro conjI plain_blank plain_chars plain_words plain_decimal assms)
qed

text \<open>A process is started and reports itself in a role.\<close>

definition started :: "(desk \<Rightarrow> int) \<Rightarrow> int \<Rightarrow> string list \<Rightarrow> desk \<Rightarrow> desk" where
  "started fresh role argv d = post role (fresh d) (d\<lparr>dk_procs := dk_procs d @ [(fresh d, argv)]\<rparr>)"

lemma run_receiver:
  assumes "plain_word ip"
  shows "fst (run_command fresh wb (receiver_command ip p) s) = started fresh CHAT_ROLE_RECEIVER [CHAT_RECEIVER_BIN, ip, decimal (unat p)] (fst s)"
  by (simp add: run_command_def receiver_words [OF assms] receiver_reports started_def Let_def)

lemma run_sender:
  assumes "plain_word ip" and "plain_word user" and "chat_os_ok wb"
  shows "fst (run_command fresh wb (sender_command ip p user) s) = started fresh CHAT_ROLE_SENDER [CHAT_SENDER_BIN, ip, decimal (unat p), user] (fst s)"
  by (simp add: run_command_def sender_words(1) [OF assms(1) plain_chars [OF assms(2)]] words_word(1) [OF assms(2)] sender_reports [OF assms(3)] started_def Let_def)

text \<open>With a blank in the name the sender gets too many arguments and ends without a report.\<close>

lemma run_sender_blank:
  assumes "plain_word ip" and "plain_word u" and "plain_word v"
  shows "fst (run_command fresh wb (sender_command ip p (u @ '' '' @ v)) s)
    = (fst s)\<lparr>dk_procs := dk_procs (fst s) @ [(fresh (fst s), [CHAT_SENDER_BIN, ip, decimal (unat p), u, v])]\<rparr>"
proof -
  have user: "\<forall>c \<in> set (u @ '' '' @ v). plain_char c"
    using plain_blank plain_chars [OF assms(2)] plain_chars [OF assms(3)] unfolding set_append ball_Un by blast
  have ws: "words (u @ '' '' @ v) = [u, v]" by (simp only: words_word assms)
  have "CHAT_SENDER_BIN \<noteq> CHAT_RECEIVER_BIN" by (simp add: CHAT_SENDER_BIN_def CHAT_RECEIVER_BIN_def)
  then show ?thesis
    unfolding run_command_def sender_words(1) [OF assms(1) user] ws by (simp add: run_window_def chat_sender_main_def usage_def Let_def)
qed

lemma spawn_desk:
  assumes "\<forall>c \<in> set cmd. plain_char c"
  obtains w' where "SpawnWindow (desk_os fresh wb base) cmd w = (GROUP_WINDOWS_SUCCESS, w')" and "w_sys w' = run_command fresh wb cmd (w_sys w)"
  using assms by (intro that [of "snd (SpawnWindow (desk_os fresh wb base) cmd w)"]) (simp_all add: SpawnWindow_def sys_system_def desk_os_def)

section \<open>Collecting the reports\<close>

definition pid_event :: "ChatPidMsg \<Rightarrow> sys_event" where
  "pid_event msg = Ev_Pid (m_role msg) (m_pid msg)"

lemma same_queue: "dk_queues d ! q = ms \<Longrightarrow> d\<lparr>dk_queues := (dk_queues d)[q := ms]\<rparr> = d"
  by (cases d) auto

lemma collect_desk:
  assumes "gw_queue gw = int q" and "q < length (dk_queues (fst (w_sys w)))" and "dk_queues (fst (w_sys w)) ! q = ms"
  shows "\<exists>w'. collect_pids n (desk_os fresh wb base) gw pids w
      = (if n \<le> length ms then GROUP_WINDOWS_SUCCESS else GROUP_WINDOWS_PID_TIMEOUT, fold store_report (map pid_event (take n ms)) pids, w')
    \<and> fst (w_sys w') = (fst (w_sys w))\<lparr>dk_queues := (dk_queues (fst (w_sys w)))[q := drop n ms]\<rparr>
    \<and> w_trace w' = w_trace w @ map pid_event (take n ms)"
  using assms(2,3)
proof (induction n arbitrary: pids w ms)
  case (Suc n)
  show ?case
  proof (cases ms)
    case Nil
    with Suc.prems assms(1) show ?thesis
      by (simp add: CollectPid_def sys_mq_timedreceive_def desk_os_def same_queue)
  next
    case (Cons m ms')
    let ?w1 = "emit (pid_event m) (w\<lparr>w_sys := ((fst (w_sys w))\<lparr>dk_queues := (dk_queues (fst (w_sys w)))[q := ms']\<rparr>, snd (w_sys w))\<rparr>)"
    have c: "CollectPid (desk_os fresh wb base) gw pids w = (GROUP_WINDOWS_SUCCESS, store_report (pid_event m) pids, ?w1)"
      using Suc.prems assms(1) Cons by (simp add: CollectPid_def sys_mq_timedreceive_def desk_os_def pid_event_def)
    show ?thesis using Suc.IH [of ?w1 ms' "store_report (pid_event m) pids"] Suc.prems Cons c by simp
  qed
qed (simp add: same_queue)

section \<open>Opening windows on the machine\<close>

definition plenty :: "'r client_os \<Rightarrow> bool" where
  "plenty base \<longleftrightarrow> (\<forall>b s. fst (os_alloc base b s))"

lemma desk_outcome:
  assumes "plenty base"
  obtains w' where "sys_outcome (desk_os fresh wb base) b w = (True, w')" and "fst (w_sys w') = fst (w_sys w)"
  using assms
  by (cases "os_alloc base b (snd (w_sys w))") (auto simp: plenty_def sys_outcome_def desk_os_def on_rest_def dest!: spec [of _ b] spec [of _ "snd (w_sys w)"])

lemma desk_alloc:
  assumes "plenty base"
  obtains w' where "sys_alloc (desk_os fresh wb base) b w = (True, w')" and "fst (w_sys w') = fst (w_sys w)"
  by (rule desk_outcome [OF assms, of fresh wb b w]) (auto simp: sys_alloc_def intro: that)

lemma kill_desk [simp]: "fst (w_sys (KillPids (desk_os fresh wb base) pids w)) = fst (w_sys w)"
  by (auto simp: KillPids_def Let_def sys_kill_def desk_os_def on_rest_def split: prod.splits)

lemma free_sys: "sys_free b w = Some w' \<Longrightarrow> w_sys w' = w_sys w"
  by (auto simp: sys_free_def split: if_splits)

lemma desk_uninit: "uninit_ok base \<Longrightarrow> uninit_ok (desk_os fresh wb base)"
  by (simp add: uninit_ok_def desk_os_def)

text \<open>The pair that the first two messages of a queue make.\<close>

definition pair_of :: "ChatPidMsg list \<Rightarrow> GroupPids" where
  "pair_of ms = fold store_report (map pid_event (take 2 ms)) \<lparr>m_sender = 0, m_receiver = 0\<rparr>"

lemma track_desk:
  assumes gwin: "group_windows M" and inv: "windows_inv M gw w" and new: "windows_view M gw g = None" and "plenty base"
    and q: "gw_queue gw = int q" "q < length (dk_queues (fst (w_sys w)))" "dk_queues (fst (w_sys w)) ! q = ms"
  obtains r gw' w' where "track_windows M (desk_os fresh wb base) gw g w = Some (r, Some gw', w')"
    and "r = (if 2 \<le> length ms then GROUP_WINDOWS_SUCCESS else GROUP_WINDOWS_PID_TIMEOUT)" and "windows_inv M gw' w'"
    and "windows_view M gw' = (if 2 \<le> length ms then (windows_view M gw)(g \<mapsto> pair_of ms) else windows_view M gw)"
    and "w_trace w' = w_trace w @ map pid_event (take 2 ms) @ (if 2 \<le> length ms then [] else kills_of (pair_of ms))"
    and "fst (w_sys w') = (fst (w_sys w))\<lparr>dk_queues := (dk_queues (fst (w_sys w)))[q := drop 2 ms]\<rparr>"
    and "gw_queue gw' = gw_queue gw"
proof -
  let ?os = "desk_os fresh wb base" and ?z = "\<lparr>m_sender = 0, m_receiver = 0\<rparr>" and ?pes = "map pid_event (take 2 ms)"
  let ?d = "(fst (w_sys w))\<lparr>dk_queues := (dk_queues (fst (w_sys w)))[q := drop 2 ms]\<rparr>"
  obtain w1 where a: "sys_alloc ?os (Block_Pids g) w = (True, w1)" "fst (w_sys w1) = fst (w_sys w)" using desk_alloc [OF assms(4)] .
  note f1 = sys_alloc_frame [OF a(1)]
  obtain w2 where c: "collect_pids 2 ?os gw ?z w1 = (if 2 \<le> length ms then GROUP_WINDOWS_SUCCESS else GROUP_WINDOWS_PID_TIMEOUT, pair_of ms, w2)"
      "fst (w_sys w2) = ?d" "w_trace w2 = w_trace w1 @ ?pes"
    using collect_desk [OF q(1), of w1 ms 2 fresh wb base ?z] q(2,3) a(2) by (auto simp: pair_of_def)
  have f2: "w_stdin w2 = w_stdin w" "w_live w2 = Block_Pids g # w_live w" "w_trace w2 = w_trace w @ ?pes"
    using collect_pids_frame [OF c(1)] f1 c(3) by simp_all
  have col: "collected ?pes (pair_of ms)" by (auto simp: collected_def pair_of_def pid_event_def)
  show ?thesis
  proof (cases "2 \<le> length ms")
    case True
    obtain w3 where a3: "sys_alloc ?os (Block_Key g) w2 = (True, w3)" "fst (w_sys w3) = ?d" using desk_alloc [OF assms(4)] c(2) by metis
    obtain w4 where a4: "sys_outcome ?os Block_Node w3 = (True, w4)" "fst (w_sys w4) = ?d" using desk_outcome [OF assms(4)] a3(2) by metis
    have "length ?pes = 2" using True by simp
    from group_windows.store_done [OF gwin inv new a3(1) a4(1) f2 col this] obtain gw' where
      s: "store_windows M ?os gw g (pair_of ms) w2 = Some (GROUP_WINDOWS_SUCCESS, Some gw', w4)"
        "group_windows.tracked M gw w g GROUP_WINDOWS_SUCCESS gw' w4" "windows_view M gw' = (windows_view M gw)(g \<mapsto> pair_of ms)" by blast
    have t: "track_windows M ?os gw g w = Some (GROUP_WINDOWS_SUCCESS, Some gw', w4)" using a(1) c(1) s(1) True by (simp add: track_windows_def)
    have "w_trace w4 = w_trace w @ ?pes" using sys_alloc_frame(2) [OF a3(1)] sys_outcome_frame(2) [OF a4(1)] f2(3) by simp
    then show ?thesis
      using t True s(2,3) a4(2) by (intro that [of GROUP_WINDOWS_SUCCESS gw' w4]) (simp_all add: group_windows.tracked_def [OF gwin] windows_frame_def)
  next
    case False
    obtain w3 where w3: "sys_free (Block_Pids g) (KillPids ?os (pair_of ms) w2) = Some w3" "w_trace w3 = w_trace w2 @ kills_of (pair_of ms)"
        "w_live w3 = [] @ w_live w"
      using group_windows.give_up [OF gwin, of w2 "[]" g w ?os "pair_of ms"] f2(2) by auto
    have t: "track_windows M ?os gw g w = Some (GROUP_WINDOWS_PID_TIMEOUT, Some gw, w3)" using a(1) c(1) w3(1) False by (simp add: track_windows_def)
    have "windows_inv M gw w3" using inv w3(3) by (simp add: windows_inv_def owns_def)
    then show ?thesis
      using t False w3(2) f2(3) c(2) free_sys [OF w3(1)] by (intro that [of GROUP_WINDOWS_PID_TIMEOUT gw w3]) simp_all
  qed
qed

text \<open>Both windows are started on the endpoint and report to whatever queue the name refers to.\<close>

definition both_started :: "(desk \<Rightarrow> int) \<Rightarrow> string \<Rightarrow> 16 word \<Rightarrow> string \<Rightarrow> desk \<Rightarrow> desk" where
  "both_started fresh ip p user d =
     started fresh CHAT_ROLE_SENDER [CHAT_SENDER_BIN, ip, decimal (unat p), user]
       (started fresh CHAT_ROLE_RECEIVER [CHAT_RECEIVER_BIN, ip, decimal (unat p)] d)"

lemma both_started_desk:
  obtains rp sp where "dk_procs (both_started fresh ip p user d)
      = dk_procs d @ [(rp, [CHAT_RECEIVER_BIN, ip, decimal (unat p)]), (sp, [CHAT_SENDER_BIN, ip, decimal (unat p), user])]"
    and "rp \<in> range fresh" and "sp \<in> range fresh" and "dk_name (both_started fresh ip p user d) = dk_name d"
    and "dk_queues (both_started fresh ip p user d) = (case dk_name d of None \<Rightarrow> dk_queues d | Some q \<Rightarrow>
      (dk_queues d)[q := dk_queues d ! q @ [\<lparr>m_role = CHAT_ROLE_RECEIVER, m_pid = rp\<rparr>, \<lparr>m_role = CHAT_ROLE_SENDER, m_pid = sp\<rparr>]])"
proof -
  let ?d1 = "started fresh CHAT_ROLE_RECEIVER [CHAT_RECEIVER_BIN, ip, decimal (unat p)] d"
  show ?thesis
  proof (rule that [of "fresh d" "fresh ?d1"])
    show "dk_queues (both_started fresh ip p user d) = (case dk_name d of None \<Rightarrow> dk_queues d | Some q \<Rightarrow>
      (dk_queues d)[q := dk_queues d ! q @ [\<lparr>m_role = CHAT_ROLE_RECEIVER, m_pid = fresh d\<rparr>, \<lparr>m_role = CHAT_ROLE_SENDER, m_pid = fresh ?d1\<rparr>]])"
    proof (cases "dk_name d")
      case (Some q)
      then show ?thesis by (cases "q < length (dk_queues d)") (simp_all add: both_started_def started_def post_def list_update_beyond)
    qed (simp add: both_started_def started_def post_def)
  qed (auto simp: both_started_def started_def post_def split: option.splits)
qed

text \<open>A client and its queue on the machine.\<close>

definition desk_client :: "'m windows_ops \<Rightarrow> 'm GroupWindows \<Rightarrow> nat \<Rightarrow> (desk \<times> 'r) world \<Rightarrow> bool" where
  "desk_client M gw q w \<longleftrightarrow> windows_inv M gw w \<and> gw_queue gw = int q \<and> q < length (dk_queues (fst (w_sys w)))"

lemma open_desk:
  fixes a :: "32 word" and p :: "16 word" and fresh :: "desk \<Rightarrow> int"
  assumes gwin: "group_windows M" and cl: "desk_client M gw q w" and new: "windows_view M gw g = None"
    and os: "uninit_ok base" "plenty base" and user: "\<forall>c \<in> set user. plain_char c" "length user < 64"
  defines "ip \<equiv> ip_text a"
  assumes d: "\<And>s. fst s = started fresh CHAT_ROLE_RECEIVER [CHAT_RECEIVER_BIN, ip, decimal (unat p)] (fst (w_sys w))
      \<Longrightarrow> fst (run_command fresh wb (sender_command ip p user) s) = d"
    and len: "length (dk_queues d) = length (dk_queues (fst (w_sys w)))"
  defines "ms \<equiv> dk_queues d ! q"
  obtains r gw' w' where "GroupWindows_Open M (desk_os fresh wb base) (Some gw) (Some g) (Some ip) p (Some user) w = Some (r, Some gw', w')"
    and "r = (if 2 \<le> length ms then GROUP_WINDOWS_SUCCESS else GROUP_WINDOWS_PID_TIMEOUT)" and "desk_client M gw' q w'"
    and "windows_view M gw' = (if 2 \<le> length ms then (windows_view M gw)(g \<mapsto> pair_of ms) else windows_view M gw)"
    and "w_trace w' = w_trace w @ [Ev_System (receiver_command ip p), Ev_System (sender_command ip p user)]
      @ map pid_event (take 2 ms) @ (if 2 \<le> length ms then [] else kills_of (pair_of ms))"
    and "fst (w_sys w') = d\<lparr>dk_queues := (dk_queues d)[q := drop 2 ms]\<rparr>"
proof -
  let ?os = "desk_os fresh wb base"
  have inv: "windows_inv M gw w" and q: "gw_queue gw = int q" "q < length (dk_queues (fst (w_sys w)))" using cl by (auto simp: desk_client_def)
  have ip: "NUL \<notin> set ip" "length ip < 22" "plain_word ip" using addr_text_bounds [of a] plain_address [of a] by (auto simp: ip_def)
  have "\<not> plain_char NUL" by (simp add: plain_char_def NUL_def)
  then have nul: "NUL \<notin> set user" using user(1) by blast
  have fit: "take 255 (receiver_command ip p) = receiver_command ip p" "take 255 (sender_command ip p user) = sender_command ip p user"
    using commands_fit [OF ip(2) user(2), of p] by simp_all
  obtain w2 where s2: "SpawnWindow ?os (receiver_command ip p) w = (GROUP_WINDOWS_SUCCESS, w2)" "w_sys w2 = run_command fresh wb (receiver_command ip p) (w_sys w)"
    using spawn_desk [OF receiver_words(2) [OF ip(3)]] .
  obtain w3 where s3': "SpawnWindow ?os (sender_command ip p user) w2 = (GROUP_WINDOWS_SUCCESS, w3)" "w_sys w3 = run_command fresh wb (sender_command ip p user) (w_sys w2)"
    using spawn_desk [OF sender_words(2) [OF ip(3) user(1)]] .
  have s3: "SpawnWindow ?os (sender_command ip p user) w2 = (GROUP_WINDOWS_SUCCESS, w3)" "fst (w_sys w3) = d"
    using s3' d [OF run_receiver [OF ip(3), of fresh wb p "w_sys w"]] s2(2) by simp_all
  note f2 = SpawnWindow_frame [OF s2(1)] and f3 = SpawnWindow_frame [OF s3(1)]
  have o: "GroupWindows_Open M ?os (Some gw) (Some g) (Some ip) p (Some user) w = track_windows M ?os gw g w3"
    by (rule group_windows.open_launch [OF gwin inv desk_uninit [OF os(1), of fresh wb] commands_no_NUL [OF ip(1) nul, of p], of g])
      (use new s2(1) s3(1) in \<open>simp add: group_windows.launch_def [OF gwin] fit\<close>)
  have inv3: "windows_inv M gw w3" using inv f2(2) f3(2) by (simp add: windows_inv_def owns_def)
  obtain r gw' w' where t: "track_windows M ?os gw g w3 = Some (r, Some gw', w')"
      "r = (if 2 \<le> length ms then GROUP_WINDOWS_SUCCESS else GROUP_WINDOWS_PID_TIMEOUT)" "windows_inv M gw' w'"
      "windows_view M gw' = (if 2 \<le> length ms then (windows_view M gw)(g \<mapsto> pair_of ms) else windows_view M gw)"
      "w_trace w' = w_trace w3 @ map pid_event (take 2 ms) @ (if 2 \<le> length ms then [] else kills_of (pair_of ms))"
      "fst (w_sys w') = d\<lparr>dk_queues := (dk_queues d)[q := drop 2 ms]\<rparr>" "gw_queue gw' = gw_queue gw"
    by (rule track_desk [OF gwin inv3 new os(2) q(1), unfolded s3(2), where ms = ms]) (use q(2) len in \<open>simp_all add: ms_def\<close>)
  have "desk_client M gw' q w'" using t(3,6,7) q len by (simp add: desk_client_def)
  then show ?thesis using t(4-6) f2(3) f3(3) by (intro that [OF o [unfolded t(1)] t(2)]) simp_all
qed

lemma open_desk_plain:
  fixes a :: "32 word" and p :: "16 word" and fresh :: "desk \<Rightarrow> int"
  assumes gwin: "group_windows M" and cl: "desk_client M gw q w" and new: "windows_view M gw g = None"
    and os: "uninit_ok base" "plenty base" "chat_os_ok wb" and user: "plain_word user" "length user < 64"
  defines "ip \<equiv> ip_text a"
  defines "d \<equiv> both_started fresh ip p user (fst (w_sys w))"
  defines "ms \<equiv> dk_queues d ! q"
  obtains r gw' w' where "GroupWindows_Open M (desk_os fresh wb base) (Some gw) (Some g) (Some ip) p (Some user) w = Some (r, Some gw', w')"
    and "r = (if 2 \<le> length ms then GROUP_WINDOWS_SUCCESS else GROUP_WINDOWS_PID_TIMEOUT)" and "desk_client M gw' q w'"
    and "windows_view M gw' = (if 2 \<le> length ms then (windows_view M gw)(g \<mapsto> pair_of ms) else windows_view M gw)"
    and "fst (w_sys w') = d\<lparr>dk_queues := (dk_queues d)[q := drop 2 ms]\<rparr>"
proof -
  have run: "fst (run_command fresh wb (sender_command ip p user) s) = d"
    if "fst s = started fresh CHAT_ROLE_RECEIVER [CHAT_RECEIVER_BIN, ip, decimal (unat p)] (fst (w_sys w))" for s
    unfolding ip_def run_sender [OF plain_address user(1) os(3)] using that by (simp add: d_def both_started_def ip_def)
  have len: "length (dk_queues d) = length (dk_queues (fst (w_sys w)))"
    unfolding d_def by (rule both_started_desk [of fresh ip p user "fst (w_sys w)"]) (simp split: option.split)
  show ?thesis
    unfolding ms_def ip_def
    by (rule open_desk [OF gwin cl new os(1,2) plain_chars [OF user(1)] user(2) run [unfolded ip_def] len])
      (assumption, rule that [unfolded ms_def ip_def])
qed

section \<open>Properties\<close>

text \<open>
  C9. The windows a client tracks are the windows it has started.  The client's queue is the one the name refers to
  and holds no old report; opening a group then succeeds, starts one receiver and one sender on the endpoint, tracks
  exactly their two process ids in their roles, and leaves the queue empty again for the next group.  Closing the group
  signals exactly these two processes.
\<close>

theorem own_windows_tracked:
  assumes "group_windows M" and "desk_client M gw q w" and "windows_view M gw g = None"
    and "uninit_ok base" and "plenty base" and "chat_os_ok wb" and "plain_word user" and "length user < 64" and "\<forall>d. 0 < fresh d"
    and "dk_name (fst (w_sys w)) = Some q" and "dk_queues (fst (w_sys w)) ! q = []"
  shows "\<exists>gw' w' rp sp gw'' w''. GroupWindows_Open M (desk_os fresh wb base) (Some gw) (Some g) (Some (ip_text a)) p (Some user) w
      = Some (GROUP_WINDOWS_SUCCESS, Some gw', w')
    \<and> dk_procs (fst (w_sys w')) = dk_procs (fst (w_sys w)) @ [(rp, [CHAT_RECEIVER_BIN, ip_text a, decimal (unat p)]),
         (sp, [CHAT_SENDER_BIN, ip_text a, decimal (unat p), user])]
    \<and> windows_view M gw' = (windows_view M gw)(g \<mapsto> \<lparr>m_sender = sp, m_receiver = rp\<rparr>)
    \<and> desk_client M gw' q w' \<and> dk_name (fst (w_sys w')) = Some q \<and> dk_queues (fst (w_sys w')) ! q = []
    \<and> GroupWindows_Close M (desk_os fresh wb base) (Some gw') (Some g) w' = Some (GROUP_WINDOWS_SUCCESS, Some gw'', w'')
    \<and> w_trace w'' = w_trace w' @ [Ev_Kill sp, Ev_Kill rp]"
proof -
  let ?ip = "ip_text a" and ?d = "fst (w_sys w)"
  obtain rp sp where b: "dk_procs (both_started fresh ?ip p user ?d)
      = dk_procs ?d @ [(rp, [CHAT_RECEIVER_BIN, ?ip, decimal (unat p)]), (sp, [CHAT_SENDER_BIN, ?ip, decimal (unat p), user])]"
      "rp \<in> range fresh" "sp \<in> range fresh" "dk_name (both_started fresh ?ip p user ?d) = Some q"
      "dk_queues (both_started fresh ?ip p user ?d)
        = (dk_queues ?d)[q := [\<lparr>m_role = CHAT_ROLE_RECEIVER, m_pid = rp\<rparr>, \<lparr>m_role = CHAT_ROLE_SENDER, m_pid = sp\<rparr>]]"
    by (rule both_started_desk [of fresh ?ip p user ?d]) (use assms(10,11) in simp)
  have q: "q < length (dk_queues ?d)" using assms(2) by (simp add: desk_client_def)
  obtain gw' w' where o: "GroupWindows_Open M (desk_os fresh wb base) (Some gw) (Some g) (Some ?ip) p (Some user) w = Some (GROUP_WINDOWS_SUCCESS, Some gw', w')"
      "desk_client M gw' q w'" "windows_view M gw' = (windows_view M gw)(g \<mapsto> \<lparr>m_sender = sp, m_receiver = rp\<rparr>)"
      "fst (w_sys w') = (both_started fresh ?ip p user ?d)\<lparr>dk_queues := (dk_queues (both_started fresh ?ip p user ?d))[q := []]\<rparr>"
    by (rule open_desk_plain [OF assms(1-8), of fresh a p])
      (use q in \<open>simp add: b(5) pair_of_def pid_event_def CHAT_ROLE_SENDER_def CHAT_ROLE_RECEIVER_def\<close>)
  have inv: "windows_inv M gw' w'" using o(2) by (simp add: desk_client_def)
  obtain gw'' w'' where c: "GroupWindows_Close M (desk_os fresh wb base) (Some gw') (Some g) w' = Some (GROUP_WINDOWS_SUCCESS, Some gw'', w'')"
      "w_trace w'' = w_trace w' @ kills_of \<lparr>m_sender = sp, m_receiver = rp\<rparr>"
    by (rule group_windows.close_hit [OF assms(1) inv, of g]) (use o(3) in auto)
  have "0 < rp" "0 < sp" using b(2,3) assms(9) by auto
  then show ?thesis using o b(1,4) c q by (simp add: kills_of_def b(5))
qed

text \<open>
  C40. A late report is taken for a window of the next group.  After a client gave up waiting for a window, that window reports
  after all, as a sender.  The next group the client opens is tracked with the old sender instead of its own: the
  report of the new sender stays in the queue, and closing the group does not signal it.
\<close>

theorem late_report_misattributed:
  assumes "group_windows M" and "desk_client M gw q w" and "windows_view M gw g = None"
    and "uninit_ok base" and "plenty base" and "chat_os_ok wb" and "plain_word user" and "length user < 64"
    and "fst (w_sys w) = fst (w_sys (ChatIpc_ReportPid (window_os late wb) CHAT_ROLE_SENDER v))"
    and "dk_name (fst (w_sys v)) = Some q" and "dk_queues (fst (w_sys v)) ! q = []"
  shows "\<exists>gw' w' rp sp. GroupWindows_Open M (desk_os fresh wb base) (Some gw) (Some g) (Some (ip_text a)) p (Some user) w
      = Some (GROUP_WINDOWS_SUCCESS, Some gw', w')
    \<and> dk_procs (fst (w_sys w')) = dk_procs (fst (w_sys w)) @ [(rp, [CHAT_RECEIVER_BIN, ip_text a, decimal (unat p)]),
         (sp, [CHAT_SENDER_BIN, ip_text a, decimal (unat p), user])]
    \<and> windows_view M gw' g = Some \<lparr>m_sender = late, m_receiver = rp\<rparr>
    \<and> dk_queues (fst (w_sys w')) ! q = [\<lparr>m_role = CHAT_ROLE_SENDER, m_pid = sp\<rparr>]"
proof -
  let ?ip = "ip_text a" and ?d = "fst (w_sys w)"
  have q: "q < length (dk_queues ?d)" using assms(2) by (simp add: desk_client_def)
  have d: "dk_name ?d = Some q" "dk_queues ?d ! q = [\<lparr>m_role = CHAT_ROLE_SENDER, m_pid = late\<rparr>]"
    using assms(9-11) q by (simp_all add: report_desk post_def)
  obtain rp sp where b: "dk_procs (both_started fresh ?ip p user ?d)
      = dk_procs ?d @ [(rp, [CHAT_RECEIVER_BIN, ?ip, decimal (unat p)]), (sp, [CHAT_SENDER_BIN, ?ip, decimal (unat p), user])]"
      "dk_queues (both_started fresh ?ip p user ?d) = (dk_queues ?d)[q := [\<lparr>m_role = CHAT_ROLE_SENDER, m_pid = late\<rparr>,
        \<lparr>m_role = CHAT_ROLE_RECEIVER, m_pid = rp\<rparr>, \<lparr>m_role = CHAT_ROLE_SENDER, m_pid = sp\<rparr>]]"
    by (rule both_started_desk [of fresh ?ip p user ?d]) (use d in simp)
  show ?thesis
    by (rule open_desk_plain [OF assms(1-8), of fresh a p])
      (use q b in \<open>auto simp: pair_of_def pid_event_def CHAT_ROLE_SENDER_def CHAT_ROLE_RECEIVER_def\<close>)
qed

text \<open>
  A name with a blank gets no windows.  For a user whose name consists of two words the sender window is started with
  too many arguments and ends without a report; the client waits in vain, ends the receiver window and leaves the
  group untracked.
\<close>

lemma blank_name_no_windows:
  assumes "group_windows M" and "desk_client M gw q w" and "windows_view M gw g = None"
    and "uninit_ok base" and "plenty base" and "plain_word u" and "plain_word v" and "length u + length v < 63" and "\<forall>d. 0 < fresh d"
    and "dk_name (fst (w_sys w)) = Some q" and "dk_queues (fst (w_sys w)) ! q = []"
  shows "\<exists>gw' w' rp sp evs. GroupWindows_Open M (desk_os fresh wb base) (Some gw) (Some g) (Some (ip_text a)) p (Some (u @ '' '' @ v)) w
      = Some (GROUP_WINDOWS_PID_TIMEOUT, Some gw', w')
    \<and> dk_procs (fst (w_sys w')) = dk_procs (fst (w_sys w)) @ [(rp, [CHAT_RECEIVER_BIN, ip_text a, decimal (unat p)]),
         (sp, [CHAT_SENDER_BIN, ip_text a, decimal (unat p), u, v])]
    \<and> windows_view M gw' = windows_view M gw \<and> w_trace w' = w_trace w @ evs @ [Ev_Kill rp]"
proof -
  let ?ip = "ip_text a" and ?d = "fst (w_sys w)" and ?user = "u @ '' '' @ v"
  let ?d1 = "started fresh CHAT_ROLE_RECEIVER [CHAT_RECEIVER_BIN, ?ip, decimal (unat p)] ?d"
  let ?d2 = "?d1\<lparr>dk_procs := dk_procs ?d1 @ [(fresh ?d1, [CHAT_SENDER_BIN, ?ip, decimal (unat p), u, v])]\<rparr>"
  have user: "\<forall>c \<in> set ?user. plain_char c" "length ?user < 64"
    using plain_blank plain_chars [OF assms(6)] plain_chars [OF assms(7)] assms(8) unfolding set_append ball_Un by auto
  have q: "q < length (dk_queues ?d)" using assms(2) by (simp add: desk_client_def)
  have run: "fst s = ?d1 \<Longrightarrow> fst (run_command fresh wb (sender_command ?ip p ?user) s) = ?d2" for s
    using run_sender_blank [OF plain_address [of a] assms(6,7), of fresh wb p s] by simp
  have len: "length (dk_queues ?d2) = length (dk_queues ?d)" by (simp add: started_def post_def split: option.split)
  have ms: "dk_queues ?d2 ! q = [\<lparr>m_role = CHAT_ROLE_RECEIVER, m_pid = fresh ?d\<rparr>]" using assms(10,11) q by (simp add: started_def post_def)
  have pair: "pair_of [\<lparr>m_role = CHAT_ROLE_RECEIVER, m_pid = fresh ?d\<rparr>] = \<lparr>m_sender = 0, m_receiver = fresh ?d\<rparr>"
    by (simp add: pair_of_def pid_event_def CHAT_ROLE_SENDER_def CHAT_ROLE_RECEIVER_def)
  have pos: "0 < fresh ?d" using assms(9) by blast
  obtain r gw' w' where o: "GroupWindows_Open M (desk_os fresh wb base) (Some gw) (Some g) (Some ?ip) p (Some ?user) w = Some (r, Some gw', w')"
      "r = (if 2 \<le> length (dk_queues ?d2 ! q) then GROUP_WINDOWS_SUCCESS else GROUP_WINDOWS_PID_TIMEOUT)"
      "windows_view M gw' = (if 2 \<le> length (dk_queues ?d2 ! q) then (windows_view M gw)(g \<mapsto> pair_of (dk_queues ?d2 ! q)) else windows_view M gw)"
      "w_trace w' = w_trace w @ [Ev_System (receiver_command ?ip p), Ev_System (sender_command ?ip p ?user)]
        @ map pid_event (take 2 (dk_queues ?d2 ! q)) @ (if 2 \<le> length (dk_queues ?d2 ! q) then [] else kills_of (pair_of (dk_queues ?d2 ! q)))"
      "fst (w_sys w') = ?d2\<lparr>dk_queues := (dk_queues ?d2)[q := drop 2 (dk_queues ?d2 ! q)]\<rparr>"
    by (rule open_desk [OF assms(1-5) user run len])
  have "dk_procs ?d2 = dk_procs ?d @ [(fresh ?d, [CHAT_RECEIVER_BIN, ?ip, decimal (unat p)]), (fresh ?d1, [CHAT_SENDER_BIN, ?ip, decimal (unat p), u, v])]"
    by (simp add: started_def post_def split: option.split)
  then show ?thesis using o pos unfolding ms pair by (simp add: kills_of_def)
qed

text \<open>Creating a client takes the name of the queue over.\<close>

lemma create_desk:
  assumes "group_windows M" and "plenty base" and "owns w Map.empty"
  obtains gw w' where "GroupWindows_Create M (desk_os fresh wb base) w = Some (Some gw, w')"
    and "desk_client M gw (length (dk_queues (fst (w_sys w)))) w'" and "windows_view M gw = Map.empty"
    and "fst (w_sys w') = (fst (w_sys w))\<lparr>dk_queues := dk_queues (fst (w_sys w)) @ [[]], dk_name := Some (length (dk_queues (fst (w_sys w))))\<rparr>"
proof -
  let ?os = "desk_os fresh wb base" and ?q = "length (dk_queues (fst (w_sys w)))"
  obtain w1 where a: "sys_alloc ?os Block_Windows w = (True, w1)" "fst (w_sys w1) = fst (w_sys w)" using desk_alloc [OF assms(2)] .
  obtain w2 where o: "sys_outcome ?os Block_Map w1 = (True, w2)" "fst (w_sys w2) = fst (w_sys w)" using desk_outcome [OF assms(2)] a(2) by metis
  obtain m where m: "HashMap_Create M True CONF_CHAT_WINDOWS_MAP_SIZE HashGroupName GroupNamesEqual = Some m" "HashMap_Ok M m" "hm_lookup M m = Map.empty"
    using group_windows.create_empty [OF assms(1)] .
  let ?gw = "\<lparr>gw_groups = Some m, gw_queue = int ?q\<rparr>" and ?w3 = "sys_mq_unlink ?os w2"
  have u: "w_sys ?w3 = ((fst (w_sys w))\<lparr>dk_name := None\<rparr>, snd (w_sys w2))" using o(2) by (simp add: sys_mq_unlink_def desk_os_def)
  obtain w4 where q: "sys_mq_open ?os ?w3 = (int ?q, w4)" "fst (w_sys w4) = (fst (w_sys w))\<lparr>dk_queues := dk_queues (fst (w_sys w)) @ [[]], dk_name := Some ?q\<rparr>"
    using u by (simp add: sys_mq_open_def desk_os_def)
  have live: "w_live w4 = Block_Windows # w_live w"
    using sys_alloc_frame(3) [OF a(1)] sys_outcome_frame(3) [OF o(1)] sys_result_frame(6) [OF q(1)] by (simp add: sys_call_frame)
  have "windows_inv M ?gw w4" using m assms(3) live by (simp add: windows_inv_def owns_def windows_view_def)
  then show ?thesis
    using a(1) o(1) m q by (intro that [of ?gw w4]) (simp_all add: GroupWindows_Create_def desk_client_def windows_view_def)
qed

text \<open>
  C39. A second client on the machine takes the first one's reports.  Two clients are started one after the other; the second
  replaces the queue the name refers to.  When the first client then opens a group, its two windows start and report,
  but to the second client: the first gives up and tracks nothing, and the next group the second client
  opens is tracked with the windows of the first.
\<close>

theorem second_client_takes_reports:
  assumes "group_windows M" and "uninit_ok base" and "plenty base" and "chat_os_ok wb" and "plain_word ann" and "length ann < 64"
    and "plain_word bob" and "length bob < 64" and "owns wa Map.empty" and "owns wb0 Map.empty"
  shows "\<exists>gwa wa1 gwb wb1 gwa' wa2 rp sp gwb' wb2.
      GroupWindows_Create M (desk_os fresh wb base) wa = Some (Some gwa, wa1)
    \<and> GroupWindows_Create M (desk_os fresh wb base) (wb0\<lparr>w_sys := w_sys wa1\<rparr>) = Some (Some gwb, wb1)
    \<and> GroupWindows_Open M (desk_os fresh wb base) (Some gwa) (Some g) (Some (ip_text a)) p (Some ann) (wa1\<lparr>w_sys := w_sys wb1\<rparr>)
        = Some (GROUP_WINDOWS_PID_TIMEOUT, Some gwa', wa2)
    \<and> windows_view M gwa' = Map.empty
    \<and> dk_procs (fst (w_sys wa2)) = dk_procs (fst (w_sys wb1)) @ [(rp, [CHAT_RECEIVER_BIN, ip_text a, decimal (unat p)]),
         (sp, [CHAT_SENDER_BIN, ip_text a, decimal (unat p), ann])]
    \<and> GroupWindows_Open M (desk_os fresh wb base) (Some gwb) (Some h) (Some (ip_text b)) r (Some bob) (wb1\<lparr>w_sys := w_sys wa2\<rparr>)
        = Some (GROUP_WINDOWS_SUCCESS, Some gwb', wb2)
    \<and> windows_view M gwb' = [h \<mapsto> \<lparr>m_sender = sp, m_receiver = rp\<rparr>]"
proof -
  let ?os = "desk_os fresh wb base" and ?ip = "ip_text a" and ?q = "length (dk_queues (fst (w_sys wa)))"
  obtain gwa wa1 where ca: "GroupWindows_Create M ?os wa = Some (Some gwa, wa1)" "desk_client M gwa ?q wa1" "windows_view M gwa = Map.empty"
      "fst (w_sys wa1) = (fst (w_sys wa))\<lparr>dk_queues := dk_queues (fst (w_sys wa)) @ [[]], dk_name := Some ?q\<rparr>"
    using create_desk [OF assms(1,3,9)] .
  let ?wb0 = "wb0\<lparr>w_sys := w_sys wa1\<rparr>"
  have "owns ?wb0 Map.empty" using assms(10) by (simp add: owns_def)
  then obtain gwb wb1 where cb: "GroupWindows_Create M ?os ?wb0 = Some (Some gwb, wb1)" "desk_client M gwb (Suc ?q) wb1" "windows_view M gwb = Map.empty"
      "fst (w_sys wb1) = (fst (w_sys wa))\<lparr>dk_queues := dk_queues (fst (w_sys wa)) @ [[], []], dk_name := Some (Suc ?q)\<rparr>"
    by (rule create_desk [OF assms(1,3)]) (use ca(4) in simp)
  let ?wa1 = "wa1\<lparr>w_sys := w_sys wb1\<rparr>" and ?d = "fst (w_sys wb1)"
  obtain rp sp where s: "dk_procs (both_started fresh ?ip p ann ?d)
      = dk_procs ?d @ [(rp, [CHAT_RECEIVER_BIN, ?ip, decimal (unat p)]), (sp, [CHAT_SENDER_BIN, ?ip, decimal (unat p), ann])]"
      "dk_name (both_started fresh ?ip p ann ?d) = Some (Suc ?q)"
      "dk_queues (both_started fresh ?ip p ann ?d) = dk_queues (fst (w_sys wa)) @
        [[], [\<lparr>m_role = CHAT_ROLE_RECEIVER, m_pid = rp\<rparr>, \<lparr>m_role = CHAT_ROLE_SENDER, m_pid = sp\<rparr>]]"
    by (rule both_started_desk [of fresh ?ip p ann ?d]) (use cb(4) in \<open>simp add: nth_append list_update_append\<close>)
  have "desk_client M gwa ?q ?wa1" using ca(2) cb(4) by (simp add: desk_client_def windows_inv_def owns_def)
  then obtain gwa' wa2 where oa: "GroupWindows_Open M ?os (Some gwa) (Some g) (Some ?ip) p (Some ann) ?wa1 = Some (GROUP_WINDOWS_PID_TIMEOUT, Some gwa', wa2)"
      "windows_view M gwa' = Map.empty" "fst (w_sys wa2) = both_started fresh ?ip p ann ?d"
    by (rule open_desk_plain [OF assms(1) _ _ assms(2-6), of gwa ?q ?wa1 g fresh a p])
      (use ca(3) s(3) in \<open>auto simp: nth_append same_queue\<close>)
  let ?wb1 = "wb1\<lparr>w_sys := w_sys wa2\<rparr>"
  obtain rp' sp' where s': "dk_queues (both_started fresh (ip_text b) r bob (fst (w_sys wa2))) ! Suc ?q
      = [\<lparr>m_role = CHAT_ROLE_RECEIVER, m_pid = rp\<rparr>, \<lparr>m_role = CHAT_ROLE_SENDER, m_pid = sp\<rparr>,
         \<lparr>m_role = CHAT_ROLE_RECEIVER, m_pid = rp'\<rparr>, \<lparr>m_role = CHAT_ROLE_SENDER, m_pid = sp'\<rparr>]"
    by (rule both_started_desk [of fresh "ip_text b" r bob "fst (w_sys wa2)"])
      (use oa(3) s(2,3) in \<open>simp add: nth_append list_update_append\<close>)
  have "desk_client M gwb (Suc ?q) ?wb1" using cb(2) oa(3) s(3) by (simp add: desk_client_def windows_inv_def owns_def)
  then obtain gwb' wb2 where "GroupWindows_Open M ?os (Some gwb) (Some h) (Some (ip_text b)) r (Some bob) ?wb1 = Some (GROUP_WINDOWS_SUCCESS, Some gwb', wb2)"
      "windows_view M gwb' = [h \<mapsto> \<lparr>m_sender = sp, m_receiver = rp\<rparr>]"
    by (rule open_desk_plain [OF assms(1) _ _ assms(2-4,7,8), of gwb "Suc ?q" ?wb1 h fresh b r])
      (use cb(3) s' in \<open>simp_all add: pair_of_def pid_event_def CHAT_ROLE_SENDER_def CHAT_ROLE_RECEIVER_def\<close>)
  then show ?thesis using ca(1) cb(1) oa s(1) by metis
qed

section \<open>A concrete machine\<close>

definition next_pid :: "desk \<Rightarrow> int" where
  "next_pid d = 100 + int (length (dk_procs d))"

definition ref_desk :: "(desk \<times> bool) client_os" where
  "ref_desk = desk_os next_pid ref_chat_os ref_os"

definition desk_world :: "(desk \<times> bool) world" where
  "desk_world = \<lparr>w_sys = (\<lparr>dk_queues = [], dk_name = None, dk_procs = []\<rparr>, False), w_stdin = [], w_trace = [], w_live = []\<rparr>"

lemma ref_desk_ok: "uninit_ok ref_os" "plenty ref_os" "owns desk_world Map.empty" "\<forall>d. 0 < next_pid d" "plain_word ''ann''" "plain_word ''bob''"
  using client_os_okD(1) [OF ref_os_ok] by (simp_all add: plenty_def ref_os_def owns_def desk_world_def next_pid_def plain_word_def plain_char_def)

lemma ref_desk_client:
  obtains gw w where "GroupWindows_Create chain_ops ref_desk desk_world = Some (Some gw, w)"
    and "desk_client chain_ops gw 0 w" and "windows_view chain_ops gw = (Map.empty :: string \<rightharpoonup> GroupPids)"
    and "dk_name (fst (w_sys w)) = Some 0" and "dk_queues (fst (w_sys w)) = [[]]"
  by (rule create_desk [OF windows.group_windows_axioms ref_desk_ok(2,3), of next_pid ref_chat_os])
    (auto simp: ref_desk_def desk_world_def intro: that)

theorem own_windows_tracked_witness:
  "\<exists>gw w gw' w' rp sp. GroupWindows_Create chain_ops ref_desk desk_world = Some (Some gw, w)
     \<and> GroupWindows_Open chain_ops ref_desk (Some gw) (Some ''room'') (Some (ip_text 16777455)) 5000 (Some ''ann'') w
         = Some (GROUP_WINDOWS_SUCCESS, Some gw', w')
     \<and> windows_view chain_ops gw' = [''room'' \<mapsto> \<lparr>m_sender = sp, m_receiver = rp\<rparr>] \<and> rp \<in> fst ` set (dk_procs (fst (w_sys w')))"
proof -
  obtain gw w where c: "GroupWindows_Create chain_ops ref_desk desk_world = Some (Some gw, w)" "desk_client chain_ops gw 0 w"
      "windows_view chain_ops gw = Map.empty" "dk_name (fst (w_sys w)) = Some 0" "dk_queues (fst (w_sys w)) = [[]]"
    by (rule ref_desk_client)
  then show ?thesis
    using own_windows_tracked [OF windows.group_windows_axioms c(2) _ ref_desk_ok(1,2) ref_chat_os_ok(1) ref_desk_ok(5) _ ref_desk_ok(4) c(4), of "''room''" 16777455 5000]
    by (simp add: ref_desk_def) fastforce
qed

theorem late_report_misattributed_witness:
  "\<exists>gw w gw' w' rp. GroupWindows_Create chain_ops ref_desk desk_world = Some (Some gw, w)
     \<and> GroupWindows_Open chain_ops ref_desk (Some gw) (Some ''room'') (Some (ip_text 16777455)) 5000 (Some ''ann'')
         (ChatIpc_ReportPid (window_os 77 ref_chat_os) CHAT_ROLE_SENDER w) = Some (GROUP_WINDOWS_SUCCESS, Some gw', w')
     \<and> windows_view chain_ops gw' ''room'' = Some \<lparr>m_sender = 77, m_receiver = rp\<rparr>"
proof -
  obtain gw w where c: "GroupWindows_Create chain_ops ref_desk desk_world = Some (Some gw, w)" "desk_client chain_ops gw 0 w"
      "windows_view chain_ops gw = Map.empty" "dk_name (fst (w_sys w)) = Some 0" "dk_queues (fst (w_sys w)) = [[]]"
    by (rule ref_desk_client)
  let ?w = "ChatIpc_ReportPid (window_os 77 ref_chat_os) CHAT_ROLE_SENDER w"
  have "w_live ?w = w_live w" by (auto simp: ChatIpc_ReportPid_def Let_def call_frame split: prod.splits)
  then have d: "desk_client chain_ops gw 0 ?w" using c(2,4,5) by (simp add: desk_client_def windows_inv_def owns_def report_desk post_def)
  show ?thesis
    using late_report_misattributed [OF windows.group_windows_axioms d _ ref_desk_ok(1,2) ref_chat_os_ok(1) ref_desk_ok(5) _ refl c(4),
        of "''room''" next_pid 16777455 5000] c(1,3,5) by (simp add: ref_desk_def) blast
qed

lemma blank_name_example:
  "\<exists>gw w gw' w'. GroupWindows_Create chain_ops ref_desk desk_world = Some (Some gw, w)
     \<and> GroupWindows_Open chain_ops ref_desk (Some gw) (Some ''room'') (Some (ip_text 16777455)) 5000 (Some (''ann'' @ '' '' @ ''bob'')) w
         = Some (GROUP_WINDOWS_PID_TIMEOUT, Some gw', w')
     \<and> windows_view chain_ops gw' = Map.empty"
proof -
  obtain gw w where c: "GroupWindows_Create chain_ops ref_desk desk_world = Some (Some gw, w)" "desk_client chain_ops gw 0 w"
      "windows_view chain_ops gw = Map.empty" "dk_name (fst (w_sys w)) = Some 0" "dk_queues (fst (w_sys w)) = [[]]"
    by (rule ref_desk_client)
  then show ?thesis
    using blank_name_no_windows [OF windows.group_windows_axioms c(2) _ ref_desk_ok(1,2,5,6) _ ref_desk_ok(4) c(4), of "''room''" ref_chat_os 16777455 5000]
    by (simp add: ref_desk_def) fastforce
qed

theorem second_client_takes_reports_witness:
  "\<exists>gwa wa1 gwb wb1 gwa' wa2 rp sp gwb' wb2.
      GroupWindows_Create chain_ops ref_desk desk_world = Some (Some gwa, wa1)
    \<and> GroupWindows_Create chain_ops ref_desk (desk_world\<lparr>w_sys := w_sys wa1\<rparr>) = Some (Some gwb, wb1)
    \<and> GroupWindows_Open chain_ops ref_desk (Some gwa) (Some ''room'') (Some (ip_text 16777455)) 5000 (Some ''ann'') (wa1\<lparr>w_sys := w_sys wb1\<rparr>)
        = Some (GROUP_WINDOWS_PID_TIMEOUT, Some gwa', wa2)
    \<and> GroupWindows_Open chain_ops ref_desk (Some gwb) (Some ''den'') (Some (ip_text 16777455)) 5001 (Some ''bob'') (wb1\<lparr>w_sys := w_sys wa2\<rparr>)
        = Some (GROUP_WINDOWS_SUCCESS, Some gwb', wb2)
    \<and> windows_view chain_ops gwb' = [''den'' \<mapsto> \<lparr>m_sender = sp, m_receiver = rp\<rparr>]"
  using second_client_takes_reports [OF windows.group_windows_axioms ref_desk_ok(1,2) ref_chat_os_ok(1) ref_desk_ok(5) _ ref_desk_ok(6) _ ref_desk_ok(3,3),
      of next_pid "''room''" 16777455 5000 "''den''" 16777455 5001]
  by (simp add: ref_desk_def) blast

end
