(* ===== verification/Logger.thy ===== *)
theory Logger
  imports Network_Utils
begin

text \<open>
  \<open>src/utils/logger.h\<close>: the log line, the level gates and the soft assertion.  The program point (\<open>__FILE__\<close>,
  \<open>__LINE__\<close>, \<open>__func__\<close>) and the expanded format are arguments, the clock, the terminal test and the bytes of
  the uninitialised time buffer come from an environment.  A macro yields what it appends to the standard error
  stream, and \<^term>\<open>None\<close> when it reads a buffer without a terminator.

  The lemmas show that the time buffer of 20 bytes is exactly large enough up to the year 9999, what the line then
  is, and that no macro but the enabled ones writes anything.
\<close>

section \<open>The time stamp\<close>

record tm =
  tm_year :: nat
  tm_mon :: nat
  tm_mday :: nat
  tm_hour :: nat
  tm_min :: nat
  tm_sec :: nat

text \<open>Two decimal digits, as \<open>%m\<close>, \<open>%d\<close>, \<open>%H\<close>, \<open>%M\<close> and \<open>%S\<close> print them; \<open>%Y\<close> is the year without padding.\<close>

definition two_digits :: "nat \<Rightarrow> string" where
  "two_digits n = (if n < 10 then ''0'' @ decimal n else decimal n)"

definition time_text :: "tm \<Rightarrow> string" where
  "time_text t = decimal (1900 + tm_year t) @ ''-'' @ two_digits (tm_mon t + 1) @ ''-'' @ two_digits (tm_mday t)
     @ '' '' @ two_digits (tm_hour t) @ '':'' @ two_digits (tm_min t) @ '':'' @ two_digits (tm_sec t)"

text \<open>\<open>strftime\<close>: when the text and its terminator do not fit, the result is 0 and the contents are unspecified.\<close>

definition strftime :: "string \<Rightarrow> nat \<Rightarrow> string \<Rightarrow> string \<Rightarrow> (nat \<times> string) option" where
  "strftime spoilt n txt buf =
     (if length txt < n then do { buf' \<leftarrow> mem_write buf 0 (txt @ [NUL]); Some (length txt, buf') }
      else Some (0, spoilt))"

section \<open>Levels and colours\<close>

definition LOG_LEVEL_DEBUG :: nat where "LOG_LEVEL_DEBUG = 0"
definition LOG_LEVEL_INFO :: nat where "LOG_LEVEL_INFO = 1"
definition LOG_LEVEL_WARN :: nat where "LOG_LEVEL_WARN = 2"
definition LOG_LEVEL_ERROR :: nat where "LOG_LEVEL_ERROR = 3"
definition LOG_LEVEL_NONE :: nat where "LOG_LEVEL_NONE = 4"

lemmas log_level_defs = LOG_LEVEL_DEBUG_def LOG_LEVEL_INFO_def LOG_LEVEL_WARN_def LOG_LEVEL_ERROR_def LOG_LEVEL_NONE_def

definition LOG_COLOR_DEBUG :: string where "LOG_COLOR_DEBUG = CHR 0x1B # ''[36m''"
definition LOG_COLOR_INFO :: string where "LOG_COLOR_INFO = CHR 0x1B # ''[32m''"
definition LOG_COLOR_WARN :: string where "LOG_COLOR_WARN = CHR 0x1B # ''[33m''"
definition LOG_COLOR_ERROR :: string where "LOG_COLOR_ERROR = CHR 0x1B # ''[31m''"
definition LOG_COLOR_ASSERT :: string where "LOG_COLOR_ASSERT = CHR 0x1B # ''[1;5;97;41m''"
definition LOG_COLOR_RESET :: string where "LOG_COLOR_RESET = CHR 0x1B # ''[0m''"

section \<open>The macros\<close>

record log_env =
  le_time :: tm
  le_isatty :: bool
  le_force_color :: bool
  le_buf :: string
  le_spoilt :: string

record log_site =
  ls_file :: string
  ls_line :: nat
  ls_func :: string

text \<open>\<open>%-5s\<close>.\<close>

definition pad_right :: "nat \<Rightarrow> string \<Rightarrow> string" where
  "pad_right n s = s @ replicate (n - length s) (CHR '' '')"

definition LOG_WRITE :: "log_env \<Rightarrow> log_site \<Rightarrow> string \<Rightarrow> string \<Rightarrow> string \<Rightarrow> string option" where
  "LOG_WRITE le ls color level_str msg = do {
     let tty = le_isatty le \<or> le_force_color le;
     (_, buf) \<leftarrow> strftime (le_spoilt le) 20 (time_text (le_time le)) (le_buf le);
     time \<leftarrow> c_string_at buf 0;
     Some (''['' @ time @ ''] '' @ (if tty then color else []) @ ''['' @ pad_right 5 level_str @ '']''
           @ (if tty then LOG_COLOR_RESET else []) @ '' '' @ ls_file ls @ '':'' @ decimal (ls_line ls)
           @ '' ('' @ ls_func ls @ '') - '' @ msg @ [CHR 0x0A])
   }"

text \<open>The level is fixed when the program is compiled; it is the first argument.\<close>

definition LOG_DEBUG :: "nat \<Rightarrow> log_env \<Rightarrow> log_site \<Rightarrow> string \<Rightarrow> string option" where
  "LOG_DEBUG level le ls msg = (if level \<le> LOG_LEVEL_DEBUG then LOG_WRITE le ls LOG_COLOR_DEBUG ''DEBUG'' msg else Some [])"

definition LOG_INFO :: "nat \<Rightarrow> log_env \<Rightarrow> log_site \<Rightarrow> string \<Rightarrow> string option" where
  "LOG_INFO level le ls msg = (if level \<le> LOG_LEVEL_INFO then LOG_WRITE le ls LOG_COLOR_INFO ''INFO'' msg else Some [])"

definition LOG_WARN :: "nat \<Rightarrow> log_env \<Rightarrow> log_site \<Rightarrow> string \<Rightarrow> string option" where
  "LOG_WARN level le ls msg = (if level \<le> LOG_LEVEL_WARN then LOG_WRITE le ls LOG_COLOR_WARN ''WARN'' msg else Some [])"

definition LOG_ERROR :: "nat \<Rightarrow> log_env \<Rightarrow> log_site \<Rightarrow> string \<Rightarrow> string option" where
  "LOG_ERROR level le ls msg = (if level \<le> LOG_LEVEL_ERROR then LOG_WRITE le ls LOG_COLOR_ERROR ''ERROR'' msg else Some [])"

text \<open>The soft assertion with the text of its condition; it is not gated by the level.\<close>

definition SOFT_ASSERT :: "log_env \<Rightarrow> log_site \<Rightarrow> bool \<Rightarrow> string \<Rightarrow> string option" where
  "SOFT_ASSERT le ls cond text =
     (if \<not> cond then LOG_WRITE le ls LOG_COLOR_ASSERT ''BUG!!'' (''>>>>> SOFT ASSERT FAILED: ( '' @ text @ '' ) <<<<<'')
      else Some [])"

section \<open>Lemmas\<close>

definition tm_ok :: "tm \<Rightarrow> bool" where
  "tm_ok t \<longleftrightarrow> tm_mon t < 12 \<and> 1 \<le> tm_mday t \<and> tm_mday t \<le> 31 \<and> tm_hour t < 24 \<and> tm_min t < 60 \<and> tm_sec t \<le> 60"

lemma decimal_length_lower: "10 ^ k \<le> n \<Longrightarrow> Suc k \<le> length (decimal n)"
proof (induction k arbitrary: n)
  case (Suc k)
  have "10 ^ k \<le> n div 10" using Suc.prems by (simp add: less_eq_div_iff_mult_less_eq mult.commute)
  then have "Suc k \<le> length (decimal (n div 10))" by (rule Suc.IH)
  moreover have "\<not> n < 10" using \<open>10 ^ k \<le> n div 10\<close> by (cases "n < 10") simp_all
  ultimately show ?case by (subst decimal.simps) simp
qed (subst decimal.simps, simp)

lemma decimal_length_exact: "10 ^ k \<le> n \<Longrightarrow> n < 10 ^ Suc k \<Longrightarrow> length (decimal n) = Suc k"
  using decimal_length_lower decimal_length by (intro antisym)

lemma length_two_digits: "n < 100 \<Longrightarrow> length (two_digits n) = 2"
  using decimal_length_exact [of 0 n] decimal_length_exact [of 1 n] by (cases "n = 0") (auto simp: two_digits_def decimal.simps [of 0])

lemma time_text_no_NUL: "NUL \<notin> set (time_text t)"
  using decimal_no_NUL by (auto simp: time_text_def two_digits_def NUL_def)

lemma length_time_text:
  assumes "tm_ok t"
  shows "length (time_text t) = length (decimal (1900 + tm_year t)) + 15"
  using assms by (simp add: tm_ok_def time_text_def length_two_digits)

lemma time_text_fits:
  assumes "tm_ok t"
  shows "length (time_text t) < 20 \<longleftrightarrow> 1900 + tm_year t < 10000"
  using decimal_length_lower [of 4 "1900 + tm_year t"] decimal_length [of "1900 + tm_year t" 3]
  by (cases "1900 + tm_year t < 10000") (simp_all add: length_time_text [OF assms])

text \<open>
  The time buffer.  Its 20 bytes hold the time stamp up to the year 9999, and the line is then written whatever the
  buffer held before; from the year 10000 on the line shows the unspecified contents of the buffer, and is undefined
  when these hold no terminator.
\<close>

lemma log_write_line:
  assumes "length (le_buf le) = 20" and "tm_ok (le_time le)"
  shows "LOG_WRITE le ls color level_str msg =
    map_option (\<lambda>time. ''['' @ time @ ''] '' @ (if le_isatty le \<or> le_force_color le then color else []) @ ''['' @ pad_right 5 level_str @ '']''
           @ (if le_isatty le \<or> le_force_color le then LOG_COLOR_RESET else []) @ '' '' @ ls_file ls @ '':'' @ decimal (ls_line ls)
           @ '' ('' @ ls_func ls @ '') - '' @ msg @ [CHR 0x0A])
      (if 1900 + tm_year (le_time le) < 10000 then Some (time_text (le_time le)) else c_string_at (le_spoilt le) 0)"
proof (cases "1900 + tm_year (le_time le) < 10000")
  case True
  let ?t = "time_text (le_time le)"
  have len: "length ?t < 20" using True time_text_fits [OF assms(2)] by simp
  have w: "mem_write (le_buf le) 0 (?t @ [NUL]) = Some (?t @ NUL # drop (Suc (length ?t)) (le_buf le))"
    using len assms(1) mem_write_start [of "?t @ [NUL]" "le_buf le"] by simp
  have "c_string_at (?t @ NUL # drop (Suc (length ?t)) (le_buf le)) 0 = Some ?t"
    using c_string_at_append [where pre = "[]"] time_text_no_NUL by simp
  then show ?thesis using True len w by (simp add: LOG_WRITE_def strftime_def Let_def)
next
  case False
  then have "\<not> length (time_text (le_time le)) < 20" using time_text_fits [OF assms(2)] by simp
  then show ?thesis using False
    by (cases "c_string_at (le_spoilt le) 0") (simp_all add: LOG_WRITE_def strftime_def Let_def)
qed

text \<open>Before that year every macro returns; which of them write is decided by the level alone, and the soft assertion always.\<close>

lemma log_macros_write:
  assumes "length (le_buf le) = 20" and "tm_ok (le_time le)" and "1900 + tm_year (le_time le) < 10000"
  shows "\<exists>out. LOG_DEBUG level le ls msg = Some out \<and> (out = [] \<longleftrightarrow> LOG_LEVEL_DEBUG < level)"
    and "\<exists>out. LOG_INFO level le ls msg = Some out \<and> (out = [] \<longleftrightarrow> LOG_LEVEL_INFO < level)"
    and "\<exists>out. LOG_WARN level le ls msg = Some out \<and> (out = [] \<longleftrightarrow> LOG_LEVEL_WARN < level)"
    and "\<exists>out. LOG_ERROR level le ls msg = Some out \<and> (out = [] \<longleftrightarrow> LOG_LEVEL_ERROR < level)"
    and "\<exists>out. SOFT_ASSERT le ls cond text = Some out \<and> (out = [] \<longleftrightarrow> cond)"
  using log_write_line [OF assms(1,2), of ls] assms(3)
  by (simp_all add: LOG_DEBUG_def LOG_INFO_def LOG_WARN_def LOG_ERROR_def SOFT_ASSERT_def)

end
