(* ===== verification/Unit_Tests.thy ===== *)
theory Unit_Tests
  imports Network_Protocol Client_Menu
begin

text \<open>
  The unit tests of the repository, run in the model: \<open>tests/test_network_protocol.c\<close>, \<open>Client/tests/test_menu.c\<close> and
  \<open>ServerNet/unittests/test_network_utils.c\<close>.  A test function yields the conditions of its assertions in order, or
  \<^term>\<open>None\<close> where it would leave an object; its uninitialised local arrays are arguments.  The lemmas at the end show
  that every suite returns 0, whatever the arrays held.
\<close>

section \<open>The protocol\<close>

definition TestSerialize :: "string \<Rightarrow> string \<Rightarrow> bool list option" where
  "TestSerialize buf uninit = do {
     value \<leftarrow> mem_write uninit 0 ''hello'';
     let msg = \<lparr>m_opcode = OPCODE_REGISTER, m_length = 5, m_status = CHAT_OK, m_value = value\<rparr>;
     (n, b) \<leftarrow> SerializeChatMessage (Some msg) (Some buf) CHAT_MAX_TOTAL;
     buf1 \<leftarrow> b;
     bytes \<leftarrow> mem_read buf1 CHAT_HEADER_SIZE 5;
     (no_msg, _) \<leftarrow> SerializeChatMessage None (Some buf1) CHAT_MAX_TOTAL;
     (no_buf, _) \<leftarrow> SerializeChatMessage (Some msg) None CHAT_MAX_TOTAL;
     (small, _) \<leftarrow> SerializeChatMessage (Some msg) (Some buf1) 2;
     Some [n = int (CHAT_HEADER_SIZE + 5), of_char (buf1 ! 0) = unat OPCODE_REGISTER, of_char (buf1 ! 1) = (5 :: nat),
           of_char (buf1 ! 2) = (0 :: nat), of_char (buf1 ! 3) = unat CHAT_OK, bytes = ''hello'',
           no_msg = - 1, no_buf = - 1, small = - 1]
   }"

definition TestDeserialize :: "string \<Rightarrow> ChatMessage \<Rightarrow> bool list option" where
  "TestDeserialize uninit out = do {
     header \<leftarrow> mem_write uninit 0 [char_of_word OPCODE_LOGIN, char_of (5 :: nat), NUL, char_of_word CHAT_OK];
     buf \<leftarrow> mem_write header CHAT_HEADER_SIZE ''world'';
     (st, m) \<leftarrow> DeserializeChatMessage (Some buf) (CHAT_HEADER_SIZE + 5) (Some out);
     msg \<leftarrow> m;
     bytes \<leftarrow> mem_read (m_value msg) 0 5;
     (no_buf, m1) \<leftarrow> DeserializeChatMessage None 10 (Some msg);
     (no_out, _) \<leftarrow> DeserializeChatMessage (Some buf) 10 None;
     (short, m2) \<leftarrow> DeserializeChatMessage (Some buf) (CHAT_HEADER_SIZE - 1) m1;
     buf1 \<leftarrow> mem_write buf 1 [CHR 0xFF, CHR 0xFF];
     (long, _) \<leftarrow> DeserializeChatMessage (Some buf1) CHAT_MAX_TOTAL m2;
     Some [st = CHAT_OK, m_opcode msg = OPCODE_LOGIN, m_length msg = 5, m_status msg = CHAT_OK, bytes = ''world'',
           no_buf \<noteq> CHAT_OK, no_out \<noteq> CHAT_OK, short \<noteq> CHAT_OK, long \<noteq> CHAT_OK]
   }"

definition TestRoundtrip :: "string \<Rightarrow> string \<Rightarrow> ChatMessage \<Rightarrow> bool list option" where
  "TestRoundtrip uninit buf out = do {
     let name = ''alice'';
     let pass = ''s3cr3t'';
     let value_len = length name + 1 + length pass + 1;
     value1 \<leftarrow> mem_write uninit 0 (name @ [NUL]);
     value \<leftarrow> mem_write value1 (length name + 1) (pass @ [NUL]);
     let orig = \<lparr>m_opcode = OPCODE_REGISTER, m_length = of_nat value_len, m_status = CHAT_OK, m_value = value\<rparr>;
     (n, b) \<leftarrow> SerializeChatMessage (Some orig) (Some buf) CHAT_MAX_TOTAL;
     (st, d) \<leftarrow> DeserializeChatMessage b (nat n) (Some out);
     decoded \<leftarrow> d;
     name' \<leftarrow> c_string_at (m_value decoded) 0;
     pass' \<leftarrow> c_string_at (m_value decoded) (length name + 1);
     Some [n > 0, st = CHAT_OK, m_opcode decoded = m_opcode orig, m_length decoded = m_length orig,
           m_status decoded = m_status orig, c_strcmp name' name = 0, c_strcmp pass' pass = 0]
   }"

definition TestOpcodeSign :: "string \<Rightarrow> string \<Rightarrow> bool list option" where
  "TestOpcodeSign buf uninit = do {
     (_, b) \<leftarrow> SerializeChatMessage (Some \<lparr>m_opcode = OPCODE_RESPONSE, m_length = 0, m_status = CHAT_OK, m_value = uninit\<rparr>)
                (Some buf) CHAT_MAX_TOTAL;
     buf1 \<leftarrow> b;
     Some [Chat_GetOpcode buf1 = OPCODE_RESPONSE]
   }"

definition TestValidate :: "bool list" where
  "TestValidate =
     [Chat_Validate (CHAT_HEADER_SIZE + 10) 10 = CHAT_OK, Chat_Validate CHAT_MAX_TOTAL CHAT_MAX_VALUE = CHAT_OK,
      Chat_Validate (CHAT_HEADER_SIZE + 10) (CHAT_MAX_VALUE + 1) \<noteq> CHAT_OK, Chat_Validate (CHAT_HEADER_SIZE + 5) 10 \<noteq> CHAT_OK]"

definition test_network_protocol_main :: "string \<Rightarrow> string \<Rightarrow> ChatMessage \<Rightarrow> int option" where
  "test_network_protocol_main buf uninit out = do {
     serialize \<leftarrow> TestSerialize buf uninit;
     deserialize \<leftarrow> TestDeserialize buf out;
     roundtrip \<leftarrow> TestRoundtrip uninit buf out;
     opcode_sign \<leftarrow> TestOpcodeSign buf uninit;
     let s_failures = length (filter Not (serialize @ deserialize @ roundtrip @ opcode_sign @ TestValidate));
     Some (if s_failures = 0 then 0 else 1)
   }"

section \<open>The menu\<close>

definition test_disconnected_options :: "bool list" where
  "test_disconnected_options =
     [Menu_Parse (Some ''1'') SESSION_DISCONNECTED = MENU_CONNECT, Menu_Parse (Some ''2'') SESSION_DISCONNECTED = MENU_EXIT,
      Menu_Parse (Some ''3'') SESSION_DISCONNECTED = MENU_NONE, Menu_Parse (Some ''0'') SESSION_DISCONNECTED = MENU_NONE]"

definition test_connected_options :: "bool list" where
  "test_connected_options =
     [Menu_Parse (Some ''1'') SESSION_CONNECTED = MENU_REGISTER, Menu_Parse (Some ''2'') SESSION_CONNECTED = MENU_LOGIN,
      Menu_Parse (Some ''3'') SESSION_CONNECTED = MENU_EXIT, Menu_Parse (Some ''4'') SESSION_CONNECTED = MENU_NONE]"

definition test_logged_in_options :: "bool list" where
  "test_logged_in_options =
     [Menu_Parse (Some ''1'') SESSION_LOGGED_IN = MENU_LOGOUT, Menu_Parse (Some ''2'') SESSION_LOGGED_IN = MENU_CREATE_GROUP,
      Menu_Parse (Some ''3'') SESSION_LOGGED_IN = MENU_JOIN_GROUP, Menu_Parse (Some ''4'') SESSION_LOGGED_IN = MENU_LEAVE_GROUP,
      Menu_Parse (Some ''5'') SESSION_LOGGED_IN = MENU_DISPLAY_USERS, Menu_Parse (Some ''6'') SESSION_LOGGED_IN = MENU_DISPLAY_GROUPS,
      Menu_Parse (Some ''7'') SESSION_LOGGED_IN = MENU_EXIT, Menu_Parse (Some ''8'') SESSION_LOGGED_IN = MENU_NONE]"

definition test_whitespace_and_junk :: "bool list" where
  "test_whitespace_and_junk =
     [Menu_Parse (Some []) SESSION_DISCONNECTED = MENU_NONE, Menu_Parse (Some ''   '') SESSION_DISCONNECTED = MENU_NONE,
      Menu_Parse (Some ''abc'') SESSION_CONNECTED = MENU_NONE, Menu_Parse (Some ''1abc'') SESSION_CONNECTED = MENU_NONE,
      Menu_Parse (Some '' 1 '') SESSION_CONNECTED = MENU_REGISTER, Menu_Parse (Some ''-1'') SESSION_CONNECTED = MENU_NONE,
      Menu_Parse None SESSION_CONNECTED = MENU_NONE]"

definition test_exit_reachable_everywhere :: "bool list" where
  "test_exit_reachable_everywhere =
     [Menu_Parse (Some ''2'') SESSION_DISCONNECTED = MENU_EXIT, Menu_Parse (Some ''3'') SESSION_CONNECTED = MENU_EXIT,
      Menu_Parse (Some ''7'') SESSION_LOGGED_IN = MENU_EXIT]"

definition test_menu_main :: int where
  "test_menu_main =
     (let s_failed = length (filter Not (test_disconnected_options @ test_connected_options @ test_logged_in_options
                                         @ test_whitespace_and_junk @ test_exit_reachable_everywhere))
      in if s_failed = 0 then 0 else 1)"

section \<open>Addresses\<close>

definition htonl :: "32 word \<Rightarrow> 32 word" where
  "htonl w = addr_of_bytes (rev (addr_bytes w))"

text \<open>One conversion and the comparison of the C string in the buffer; the buffer is used again.\<close>

definition check_conversion :: "32 word \<Rightarrow> string \<Rightarrow> string \<Rightarrow> (bool \<times> string) option" where
  "check_conversion addr expected buf = do {
     (ok, buf') \<leftarrow> network_convert_ip_n_to_p addr (Some buf);
     txt \<leftarrow> c_string_at buf' 0;
     Some (ok \<and> c_strcmp txt expected = 0, buf')
   }"

definition test_basic_conversion :: "string \<Rightarrow> bool list option" where
  "test_basic_conversion buf = do {
     (c1, buf1) \<leftarrow> check_conversion (htonl 0xC0A80101) ''192.168.1.1'' buf;
     (c2, buf2) \<leftarrow> check_conversion 0x00000000 ''0.0.0.0'' buf1;
     (c3, _) \<leftarrow> check_conversion 0xFFFFFFFF ''255.255.255.255'' buf2;
     Some [c1, c2, c3]
   }"

text \<open>The child process is aborted exactly when the call does not return.\<close>

definition test_assert_on_null_buffer :: "bool list option" where
  "test_assert_on_null_buffer =
     (let aborted = (network_convert_ip_n_to_p 0x7F000001 None = None) in Some [aborted, aborted])"

definition test_convert_ip_p_to_n :: "bool list option" where
  "test_convert_ip_p_to_n =
     Some [network_convert_ip_p_to_n (Some ''192.168.1.1'') = htonl 0xC0A80101, network_convert_ip_p_to_n (Some ''0.0.0.0'') = 0x00000000,
           network_convert_ip_p_to_n (Some ''255.255.255.255'') = 0xFFFFFFFF]"

text \<open>\<open>RUN_TEST\<close>: a test with a failed check counts as failed.\<close>

definition RUN_TEST :: "bool list option \<Rightarrow> nat \<Rightarrow> nat option" where
  "RUN_TEST test failed_tests = do { checks \<leftarrow> test; Some (if False \<in> set checks then Suc failed_tests else failed_tests) }"

definition test_network_utils_main :: "string \<Rightarrow> int option" where
  "test_network_utils_main buf = do {
     f1 \<leftarrow> RUN_TEST (test_basic_conversion buf) 0;
     f2 \<leftarrow> RUN_TEST test_assert_on_null_buffer f1;
     f3 \<leftarrow> RUN_TEST test_convert_ip_p_to_n f2;
     Some (if f3 = 0 then 0 else 1)
   }"

section \<open>The suites pass\<close>

lemmas menu_test_defs = test_disconnected_options_def test_connected_options_def test_logged_in_options_def
  test_whitespace_and_junk_def test_exit_reachable_everywhere_def

lemma menu_tests_pass: "test_menu_main = 0"
  by code_simp

text \<open>The facts about the codec with the length of the payload as a number of its own.\<close>

lemma mem_write_prefix: "k = length s \<Longrightarrow> k \<le> length b \<Longrightarrow> mem_write b 0 s = Some (s @ drop k b)"
  by (simp add: mem_write_start)

lemma frame_encoded:
  assumes "length payload = k" and "k < 65536" and "k + length rest = CHAT_MAX_VALUE" and "length buf = CHAT_MAX_TOTAL"
  shows "SerializeChatMessage (Some \<lparr>m_opcode = opcode, m_length = of_nat k, m_status = status, m_value = payload @ rest\<rparr>) (Some buf) CHAT_MAX_TOTAL
    = Some (int (CHAT_HEADER_SIZE + k), Some (frame opcode status payload @ drop (CHAT_HEADER_SIZE + k) buf))"
  using SerializeChatMessage_frame [of "\<lparr>m_opcode = opcode, m_length = of_nat k, m_status = status, m_value = payload @ rest\<rparr>" CHAT_MAX_TOTAL buf]
    assms unat_word16 [OF assms(2)] by (simp add: msg_ok_def size_defs)

lemma frame_decoded:
  assumes "length payload = k" and "k < 128" and "opcode < 256" and "status < 128"
    and "CHAT_HEADER_SIZE + k \<le> n" and "n \<le> CHAT_HEADER_SIZE + k + length rest" and "msg_ok out"
  shows "DeserializeChatMessage (Some (frame opcode status payload @ rest)) n (Some out)
    = Some (CHAT_OK, Some \<lparr>m_opcode = opcode, m_length = of_nat k, m_status = status, m_value = payload @ drop k (m_value out)\<rparr>)"
  using DeserializeChatMessage_frame [of payload opcode status n rest out] assms by (simp add: size_defs)

lemma frame_five: "length payload = 5 \<Longrightarrow> frame opcode status payload = [char_of_word opcode, char_of (5 :: nat), NUL, char_of_word status] @ payload"
  by (simp add: frame_def NUL_def char_of_def)

lemma serialize_test_passes:
  assumes "length buf = CHAT_MAX_TOTAL" and "length uninit = CHAT_MAX_VALUE"
  shows "\<exists>checks. TestSerialize buf uninit = Some checks \<and> set checks = {True}"
proof -
  define hello where "hello = ''hello''"
  then have l: "length hello = 5" by simp
  let ?msg = "\<lparr>m_opcode = OPCODE_REGISTER, m_length = 5, m_status = CHAT_OK, m_value = hello @ drop 5 uninit\<rparr>"
  let ?f = "frame OPCODE_REGISTER CHAT_OK hello @ drop 9 buf"
  have v: "mem_write uninit 0 hello = Some (hello @ drop 5 uninit)"
    using assms mem_write_prefix [of 5 hello uninit] l by (simp add: size_defs)
  have s: "SerializeChatMessage (Some ?msg) (Some buf) CHAT_MAX_TOTAL = Some (9, Some ?f)"
    using assms frame_encoded [OF l, of "drop 5 uninit" buf OPCODE_REGISTER CHAT_OK] by (simp add: size_defs)
  have r: "mem_read ?f CHAT_HEADER_SIZE 5 = Some hello" using l by (simp add: mem_read_def frame_five size_defs)
  have n: "SerializeChatMessage (Some ?msg) (Some ?f) 2 = Some (- 1, Some ?f)"
    by (simp add: SerializeChatMessage_def Let_def size_defs)
  have b: "of_char (?f ! 0) = unat OPCODE_REGISTER" "of_char (?f ! 1) = (5 :: nat)" "of_char (?f ! 2) = (0 :: nat)"
      "of_char (?f ! 3) = unat CHAT_OK"
    using l by (simp_all add: frame_five char_of_word_def opcode_defs CHAT_OK_def NUL_def)
  show ?thesis unfolding TestSerialize_def hello_def [symmetric]
    using v s r n b by (simp add: Let_def SerializeChatMessage_def [of None] SerializeChatMessage_def [of _ None] size_defs)
qed

lemma deserialize_test_passes:
  assumes "length uninit = CHAT_MAX_TOTAL" and "msg_ok out"
  shows "\<exists>checks. TestDeserialize uninit out = Some checks \<and> set checks = {True}"
proof -
  define world where "world = ''world''"
  then have l: "length world = 5" by simp
  let ?h = "[char_of_word OPCODE_LOGIN, char_of (5 :: nat), NUL, char_of_word CHAT_OK]"
  let ?buf = "frame OPCODE_LOGIN CHAT_OK world @ drop 9 uninit"
  let ?msg = "\<lparr>m_opcode = OPCODE_LOGIN, m_length = 5, m_status = CHAT_OK, m_value = world @ drop 5 (m_value out)\<rparr>"
  let ?buf1 = "char_of_word OPCODE_LOGIN # CHR 0xFF # CHR 0xFF # char_of_word CHAT_OK # world @ drop 9 uninit"
  have h: "mem_write uninit 0 ?h = Some (?h @ drop 4 uninit)"
    using assms(1) mem_write_prefix [of 4 ?h uninit] by (simp add: size_defs)
  have b: "mem_write (?h @ drop 4 uninit) CHAT_HEADER_SIZE world = Some ?buf"
    using assms(1) l by (simp add: mem_write_def size_defs frame_five)
  have d: "DeserializeChatMessage (Some ?buf) (CHAT_HEADER_SIZE + 5) (Some out) = Some (CHAT_OK, Some ?msg)"
    using assms frame_decoded [OF l, of OPCODE_LOGIN CHAT_OK "CHAT_HEADER_SIZE + 5" "drop 9 uninit" out]
    by (simp add: size_defs opcode_defs CHAT_OK_def)
  have w: "mem_write ?buf 1 [CHR 0xFF, CHR 0xFF] = Some ?buf1" using l by (simp add: mem_write_def frame_five)
  have e: "Chat_GetLength (a # CHR 0xFF # CHR 0xFF # bs) = 65535" for a bs by (simp add: Chat_GetLength_def schar_def of_char_def)
  have "DeserializeChatMessage (Some ?buf1) CHAT_MAX_TOTAL (Some ?msg) = Some (CHAT_ERR_MALFORMED, Some ?msg)"
    by (simp add: DeserializeChatMessage_def Let_def Chat_Validate_def e status_defs size_defs)
  moreover have "DeserializeChatMessage (Some ?buf) (CHAT_HEADER_SIZE - 1) (Some ?msg) = Some (CHAT_ERR_MALFORMED, Some ?msg)"
    by (simp add: DeserializeChatMessage_def size_defs)
  moreover have "mem_read (m_value ?msg) 0 5 = Some world" using l by (simp add: mem_read_def)
  ultimately show ?thesis unfolding TestDeserialize_def world_def [symmetric] using h b d w
    by (simp add: status_defs DeserializeChatMessage_def [of None] DeserializeChatMessage_def [of _ _ None])
qed

lemma roundtrip_test_passes:
  assumes "length uninit = CHAT_MAX_VALUE" and "length buf = CHAT_MAX_TOTAL" and "msg_ok out"
  shows "\<exists>checks. TestRoundtrip uninit buf out = Some checks \<and> set checks = {True}"
proof -
  define name where "name = ''alice''"
  define pass where "pass = ''s3cr3t''"
  have l: "length name = 5" "length pass = 6" "NUL \<notin> set name" "NUL \<notin> set pass" by (simp_all add: name_def pass_def NUL_def)
  have same: "c_strcmp s s = 0" for s by (induction s) auto
  let ?v = "name @ NUL # pass @ [NUL]"
  have k: "length ?v = 13" using l by simp
  let ?f = "frame OPCODE_REGISTER CHAT_OK ?v @ drop 17 buf"
  let ?dec = "\<lparr>m_opcode = OPCODE_REGISTER, m_length = 13, m_status = CHAT_OK, m_value = ?v @ drop 13 (m_value out)\<rparr>"
  have v1: "mem_write uninit 0 (name @ [NUL]) = Some (name @ NUL # drop 6 uninit)"
    using assms(1) mem_write_prefix [of 6 "name @ [NUL]" uninit] l by (simp add: size_defs)
  have v2: "mem_write (name @ NUL # drop 6 uninit) 6 (pass @ [NUL]) = Some (?v @ drop 13 uninit)"
    using assms(1) l by (simp add: mem_write_def size_defs)
  have s: "SerializeChatMessage (Some \<lparr>m_opcode = OPCODE_REGISTER, m_length = 13, m_status = CHAT_OK, m_value = ?v @ drop 13 uninit\<rparr>)
      (Some buf) CHAT_MAX_TOTAL = Some (17, Some ?f)"
    using assms frame_encoded [OF k, of "drop 13 uninit" buf OPCODE_REGISTER CHAT_OK] by (simp add: size_defs)
  have d: "DeserializeChatMessage (Some ?f) 17 (Some out) = Some (CHAT_OK, Some ?dec)"
    using assms frame_decoded [OF k, of OPCODE_REGISTER CHAT_OK 17 "drop 17 buf" out] by (simp add: size_defs opcode_defs CHAT_OK_def)
  have "c_string_at (m_value ?dec) 0 = Some name" "c_string_at (m_value ?dec) 6 = Some pass"
    using c_string_at_append [of name "[]"] c_string_at_append [of pass "name @ [NUL]"] l by simp_all
  then show ?thesis unfolding TestRoundtrip_def name_def [symmetric] pass_def [symmetric]
    using v1 v2 s d l by (simp add: same Let_def)
qed

lemma opcode_sign_test_passes:
  assumes "length buf = CHAT_MAX_TOTAL" and "length uninit = CHAT_MAX_VALUE"
  shows "TestOpcodeSign buf uninit = Some [True]"
  using SerializeChatMessage_frame [of "\<lparr>m_opcode = OPCODE_RESPONSE, m_length = 0, m_status = CHAT_OK, m_value = uninit\<rparr>" CHAT_MAX_TOTAL buf] assms
  by (simp add: TestOpcodeSign_def msg_ok_def Chat_GetOpcode_frame opcode_defs size_defs)

lemma protocol_tests_pass:
  assumes "length buf = CHAT_MAX_TOTAL" and "length uninit = CHAT_MAX_VALUE" and "msg_ok out"
  shows "test_network_protocol_main buf uninit out = Some 0"
proof -
  have none: "filter Not checks = []" if "set checks = {True}" for checks using that by (auto simp: filter_empty_conv)
  have v: "filter Not TestValidate = []" by (simp add: TestValidate_def Chat_Validate_def size_defs status_defs)
  obtain s where s: "TestSerialize buf uninit = Some s" "set s = {True}" using serialize_test_passes [OF assms(1,2)] by (elim exE conjE)
  obtain d where d: "TestDeserialize buf out = Some d" "set d = {True}" using deserialize_test_passes [OF assms(1,3)] by (elim exE conjE)
  obtain r where r: "TestRoundtrip uninit buf out = Some r" "set r = {True}" using roundtrip_test_passes [OF assms(2,1,3)] by (elim exE conjE)
  show ?thesis
    by (simp add: test_network_protocol_main_def s(1) d(1) r(1) opcode_sign_test_passes [OF assms(1,2)] none [OF s(2)] none [OF d(2)] none [OF r(2)] v)
qed

lemma check_conversion_passes:
  assumes "length buf = INET_ADDRSTRLEN"
  obtains buf' where "length buf' = INET_ADDRSTRLEN" and "check_conversion addr (ip_text addr) buf = Some (True, buf')"
proof
  have same: "c_strcmp s s = 0" for s by (induction s) auto
  show "check_conversion addr (ip_text addr) buf = Some (True, ip_text addr @ NUL # drop (Suc (length (ip_text addr))) buf)"
    by (simp add: check_conversion_def convert_ip [OF assms] converted_ip same)
  show "length (ip_text addr @ NUL # drop (Suc (length (ip_text addr))) buf) = INET_ADDRSTRLEN"
    using assms addr_text_bounds(1) [of addr] by (simp add: INET_ADDRSTRLEN_def)
qed

lemma network_utils_tests_pass:
  assumes "length buf = INET_ADDRSTRLEN"
  shows "test_network_utils_main buf = Some 0"
proof -
  have t: "ip_text (htonl 0xC0A80101) = ''192.168.1.1''" "ip_text 0x00000000 = ''0.0.0.0''" "ip_text 0xFFFFFFFF = ''255.255.255.255''"
    by (simp_all add: ip_text_def htonl_def addr_bytes_def addr_of_bytes_def Let_def decimal.simps char_of_def bit_0)
  obtain b1 where b1: "length b1 = INET_ADDRSTRLEN" "check_conversion (htonl 0xC0A80101) ''192.168.1.1'' buf = Some (True, b1)"
    by (rule check_conversion_passes [OF assms, of "htonl 0xC0A80101", unfolded t])
  obtain b2 where b2: "length b2 = INET_ADDRSTRLEN" "check_conversion 0x00000000 ''0.0.0.0'' b1 = Some (True, b2)"
    by (rule check_conversion_passes [OF b1(1), of "0x00000000", unfolded t])
  obtain b3 where "check_conversion 0xFFFFFFFF ''255.255.255.255'' b2 = Some (True, b3)"
    by (rule check_conversion_passes [OF b2(1), of "0xFFFFFFFF", unfolded t])
  then have c1: "test_basic_conversion buf = Some [True, True, True]" using b1(2) b2(2) by (simp add: test_basic_conversion_def)
  have c2: "test_convert_ip_p_to_n = Some [True, True, True]"
    unfolding test_convert_ip_p_to_n_def t(1) [symmetric] t(3) [symmetric]
    by (simp add: network_convert_roundtrip t [symmetric])
  show ?thesis
    by (simp add: c1 c2 test_network_utils_main_def RUN_TEST_def test_assert_on_null_buffer_def network_convert_ip_n_to_p_def)
qed

end
