(* ===== verification/Spec2Isabelle.thy ===== *)
theory Spec2Isabelle
  imports Wire_Properties Registry_Properties Tcp_Properties Chat_Rooms Chat_Desktop Logger Unit_Tests
begin

text \<open>
  A verification of the chat rooms system under \<open>src/\<close>: a TCP server that keeps users, sessions and
  groups, a menu-driven client, and two small programs per joined group that exchange the chat itself over
  UDP multicast.

  \<^bold>\<open>The program.\<close>  The server (\<open>serverMain.c\<close>) has a TCP layer (\<open>ServerNet/\<close>) whose acceptor thread hands new
  connections through a pipe to a handler thread, which watches all sockets with \<open>select\<close> and calls back
  into \<open>ServerMng/ServerManager.c\<close>.  That decodes a message (\<open>NetworkProtocol.h\<close>), dispatches it on its opcode
  to a handler, and the handlers use two registries, \<open>UserManager.c\<close> (users, passwords, sessions, memberships) and
  \<open>GroupManager.c\<close> (groups with reference counts and multicast endpoints).  The client (\<open>clientMain.c\<close>,
  \<open>Client/\<close>, \<open>ClientNet/\<close>) exchanges one request for one reply over a blocking socket.  On a successful create or join
  the reply holds the endpoint of the group; the client starts \<open>chat_receiver\<close> and \<open>chat_sender\<close> (\<open>ChatWindows/\<close>) on it
  in terminal windows and learns their process ids over a message queue (\<open>ChatIpc.c\<close>), so that it can close the
  windows on leave, logout and exit.

  \<^bold>\<open>Conventions.\<close>  Undefined behaviour (an access outside an object, a dangling pointer, a double free or close)
  is the value \<^term>\<open>None\<close> of an outer option, so that its absence is part of what is proved; error codes are the
  source's enums.  Integers whose width matters are words, byte buffers are lists of characters of the size
  of the C array, and bytes that C leaves uninitialised come from a parameter.  What the operating system answers
  (allocations, sockets, threads, queues, the interleaving of the threads) is a parameter too, so every theorem holds
  for every sequence of answers its hypotheses allow.  The hash map and list library is shipped as a binary;
  its documented contract is the locales \<open>hash_map\<close>, \<open>dlist\<close> and \<open>dlist_walk\<close>, the operations
  are parameters of the model, and reference implementations show that the contracts can hold.

  \<^bold>\<open>Theories and sources.\<close>
  \<^item> \<open>Chat_Prelude\<close>: C memory, strings, \<open>snprintf\<close>, allocation outcomes.  \<open>Chat_Config\<close>: \<open>config.h\<close>.
  \<^item> \<open>Data_Structures_Api\<close>, \<open>Data_Structures_Ref\<close>: the contract of \<open>db/HashMap.h\<close> and \<open>db/gen_dlist.h\<close>, and the
    reference implementations (chained buckets, arrays, linked nodes).
  \<^item> \<open>Network_Protocol\<close>: \<open>NetworkProtocol.h\<close>.  \<open>Network_Utils\<close>: \<open>utils/network_utils.c\<close>.  \<open>Logger\<close>: \<open>utils/logger.h\<close>.
  \<^item> \<open>Group_Manager\<close>: \<open>Group.c\<close>, \<open>GroupManager.c\<close>.  \<open>User_Manager\<close>: \<open>User.c\<close>, \<open>UserManager.c\<close>; \<open>User_Store\<close> its
    invariant and contract.  Both registries are refined to finite maps (\<open>gm_view\<close>, \<open>um_db\<close>).
  \<^item> \<open>Server_Manager\<close>: the callbacks, handlers and replies of \<open>ServerManager.c\<close>.  \<open>Chat_Service\<close>: the abstract chat
    service, requests on two finite maps.  \<open>Server_Refinement\<close>: every handler implements it.  \<open>Server_Run\<close>: runs of
    the server as an inductive relation.  \<open>Reference_Server\<close>: the locales interpreted on the reference library.
  \<^item> \<open>Tcp_Connection\<close>, \<open>Tcp_Server\<close>: the records, the handler, the acceptor and the controller of \<open>ServerNet/\<close>.
    \<open>Tcp_Invariant\<close>, \<open>Tcp_Lifecycle\<close>: the invariant over records, descriptors and list under every step of the workers, and the
    life cycle.  \<open>Tcp_Run\<close>: the interleavings, as an inductive relation over the iterations of the two workers and the calls
    of the owner; the locale \<open>tcp_client\<close> is the contract with the owner of the callbacks.  \<open>Chat_Server\<close>: the life cycle of
    \<open>ServerManager.c\<close>, \<open>main\<close> of \<open>serverMain.c\<close> (the run of the workers while it waits for a key is a parameter), and the contract
    interpreted on the callbacks.
  \<^item> \<open>Client_System\<close>: the client's system calls and the trace they leave.  \<open>Client_Menu\<close>: \<open>Client/Menu.c\<close>.
    \<open>Client_Controller\<close>: \<open>ClientNet/ClientController.c\<close>.  \<open>Group_Windows\<close>, \<open>Group_Windows_Inv\<close>: \<open>Client/GroupWindows.c\<close>.
    \<open>Client_App\<close>: \<open>Client/ClientApp.c\<close>, \<open>clientMain.c\<close>.  \<open>Client_Run\<close>: its invariant under every handler and the termination of
    its loop.
  \<^item> \<open>Chat_Windows\<close>: \<open>ChatIpc.c\<close>, \<open>ChatWindows/chat_sender.c\<close>, \<open>ChatWindows/chat_receiver.c\<close>.
  \<^item> \<open>Chat_Network\<close>: a local network that any number of window processes share, each with its own sockets.  \<open>Chat_Rooms\<close>: client, server and
    windows together.  \<open>Chat_Desktop\<close>: one machine with its message queues, the command lines the clients start, and the reports of the
    windows these run.
  \<^item> \<open>Unit_Tests\<close>: \<open>tests/test_network_protocol.c\<close>, \<open>Client/tests/test_menu.c\<close>, \<open>ServerNet/unittests/test_network_utils.c\<close>.
  \<^item> \<open>Wire_Properties\<close>, \<open>Registry_Properties\<close>, \<open>Server_Properties\<close>, \<open>Tcp_Properties\<close>, \<open>Client_Properties\<close>,
    \<open>Chat_System\<close>, \<open>Chat_Windows_Properties\<close>, \<open>Chat_Rooms\<close>, \<open>Chat_Desktop\<close>: the properties, with the text of each before it.

  \<^bold>\<open>What is shown.\<close>
  \<^item> Codec: it stays inside its buffers on arbitrary input, accepts exactly the complete frames, and inverts the encoder
    exactly on lengths whose low byte is below 128.
  \<^item> Registries: every operation implements its specification on every branch, failing allocations
    included.
  \<^item> Server: the message callback implements the abstract service for every buffer in every reachable state, with its undefined
    executions characterised; in every run reference counts are numbers of members, sessions need credentials and are
    exclusive, clients are isolated, and a disconnection cleans up.
  \<^item> TCP layer: for every interleaving no step is undefined, callbacks come in order, sessions belong to registered connections, and
    stopping and destroying return with the threads joined and the descriptors closed.
  \<^item> Client: \<open>main\<close> returns on every input without undefined behaviour, and signals only processes that reported
    themselves; the window manager implements a finite map of pairs of process ids.
  \<^item> Windows: the sender returns on every input and sends the typed lines in order; the receiver prints what arrives and never
    leaves its buffer; every typed line is printed by a receiver that has joined.
  \<^item> Composition: with the server as the peer of the client's socket, a typed registration ends in a session, and a typed group
    name in a group or a membership and in windows on exactly the endpoint the server keeps, which the windows parse back; of two users in one
    group every line the first types is printed by every window that joined, and by no window of another group; leaving gives the
    membership back and signals exactly the windows of the group.  On a machine with real queues the windows a client tracks are the ones
    it started.
  \<^item> Tests: the three unit-test programs of the repository return 0 in the model.
  \<^item> Defects: the properties of kind error state what the code does where it does not do what it means to.

  \<^bold>\<open>Bounds and fuel.\<close>  No loop is cut off.  The menu loop of the client is a \<open>partial_function\<close> and is proved to return;
  the sender's loop is a \<open>function\<close> with a termination proof, each iteration consuming input.  The receiver's loop and the
  workers of the server run until they are ended from outside: the first takes the number of its iterations as an
  argument, for which the theorems are universal, the others are steps of a run of any length.  Joining a worker
  completes the iteration it is in.

  \<^bold>\<open>Not modelled.\<close>  The sources of the data-structures library are not part of the repository, and its vector, tree, heap, queue and stack
  are not used.  The log stream is not part of the components' state: \<open>Logger\<close> has what a log macro writes.  The shell and the terminal emulator between
  \<open>system\<close> and the windows' \<open>main\<close> are modelled as far as the commands need it: a command line of plain characters is split at blanks and its program
  started; what a shell makes of other characters is a parameter.  Memory is
  modelled as ownership of blocks and not as addresses; the data races of the C11 memory model are not, the interleaving of the threads is at
  the granularity of the iterations that the code synchronises with its pipe, its mutex and its atomics.  The test drivers that need a live server
  or a terminal are left out.
\<close>

end
